theory Spec2Isabelle
  imports Complex_Main "HOL-Library.Char_ord" "HOL-Library.List_Lexorder"
begin

text \<open>
  A model of the decision pipeline of AgentGuard: policy evaluation, risk scoring, the
  approval gate, the hash-chained audit log with its verifier and forensic replay, and
  the playbooks. Each section names the source it follows; the properties come after the
  definitions.
\<close>

section \<open>JavaScript values\<close>

text \<open>
  Strings are \<^typ>\<open>string\<close>. A number is the rational it denotes. Comparisons,
  \<^verbatim>\<open>Math.min\<close>, \<^verbatim>\<open>Math.max\<close>, \<^verbatim>\<open>Math.round\<close> and the sums of small integers
  are exact in JavaScript as well; where the code divides, or multiplies and adds averages,
  the exact result is rounded to a double by the platform (section Platform functions).
  JSON values (request metadata, playbook configuration, the
  hash payload) are a datatype; an object is the list of its own enumerable properties in
  enumeration order.
\<close>

datatype json =
    JNull
  | JBool bool
  | JNum rat
  | JStr string
  | JArr "json list"
  | JObj "(string \<times> json) list"

text \<open>
  \<^verbatim>\<open>String.prototype.toLowerCase\<close> on the ASCII letters; every other character is kept.
  (No character outside ASCII lower-cases to a letter that occurs in the high-risk
  vocabulary below, so membership in that vocabulary is decided as in the source.)
\<close>

definition lowerChar :: "char \<Rightarrow> char" where
  "lowerChar c = (case c of Char b0 b1 b2 b3 b4 b5 b6 b7 \<Rightarrow>
     if (65::nat) \<le> of_char c \<and> of_char c \<le> (90::nat)
     then Char b0 b1 b2 b3 b4 True b6 b7 else c)"

definition toLowerCase :: "string \<Rightarrow> string" where
  "toLowerCase s = map lowerChar s"

text \<open>Insertion into a \<^verbatim>\<open>Set<string>\<close>, kept as the list of members in insertion order.\<close>

definition setAdd :: "string list \<Rightarrow> string \<Rightarrow> string list" where
  "setAdd xs s = (if s \<in> set xs then xs else xs @ [s])"

text \<open>\<^verbatim>\<open>[...new Set(xs)]\<close>: duplicates dropped, first occurrences kept in order.\<close>

definition uniqueList :: "string list \<Rightarrow> string list" where
  "uniqueList xs = foldl setAdd [] xs"

section \<open>Shared types (packages/shared/src/index.ts)\<close>

datatype PolicyMode = STRICT | BALANCED

datatype Decision = ALLOW | BLOCK

datatype error =
    ZodError
  | UniqueConstraintViolation
  | RecordNotFound
  | FetchError string

record PolicyRules =
  mode :: PolicyMode
  allow_actions :: "string list"
  deny_actions :: "string list"
  allow_tools :: "string list"
  deny_tools :: "string list"
  require_approval_actions :: "string list option"

record PolicyEvaluationContext =
  ctx_tool :: string
  ctx_action :: string
  ctx_resource :: "string option"
  ctx_metadata :: "json option"
  ctx_burstRate :: "rat option"

record PolicyEvaluationResult =
  decision :: Decision
  reason :: string
  signals :: "string list"

section \<open>Policy engine (apps/api/src/lib/policyEngine.ts)\<close>

text \<open>
  The argument of \<^verbatim>\<open>rulesSchema.parse\<close>: every field may be absent. The schema fills
  an absent field with its default and rejects a list that holds an empty string
  (\<^verbatim>\<open>z.string().min(1)\<close>) by throwing.
\<close>

record RawRules =
  raw_mode :: "PolicyMode option"
  raw_allow_actions :: "string list option"
  raw_deny_actions :: "string list option"
  raw_allow_tools :: "string list option"
  raw_deny_tools :: "string list option"
  raw_require_approval_actions :: "string list option"

definition parseStringArray :: "string list option \<Rightarrow> error + string list" where
  "parseStringArray field =
     (case field of
        None \<Rightarrow> Inr []
      | Some xs \<Rightarrow> if list_ex (\<lambda>s. length s < 1) xs then Inl ZodError else Inr xs)"

definition rulesSchema_parse :: "RawRules \<Rightarrow> error + PolicyRules" where
  "rulesSchema_parse raw =
     (case parseStringArray (raw_allow_actions raw) of Inl e \<Rightarrow> Inl e | Inr aa \<Rightarrow>
      case parseStringArray (raw_deny_actions raw) of Inl e \<Rightarrow> Inl e | Inr da \<Rightarrow>
      case parseStringArray (raw_allow_tools raw) of Inl e \<Rightarrow> Inl e | Inr atl \<Rightarrow>
      case parseStringArray (raw_deny_tools raw) of Inl e \<Rightarrow> Inl e | Inr dt \<Rightarrow>
      case parseStringArray (raw_require_approval_actions raw) of Inl e \<Rightarrow> Inl e | Inr ra \<Rightarrow>
        Inr \<lparr> mode = (case raw_mode raw of None \<Rightarrow> BALANCED | Some m \<Rightarrow> m),
              allow_actions = aa, deny_actions = da, allow_tools = atl, deny_tools = dt,
              require_approval_actions = Some ra \<rparr>)"

definition HIGH_RISK_ACTIONS :: "string set" where
  "HIGH_RISK_ACTIONS =
     {''delete'', ''drop'', ''transfer_funds'', ''write_prod'', ''admin_override'', ''terminate''}"

definition normalizePolicyRules :: "RawRules \<Rightarrow> PolicyMode option \<Rightarrow> error + PolicyRules" where
  "normalizePolicyRules rules m =
     (case rulesSchema_parse rules of
        Inl e \<Rightarrow> Inl e
      | Inr parsed \<Rightarrow> Inr (parsed \<lparr> mode := (case m of None \<Rightarrow> mode parsed | Some m' \<Rightarrow> m') \<rparr>))"

text \<open>A normalized rule set handed to a function that takes \<^verbatim>\<open>unknown\<close> rules.\<close>

definition asRaw :: "PolicyRules \<Rightarrow> RawRules" where
  "asRaw r = \<lparr> raw_mode = Some (mode r),
              raw_allow_actions = Some (allow_actions r),
              raw_deny_actions = Some (deny_actions r),
              raw_allow_tools = Some (allow_tools r),
              raw_deny_tools = Some (deny_tools r),
              raw_require_approval_actions = require_approval_actions r \<rparr>"

definition detectSignals :: "PolicyRules \<Rightarrow> PolicyEvaluationContext \<Rightarrow> string list" where
  "detectSignals rules ctx =
     (let s0 = [];
          s1 = (if toLowerCase (ctx_action ctx) \<in> HIGH_RISK_ACTIONS
                then setAdd s0 ''high_risk_action'' else s0);
          s2 = (if length (allow_tools rules) > 0 \<and> ctx_tool ctx \<notin> set (allow_tools rules)
                then setAdd s1 ''unknown_tool'' else s1);
          s3 = (case ctx_burstRate ctx of
                  Some b \<Rightarrow> if b \<ge> 5 then setAdd s2 ''burst_rate'' else s2
                | None \<Rightarrow> s2)
      in s3)"

definition evaluatePolicy :: "RawRules \<Rightarrow> PolicyEvaluationContext \<Rightarrow> error + PolicyEvaluationResult" where
  "evaluatePolicy inputRules ctx =
     (case normalizePolicyRules inputRules None of
        Inl e \<Rightarrow> Inl e
      | Inr rules \<Rightarrow>
          let sigs = detectSignals rules ctx in
          if ctx_action ctx \<in> set (deny_actions rules) then
            Inr \<lparr> decision = BLOCK, reason = ''action_denied_by_policy'', signals = sigs \<rparr>
          else if ctx_tool ctx \<in> set (deny_tools rules) then
            Inr \<lparr> decision = BLOCK, reason = ''tool_denied_by_policy'', signals = sigs \<rparr>
          else if mode rules = STRICT \<and> length (allow_actions rules) > 0
                  \<and> ctx_action ctx \<notin> set (allow_actions rules) then
            Inr \<lparr> decision = BLOCK, reason = ''action_not_allowlisted_strict'', signals = sigs \<rparr>
          else if mode rules = STRICT \<and> length (allow_tools rules) > 0
                  \<and> ctx_tool ctx \<notin> set (allow_tools rules) then
            Inr \<lparr> decision = BLOCK, reason = ''tool_not_allowlisted_strict'', signals = sigs \<rparr>
          else
            Inr \<lparr> decision = ALLOW, reason = ''allowed_by_policy_engine'', signals = sigs \<rparr>)"

section \<open>Platform functions\<close>

text \<open>
  Functions of the runtime and of the database that the repository calls but does not
  define are parameters of the model: the SHA-256 hex digest
  (\<^verbatim>\<open>createHash('sha256').update(s).digest('hex')\<close>), \<^verbatim>\<open>JSON.stringify\<close>,
  \<^verbatim>\<open>Date.prototype.toISOString\<close>, the generator of primary keys, the coercion
  \<^verbatim>\<open>Number(v)\<close> (\<open>None\<close> for a result that is not finite) and \<^verbatim>\<open>fetch\<close>
  (\<open>None\<close> when the call resolves, \<open>Some msg\<close> when it rejects with that message).
  A \<^verbatim>\<open>Date\<close> is its number of milliseconds since the epoch.
  The arithmetic of doubles is a parameter too: \<open>toDouble x\<close> is the double that an
  operation returns when its exact result is \<open>x\<close>, and \<open>toFixed2 x\<close> is
  \<^verbatim>\<open>Number(x.toFixed(2))\<close>.
\<close>

record FetchCall =
  fc_url :: string
  fc_headers :: "(string \<times> string) list"
  fc_body :: string

record platform =
  sha256hex :: "string \<Rightarrow> string"
  JSON_stringify :: "json \<Rightarrow> string"
  toISOString :: "int \<Rightarrow> string"
  uuid :: "nat \<Rightarrow> string"
  toNumber :: "json \<Rightarrow> rat option"
  fetch :: "FetchCall \<Rightarrow> string option"
  toDouble :: "rat \<Rightarrow> rat"
  toFixed2 :: "rat \<Rightarrow> rat"

section \<open>Risk helpers (lib/risk.ts, in src/unnamed/part_006)\<close>

definition requiresHumanApproval :: "string \<Rightarrow> PolicyRules \<Rightarrow> bool" where
  "requiresHumanApproval act rules =
     (if toLowerCase act \<in> HIGH_RISK_ACTIONS then True
      else act \<in> set (case require_approval_actions rules of None \<Rightarrow> [] | Some xs \<Rightarrow> xs))"

record RiskScoreContext =
  rc_baselineAvgRiskScore :: "rat option"
  rc_baselineAvgPerMinute :: "rat option"
  rc_burstRate :: "rat option"
  rc_isOffHours :: "bool option"
  rc_isNewPattern :: "bool option"

definition orZero :: "rat option \<Rightarrow> rat" where
  "orZero v = (case v of None \<Rightarrow> 0 | Some x \<Rightarrow> x)"

text \<open>\<^verbatim>\<open>Math.round\<close>: the nearest integer, a half rounded up.\<close>

definition Math_round :: "rat \<Rightarrow> int" where
  "Math_round x = \<lfloor>x + 1 / 2\<rfloor>"

definition signalPoints :: "string list \<Rightarrow> int" where
  "signalPoints sigs =
     (if ''unknown_tool'' \<in> set sigs then 20 else 0)
   + (if ''burst_rate'' \<in> set sigs then 20 else 0)
   + (if ''behavior_drift'' \<in> set sigs then 15 else 0)
   + (if ''off_hours_execution'' \<in> set sigs then 10 else 0)
   + (if ''new_action_pattern'' \<in> set sigs then 12 else 0)"

definition contextPoints :: "platform \<Rightarrow> Decision \<Rightarrow> RiskScoreContext \<Rightarrow> int" where
  "contextPoints P d c =
     (if orZero (rc_burstRate c) > 0 \<and> orZero (rc_baselineAvgPerMinute c) > 0 then
        (let multiplier =
               toDouble P (orZero (rc_burstRate c) / max 1 (orZero (rc_baselineAvgPerMinute c)))
         in if multiplier \<ge> 3 then 12 else if multiplier \<ge> 2 then 6 else 0)
      else 0)
   + (if orZero (rc_baselineAvgRiskScore c) > 0 \<and> d = ALLOW
      then Math_round (min 8 (toDouble P (orZero (rc_baselineAvgRiskScore c) / 20))) else 0)
   + (if rc_isOffHours c = Some True then 5 else 0)
   + (if rc_isNewPattern c = Some True then 5 else 0)"

definition computeRiskScore ::
  "platform \<Rightarrow> string list \<Rightarrow> string \<Rightarrow> Decision \<Rightarrow> RiskScoreContext \<Rightarrow> int" where
  "computeRiskScore P sigs act d c =
     (let score = 5
        + (if toLowerCase act \<in> HIGH_RISK_ACTIONS then 45 else 0)
        + signalPoints sigs
        + (if d = BLOCK then 10 else 0)
        + contextPoints P d c
      in max 0 (min 100 score))"

section \<open>Own properties of plain objects\<close>

text \<open>
  An ordinary object enumerates its integer-like keys first, in ascending numeric order,
  and then its other string keys in the order of their creation.
\<close>

definition isDigit :: "char \<Rightarrow> bool" where
  "isDigit c = ((48::nat) \<le> of_char c \<and> of_char c \<le> (57::nat))"

definition digitsValue :: "string \<Rightarrow> nat" where
  "digitsValue s = foldl (\<lambda>n c. 10 * n + (of_char c - 48)) 0 s"

definition isArrayIndex :: "string \<Rightarrow> bool" where
  "isArrayIndex s = (s \<noteq> [] \<and> list_all isDigit s \<and> (s = ''0'' \<or> hd s \<noteq> CHR ''0'')
                     \<and> digitsValue s < 4294967295)"

fun insertIndexed :: "(string \<times> json) list \<Rightarrow> string \<Rightarrow> json \<Rightarrow> (string \<times> json) list" where
  "insertIndexed [] k v = [(k, v)]"
| "insertIndexed ((k', v') # ps) k v =
     (if isArrayIndex k' \<and> digitsValue k' < digitsValue k
      then (k', v') # insertIndexed ps k v
      else (k, v) # (k', v') # ps)"

text \<open>Creating or overwriting an own data property (object literal, spread).\<close>

definition defineOwn :: "(string \<times> json) list \<Rightarrow> string \<Rightarrow> json \<Rightarrow> (string \<times> json) list" where
  "defineOwn ps k v =
     (if k \<in> fst ` set ps then map (\<lambda>(k', v'). if k' = k then (k', v) else (k', v')) ps
      else if isArrayIndex k then insertIndexed ps k v
      else ps @ [(k, v)])"

text \<open>
  The assignment \<^verbatim>\<open>acc[key] = value\<close> on an object created by \<^verbatim>\<open>{}\<close>. For the key
  \<^verbatim>\<open>__proto__\<close> the assignment runs the accessor inherited from
  \<^verbatim>\<open>Object.prototype\<close>: it replaces the prototype of \<open>acc\<close> when the value is an
  object or null and does nothing otherwise; in neither case does \<open>acc\<close> get an own
  property. Every other key creates or overwrites an own property.
\<close>

definition assignProp :: "(string \<times> json) list \<Rightarrow> string \<Rightarrow> json \<Rightarrow> (string \<times> json) list" where
  "assignProp acc k v = (if k = ''__proto__'' then acc else defineOwn acc k v)"

text \<open>
  Reading \<^verbatim>\<open>obj[key]\<close> for an own key of \<open>obj\<close>; an absent key reads as
  \<^verbatim>\<open>undefined\<close>, which is \<open>None\<close>.
\<close>

definition getOwn :: "(string \<times> json) list \<Rightarrow> string \<Rightarrow> json option" where
  "getOwn ps k = map_of ps k"

definition getProp :: "json \<Rightarrow> string \<Rightarrow> json option" where
  "getProp v k = (case v of JObj ps \<Rightarrow> getOwn ps k | _ \<Rightarrow> None)"

text \<open>The spread \<^verbatim>\<open>{...a, ...}\<close> of the own properties of \<open>a\<close> into \<open>acc\<close>.\<close>

definition spreadInto :: "(string \<times> json) list \<Rightarrow> (string \<times> json) list \<Rightarrow> (string \<times> json) list" where
  "spreadInto acc ps = foldl (\<lambda>a (k, v). defineOwn a k v) acc ps"

section \<open>Hash chain (lib/hashChain.ts, in src/apps/api/src/types/express.d.ts)\<close>

record AuditEventInput =
  in_workspaceId :: string
  in_agentId :: "string option"
  in_tool :: string
  in_action :: string
  in_resource :: "string option"
  in_decision :: Decision
  in_reason :: string
  in_metadata :: "json option"
  in_anomalyFlagged :: "bool option"
  in_createdAt :: "int option"

text \<open>
  \<open>sortObject\<close>: an array is mapped, an object is rebuilt from its sorted keys by
  the assignments of the \<^verbatim>\<open>reduce\<close> callback, anything else is returned. The callback
  reads \<open>obj[key]\<close> from the object whose values are already sorted, which gives the
  same result as sorting each value when it is read.
  \<^verbatim>\<open>Array.prototype.sort\<close> without a comparator orders strings by their code units.
\<close>

definition reducer :: "(string \<times> json) list \<Rightarrow> (string \<times> json) list \<Rightarrow> string \<Rightarrow> (string \<times> json) list" where
  "reducer obj acc key = (case getOwn obj key of Some v \<Rightarrow> assignProp acc key v | None \<Rightarrow> acc)"

fun sortObject :: "json \<Rightarrow> json" where
  "sortObject (JArr vs) = JArr (map sortObject vs)"
| "sortObject (JObj ps) =
     JObj (foldl (reducer (map (map_prod id sortObject) ps)) [] (sort (map fst ps)))"
| "sortObject v = v"

definition canonicalize :: "platform \<Rightarrow> json \<Rightarrow> string" where
  "canonicalize P v = JSON_stringify P (sortObject v)"

definition computeEventHash :: "platform \<Rightarrow> string \<Rightarrow> json \<Rightarrow> string" where
  "computeEventHash P prevHash payload = sha256hex P (prevHash @ canonicalize P payload)"

definition decisionString :: "Decision \<Rightarrow> string" where
  "decisionString d = (case d of ALLOW \<Rightarrow> ''ALLOW'' | BLOCK \<Rightarrow> ''BLOCK'')"

definition nullable :: "string option \<Rightarrow> json" where
  "nullable v = (case v of None \<Rightarrow> JNull | Some s \<Rightarrow> JStr s)"

definition createEventHashPayload :: "platform \<Rightarrow> AuditEventInput \<Rightarrow> int \<Rightarrow> json" where
  "createEventHashPayload P event createdAt =
     JObj [ (''workspace_id'', JStr (in_workspaceId event)),
            (''agent_id'', nullable (in_agentId event)),
            (''tool'', JStr (in_tool event)),
            (''action'', JStr (in_action event)),
            (''resource'', nullable (in_resource event)),
            (''decision'', JStr (decisionString (in_decision event))),
            (''reason'', JStr (in_reason event)),
            (''metadata'', (case in_metadata event of None \<Rightarrow> JObj [] | Some m \<Rightarrow> m)),
            (''anomaly_flagged'', JBool (in_anomalyFlagged event = Some True)),
            (''created_at'', JStr (toISOString P createdAt)) ]"

section \<open>Database state\<close>

record AuditLogEvent =
  ev_id :: string
  ev_workspaceId :: string
  ev_agentId :: "string option"
  ev_tool :: string
  ev_action :: string
  ev_resource :: "string option"
  ev_decision :: Decision
  ev_reason :: string
  ev_metadata :: json
  ev_anomalyFlagged :: bool
  ev_prevHash :: string
  ev_hash :: string
  ev_createdAt :: int

record AuditChainState =
  cs_lastEventId :: string
  cs_lastHash :: string

datatype AgentStatus = ACTIVE | DISABLED

text \<open>The status of a policy: \<^verbatim>\<open>DRAFT\<close>, \<^verbatim>\<open>PENDING_APPROVAL\<close>, \<^verbatim>\<open>APPROVED\<close>, \<^verbatim>\<open>REJECTED\<close>.\<close>

datatype PolicyStatus = DRAFT | PENDING_APPROVAL | POLICY_APPROVED | POLICY_REJECTED

datatype ApprovalStatus = PENDING | APPROVED | REJECTED | EXPIRED

record Policy =
  pol_id :: string
  pol_workspaceId :: string
  pol_rules :: RawRules
  pol_mode :: PolicyMode
  pol_status :: PolicyStatus

record AgentActionBaseline =
  bl_workspaceId :: string
  bl_avgRiskScore :: rat
  bl_avgPerMinute :: rat
  bl_sampleCount :: int
  bl_lastSeenAt :: "int option"

record ActionApprovalRequest =
  ar_workspaceId :: string
  ar_agentId :: string
  ar_tool :: string
  ar_action :: string
  ar_resource :: "string option"
  ar_metadata :: json
  ar_status :: ApprovalStatus
  ar_riskScore :: "int option"
  ar_requestedBy :: string
  ar_expiresAt :: int
  ar_resolvedByUserId :: "string option"
  ar_resolvedAt :: "int option"
  ar_resolutionNote :: "string option"
  ar_consumedAt :: "int option"

record WorkspacePlaybook =
  pb_id :: string
  pb_workspaceId :: string
  pb_name :: string
  pb_enabled :: bool
  pb_triggerDecision :: "Decision option"
  pb_minRiskScore :: int
  pb_matchSignals :: json
  pb_actionType :: string
  pb_actionConfig :: json
  pb_createdAt :: int

record PlaybookExecution =
  pe_playbookId :: string
  pe_workspaceId :: string
  pe_agentId :: "string option"
  pe_eventId :: string
  pe_status :: string
  pe_message :: string

record AgentApiKey =
  key_agentId :: string
  key_revokedAt :: "int option"

text \<open>
  The tables the pipeline reads and writes, the counter of the primary-key generator,
  and the log of the HTTP calls made. Tables with a unique key the code looks rows up
  by are maps from that key; the others are lists in insertion order.
\<close>

record state =
  auditLogEvent :: "AuditLogEvent list"
  auditChainState :: "string \<rightharpoonup> AuditChainState"
  agentActionBaseline :: "(string \<times> string \<times> string) \<rightharpoonup> AgentActionBaseline"
  policy :: "Policy list"
  actionApprovalRequest :: "string \<rightharpoonup> ActionApprovalRequest"
  workspacePlaybook :: "WorkspacePlaybook list"
  playbookExecution :: "PlaybookExecution list"
  agent :: "string \<rightharpoonup> AgentStatus"
  agentApiKey :: "AgentApiKey list"
  idSeq :: nat
  fetchLog :: "FetchCall list"

text \<open>
  \<open>appendAuditEvent\<close>. The three statements run in one transaction, so a failed insert
  (a primary key that is already taken) leaves the state as it was. \<open>now\<close> is the value
  of \<^verbatim>\<open>new Date()\<close> used when the event carries no \<open>createdAt\<close>.
\<close>

definition appendAuditEvent ::
  "platform \<Rightarrow> AuditEventInput \<Rightarrow> int \<Rightarrow> state \<Rightarrow> (error + AuditLogEvent) \<times> state" where
  "appendAuditEvent P event now db =
     (let prevHash = (case auditChainState db (in_workspaceId event) of
                        None \<Rightarrow> ''GENESIS'' | Some st \<Rightarrow> cs_lastHash st);
          createdAt = (case in_createdAt event of None \<Rightarrow> now | Some d \<Rightarrow> d);
          hashPayload = createEventHashPayload P event createdAt;
          hash = computeEventHash P prevHash hashPayload;
          newId = uuid P (idSeq db)
      in if newId \<in> ev_id ` set (auditLogEvent db) then (Inl UniqueConstraintViolation, db)
         else
           (let createdEvent =
                  \<lparr> ev_id = newId,
                    ev_workspaceId = in_workspaceId event,
                    ev_agentId = in_agentId event,
                    ev_tool = in_tool event,
                    ev_action = in_action event,
                    ev_resource = in_resource event,
                    ev_decision = in_decision event,
                    ev_reason = in_reason event,
                    ev_metadata = (case in_metadata event of None \<Rightarrow> JObj [] | Some m \<Rightarrow> m),
                    ev_anomalyFlagged = (in_anomalyFlagged event = Some True),
                    ev_prevHash = prevHash,
                    ev_hash = hash,
                    ev_createdAt = createdAt \<rparr>
            in (Inr createdEvent,
                db \<lparr> auditLogEvent := auditLogEvent db @ [createdEvent],
                     auditChainState := (auditChainState db)
                       (in_workspaceId event \<mapsto> \<lparr> cs_lastEventId = newId, cs_lastHash = hash \<rparr>),
                     idSeq := idSeq db + 1 \<rparr>)))"

text \<open>The event object that \<open>verifyHashChain\<close> passes to \<open>createEventHashPayload\<close>.\<close>

definition storedInput :: "AuditLogEvent \<Rightarrow> AuditEventInput" where
  "storedInput e =
     \<lparr> in_workspaceId = ev_workspaceId e,
       in_agentId = ev_agentId e,
       in_tool = ev_tool e,
       in_action = ev_action e,
       in_resource = ev_resource e,
       in_decision = ev_decision e,
       in_reason = ev_reason e,
       in_metadata = Some (ev_metadata e),
       in_anomalyFlagged = Some (ev_anomalyFlagged e),
       in_createdAt = None \<rparr>"

text \<open>The loop of \<open>verifyHashChain\<close>, with \<open>lastHash\<close> as its accumulator.\<close>

fun verifyFrom :: "platform \<Rightarrow> string \<Rightarrow> AuditLogEvent list \<Rightarrow> bool" where
  "verifyFrom P lastHash [] = True"
| "verifyFrom P lastHash (event # events) =
     (if ev_prevHash event \<noteq> lastHash then False
      else
        (let payload = createEventHashPayload P (storedInput event) (ev_createdAt event);
             expected = computeEventHash P (ev_prevHash event) payload
         in if ev_hash event \<noteq> expected then False
            else verifyFrom P (ev_hash event) events))"

definition verifyHashChain :: "platform \<Rightarrow> AuditLogEvent list \<Rightarrow> bool" where
  "verifyHashChain P events = verifyFrom P ''GENESIS'' events"

text \<open>Sequential appends: each one runs on the state left by the one before.\<close>

fun appendAll ::
  "platform \<Rightarrow> (AuditEventInput \<times> int) list \<Rightarrow> state \<Rightarrow> (error + AuditLogEvent list) \<times> state" where
  "appendAll P [] db = (Inr [], db)"
| "appendAll P ((event, now) # rest) db =
     (case appendAuditEvent P event now db of
        (Inl e, db') \<Rightarrow> (Inl e, db')
      | (Inr created, db') \<Rightarrow>
          (case appendAll P rest db' of
             (Inl e, db'') \<Rightarrow> (Inl e, db'')
           | (Inr others, db'') \<Rightarrow> (Inr (created # others), db'')))"

section \<open>Forensic replay (GET /forensics/replay, in src/unnamed/part_003)\<close>

text \<open>
  The verdict of one entry, \<^verbatim>\<open>'OK'\<close> or \<^verbatim>\<open>'BROKEN'\<close>, and the status of the summary,
  \<^verbatim>\<open>'HEALTHY'\<close> or \<^verbatim>\<open>'BROKEN'\<close> (here \<open>CHAIN_BROKEN\<close>).
\<close>

datatype ChainIntegrity = OK | BROKEN

datatype ChainStatus = HEALTHY | CHAIN_BROKEN

record TimelineEntry =
  tl_id :: string
  tl_createdAt :: int
  tl_agentId :: "string option"
  tl_tool :: string
  tl_action :: string
  tl_decision :: Decision
  tl_reason :: string
  tl_prevHash :: string
  tl_hash :: string
  tl_chainIntegrity :: ChainIntegrity
  tl_metadata :: json

record ReplaySummary =
  totalEvents :: nat
  integrityFailures :: nat
  chainStatus :: ChainStatus

text \<open>
  The \<^verbatim>\<open>events.map\<close> callback with its two captured variables \<open>previousHash\<close> and
  \<open>integrityFailures\<close> threaded through.
\<close>

fun timelineFrom ::
  "string option \<Rightarrow> nat \<Rightarrow> AuditLogEvent list \<Rightarrow> TimelineEntry list \<times> nat" where
  "timelineFrom previousHash failures [] = ([], failures)"
| "timelineFrom previousHash failures (event # events) =
     (let prevMatches = (case previousHash of None \<Rightarrow> True | Some h \<Rightarrow> ev_prevHash event = h);
          failures' = (if \<not> prevMatches then failures + 1 else failures);
          entry = \<lparr> tl_id = ev_id event,
                    tl_createdAt = ev_createdAt event,
                    tl_agentId = ev_agentId event,
                    tl_tool = ev_tool event,
                    tl_action = ev_action event,
                    tl_decision = ev_decision event,
                    tl_reason = ev_reason event,
                    tl_prevHash = ev_prevHash event,
                    tl_hash = ev_hash event,
                    tl_chainIntegrity = (if prevMatches then OK else BROKEN),
                    tl_metadata = ev_metadata event \<rparr>;
          (entries, failures'') = timelineFrom (Some (ev_hash event)) failures' events
      in (entry # entries, failures''))"

definition forensicsReplay :: "AuditLogEvent list \<Rightarrow> ReplaySummary \<times> TimelineEntry list" where
  "forensicsReplay events =
     (let (timeline, failures) = timelineFrom None 0 events
      in (\<lparr> totalEvents = length timeline,
            integrityFailures = failures,
            chainStatus = (if failures = 0 then HEALTHY else CHAIN_BROKEN) \<rparr>,
          timeline))"

section \<open>Playbooks (services/playbookService.ts, in src/apps/api/src/services/actionService.ts)\<close>

record PlaybookInput =
  pi_workspaceId :: string
  pi_agentId :: "string option"
  pi_eventId :: string
  pi_decision :: Decision
  pi_riskScore :: int
  pi_signals :: "string list"
  pi_tool :: string
  pi_action :: string
  pi_resource :: "string option"
  pi_metadata :: json

definition getSignalMatchers :: "json \<Rightarrow> string list" where
  "getSignalMatchers v =
     (case v of
        JArr items \<Rightarrow> concat (map (\<lambda>item. case item of
                                              JStr s \<Rightarrow> if length s > 0 then [s] else []
                                            | _ \<Rightarrow> []) items)
      | _ \<Rightarrow> [])"

text \<open>The own properties that a spread copies out of a value.\<close>

definition ownProps :: "json \<Rightarrow> (string \<times> json) list" where
  "ownProps v = (case v of JObj ps \<Rightarrow> ps | _ \<Rightarrow> [])"

definition jsonSignals :: "string list \<Rightarrow> json" where
  "jsonSignals sigs = JArr (map JStr sigs)"

text \<open>
  \<open>executeWebhook\<close>: the call is recorded in the log of HTTP calls; a rejected
  \<^verbatim>\<open>fetch\<close> is the thrown error.
\<close>

definition executeWebhook ::
  "platform \<Rightarrow> string \<Rightarrow> string option \<Rightarrow> json \<Rightarrow> state \<Rightarrow> (error + unit) \<times> state" where
  "executeWebhook P url secret payload db =
     (let call = \<lparr> fc_url = url,
                   fc_headers = (''content-type'', ''application/json'')
                      # (case secret of
                           Some s \<Rightarrow> if s \<noteq> [] then [(''x-playbook-secret'', s)] else []
                         | None \<Rightarrow> []),
                   fc_body = JSON_stringify P payload \<rparr>;
          db' = db \<lparr> fetchLog := fetchLog db @ [call] \<rparr>
      in case fetch P call of
           None \<Rightarrow> (Inr (), db')
         | Some msg \<Rightarrow> (Inl (FetchError msg), db'))"

text \<open>
  Inserting an approval request under a fresh primary key; a key that is already taken
  is the database's unique-constraint error.
\<close>

definition createApprovalRequest ::
  "platform \<Rightarrow> ActionApprovalRequest \<Rightarrow> state \<Rightarrow> (error + string) \<times> state" where
  "createApprovalRequest P row db =
     (let newId = uuid P (idSeq db)
      in if newId \<in> dom (actionApprovalRequest db) then (Inl UniqueConstraintViolation, db)
         else (Inr newId,
               db \<lparr> actionApprovalRequest := (actionApprovalRequest db)(newId \<mapsto> row),
                    idSeq := idSeq db + 1 \<rparr>))"

definition errorMessage :: "error \<Rightarrow> string" where
  "errorMessage e =
     (case e of
        FetchError msg \<Rightarrow> msg
      | UniqueConstraintViolation \<Rightarrow> ''Unique constraint failed''
      | RecordNotFound \<Rightarrow> ''Record to update not found''
      | ZodError \<Rightarrow> ''Invalid input'')"

definition recordExecution ::
  "PlaybookInput \<Rightarrow> WorkspacePlaybook \<Rightarrow> string \<Rightarrow> string \<Rightarrow> state \<Rightarrow> state" where
  "recordExecution inp playbook status message db =
     db \<lparr> playbookExecution := playbookExecution db @
            [\<lparr> pe_playbookId = pb_id playbook,
               pe_workspaceId = pi_workspaceId inp,
               pe_agentId = pi_agentId inp,
               pe_eventId = pi_eventId inp,
               pe_status = status,
               pe_message = message \<rparr>] \<rparr>"

text \<open>The three trigger conditions of one playbook.\<close>

definition triggerMatches :: "PlaybookInput \<Rightarrow> WorkspacePlaybook \<Rightarrow> bool" where
  "triggerMatches inp playbook =
     (let requiredSignals = getSignalMatchers (pb_matchSignals playbook);
          decisionMatch = (case pb_triggerDecision playbook of
                             None \<Rightarrow> True | Some d \<Rightarrow> d = pi_decision inp);
          riskMatch = (pi_riskScore inp \<ge> pb_minRiskScore playbook);
          signalsMatch = (length requiredSignals = 0
                          \<or> list_all (\<lambda>signal. signal \<in> set (pi_signals inp)) requiredSignals)
      in decisionMatch \<and> riskMatch \<and> signalsMatch)"

definition configString :: "json \<Rightarrow> string \<Rightarrow> string option" where
  "configString actionConfig k =
     (case getProp actionConfig k of Some (JStr s) \<Rightarrow> Some s | _ \<Rightarrow> None)"

text \<open>\<^verbatim>\<open>value ?? {}\<close> for a stored JSON value.\<close>

definition orEmptyObject :: "json \<Rightarrow> json" where
  "orEmptyObject v = (case v of JNull \<Rightarrow> JObj [] | _ \<Rightarrow> v)"

text \<open>
  The body of the \<^verbatim>\<open>switch\<close>: the message of the execution record, or the error thrown.
  \<open>now\<close> is the clock reading used inside the playbook.
\<close>

definition playbookAction ::
  "platform \<Rightarrow> PlaybookInput \<Rightarrow> int \<Rightarrow> WorkspacePlaybook \<Rightarrow> state \<Rightarrow> (error + string) \<times> state" where
  "playbookAction P inp now playbook db =
     (let actionConfig = orEmptyObject (pb_actionConfig playbook)
      in
      if pb_actionType playbook = ''DISABLE_AGENT'' then
        (case pi_agentId inp of
           None \<Rightarrow> (Inr ''No agent available to disable'', db)
         | Some agentId \<Rightarrow>
             if agentId = [] then (Inr ''No agent available to disable'', db)
             else if agentId \<notin> dom (agent db) then (Inl RecordNotFound, db)
             else (Inr ''Agent disabled by playbook'',
                   db \<lparr> agent := (agent db)(agentId \<mapsto> DISABLED) \<rparr>))
      else if pb_actionType playbook = ''REVOKE_ACTIVE_KEYS'' then
        (case pi_agentId inp of
           None \<Rightarrow> (Inr ''No agent available to revoke keys'', db)
         | Some agentId \<Rightarrow>
             if agentId = [] then (Inr ''No agent available to revoke keys'', db)
             else (Inr ''Active keys revoked by playbook'',
                   db \<lparr> agentApiKey :=
                          map (\<lambda>k. if key_agentId k = agentId \<and> key_revokedAt k = None
                                    then k \<lparr> key_revokedAt := Some now \<rparr> else k)
                              (agentApiKey db) \<rparr>))
      else if pb_actionType playbook = ''CREATE_APPROVAL'' then
        (case pi_agentId inp of
           None \<Rightarrow> (Inr ''No agent available for approval request'', db)
         | Some agentId \<Rightarrow>
             if agentId = [] then (Inr ''No agent available for approval request'', db)
             else
               (let ttlMinutesRaw = (case getProp actionConfig ''ttlMinutes'' of
                                       None \<Rightarrow> Some 15
                                     | Some JNull \<Rightarrow> Some 15
                                     | Some v \<Rightarrow> toNumber P v);
                    ttlMinutes = (case ttlMinutesRaw of Some n \<Rightarrow> max 1 n | None \<Rightarrow> 15);
                    row = \<lparr> ar_workspaceId = pi_workspaceId inp,
                            ar_agentId = agentId,
                            ar_tool = pi_tool inp,
                            ar_action = pi_action inp,
                            ar_resource = pi_resource inp,
                            ar_metadata =
                              JObj (defineOwn
                                     (defineOwn
                                       (defineOwn (spreadInto [] (ownProps (pi_metadata inp)))
                                          ''source'' (JStr ''playbook''))
                                       ''playbookId'' (JStr (pb_id playbook)))
                                     ''eventId'' (JStr (pi_eventId inp))),
                            ar_status = PENDING,
                            ar_riskScore = Some (pi_riskScore inp),
                            ar_requestedBy = ''PLAYBOOK:'' @ pb_name playbook,
                            ar_expiresAt = now + \<lfloor>ttlMinutes * 60000\<rfloor>,
                            ar_resolvedByUserId = None,
                            ar_resolvedAt = None,
                            ar_resolutionNote = None,
                            ar_consumedAt = None \<rparr>
                in case createApprovalRequest P row db of
                     (Inl e, db') \<Rightarrow> (Inl e, db')
                   | (Inr newId, db') \<Rightarrow> (Inr ''Approval request created by playbook'', db')))
      else if pb_actionType playbook = ''NOTIFY_WEBHOOK'' then
        (let url = (case configString actionConfig ''url'' of Some s \<Rightarrow> s | None \<Rightarrow> '''');
             secret = configString actionConfig ''secret''
         in if url = [] then (Inr ''Webhook URL missing in playbook actionConfig'', db)
            else
              (case executeWebhook P url secret
                      (JObj [ (''playbookId'', JStr (pb_id playbook)),
                              (''workspaceId'', JStr (pi_workspaceId inp)),
                              (''agentId'', nullable (pi_agentId inp)),
                              (''eventId'', JStr (pi_eventId inp)),
                              (''decision'', JStr (decisionString (pi_decision inp))),
                              (''riskScore'', JNum (of_int (pi_riskScore inp))),
                              (''signals'', jsonSignals (pi_signals inp)),
                              (''tool'', JStr (pi_tool inp)),
                              (''action'', JStr (pi_action inp)),
                              (''resource'', nullable (pi_resource inp)),
                              (''metadata'', pi_metadata inp),
                              (''timestamp'', JStr (toISOString P now)) ])
                      db of
                 (Inl e, db') \<Rightarrow> (Inl e, db')
               | (Inr u, db') \<Rightarrow> (Inr ''Webhook notification sent by playbook'', db')))
      else (Inr (''Unsupported action type '' @ pb_actionType playbook), db))"

text \<open>One iteration of the loop over the playbooks.\<close>

definition runPlaybook ::
  "platform \<Rightarrow> PlaybookInput \<Rightarrow> int \<Rightarrow> state \<Rightarrow> WorkspacePlaybook \<Rightarrow> state" where
  "runPlaybook P inp now db playbook =
     (if \<not> triggerMatches inp playbook
      then recordExecution inp playbook ''SKIPPED'' ''Trigger conditions not met'' db
      else
        (case playbookAction P inp now playbook db of
           (Inr message, db') \<Rightarrow> recordExecution inp playbook ''EXECUTED'' message db'
         | (Inl e, db') \<Rightarrow> recordExecution inp playbook ''FAILED'' (errorMessage e) db'))"

text \<open>The enabled playbooks of the workspace, oldest first.\<close>

definition enabledPlaybooks :: "string \<Rightarrow> state \<Rightarrow> WorkspacePlaybook list" where
  "enabledPlaybooks workspaceId db =
     sort_key pb_createdAt
       (filter (\<lambda>p. pb_workspaceId p = workspaceId \<and> pb_enabled p) (workspacePlaybook db))"

definition runPlaybooksForEvent :: "platform \<Rightarrow> PlaybookInput \<Rightarrow> int \<Rightarrow> state \<Rightarrow> state" where
  "runPlaybooksForEvent P inp now db =
     foldl (runPlaybook P inp now) db (enabledPlaybooks (pi_workspaceId inp) db)"

section \<open>Evaluate and log (services/actionService.ts)\<close>

record Agent =
  ag_id :: string
  ag_status :: AgentStatus
  ag_activePolicyId :: "string option"

record EvaluateAndLogInput =
  eal_workspaceId :: string
  eal_agent :: Agent
  eal_tool :: string
  eal_action :: string
  eal_resource :: "string option"
  eal_metadata :: "json option"
  eal_forceBlockReason :: "string option"
  eal_approvalRequestId :: "string option"
  eal_requestedBy :: "string option"

text \<open>
  The readings of the clock during one evaluation: at entry (\<open>oneMinuteAgo\<close>, \<open>now\<close>),
  in the lookup of the approval request, when it is marked consumed, when a new request
  is created, in \<open>appendAuditEvent\<close>, and inside the playbooks.
\<close>

record Clock =
  clk_start :: int
  clk_approvalLookup :: int
  clk_approvalConsume :: int
  clk_approvalCreate :: int
  clk_append :: int
  clk_playbook :: int

record EvaluateAndLogResult =
  res_decision :: Decision
  res_reason :: string
  res_signals :: "string list"
  res_riskScore :: int
  res_approvalRequestId :: "string option"
  res_event :: AuditLogEvent

definition APPROVAL_TTL_MS :: int where
  "APPROVAL_TTL_MS = 15 * 60 * 1000"

text \<open>
  An optional string in a condition: absent and empty are both false. \<open>truthy v\<close> is
  the string when the condition holds.
\<close>

definition truthy :: "string option \<Rightarrow> string option" where
  "truthy v = (case v of None \<Rightarrow> None | Some s \<Rightarrow> if s \<noteq> [] then Some s else None)"

definition getUTCHours :: "int \<Rightarrow> int" where
  "getUTCHours t = (t div 3600000) mod 24"

text \<open>Lines 39 to 49: the agent's audit events of the last minute.\<close>

definition countRecent :: "EvaluateAndLogInput \<Rightarrow> Clock \<Rightarrow> state \<Rightarrow> nat" where
  "countRecent inp clk db =
     length (filter (\<lambda>e. ev_workspaceId e = eal_workspaceId inp
                         \<and> ev_agentId e = Some (ag_id (eal_agent inp))
                         \<and> ev_createdAt e \<ge> clk_start clk - 60000)
                    (auditLogEvent db))"

definition findBaseline :: "EvaluateAndLogInput \<Rightarrow> state \<Rightarrow> AgentActionBaseline option" where
  "findBaseline inp db =
     agentActionBaseline db (ag_id (eal_agent inp), eal_tool inp, eal_action inp)"

definition defaultRules :: RawRules where
  "defaultRules =
     \<lparr> raw_mode = Some BALANCED, raw_allow_actions = Some [], raw_deny_actions = Some [],
       raw_allow_tools = Some [], raw_deny_tools = Some [],
       raw_require_approval_actions = Some [] \<rparr>"

text \<open>
  Lines 60 to 118: the decision, its reason, the signals of the policy engine and the
  rule set in force.
\<close>

definition resolveDecision ::
  "EvaluateAndLogInput \<Rightarrow> nat \<Rightarrow> state \<Rightarrow> error + (Decision \<times> string \<times> string list \<times> PolicyRules)" where
  "resolveDecision inp burst db =
     (case normalizePolicyRules defaultRules None of
        Inl e \<Rightarrow> Inl e
      | Inr rules0 \<Rightarrow>
          if truthy (eal_forceBlockReason inp) \<noteq> None then
            Inr (BLOCK, (case eal_forceBlockReason inp of Some r \<Rightarrow> r | None \<Rightarrow> []), [], rules0)
          else if ag_status (eal_agent inp) = DISABLED then
            Inr (BLOCK, ''agent_disabled'', [], rules0)
          else
            (case (case truthy (ag_activePolicyId (eal_agent inp)) of
                     None \<Rightarrow> Inr (rules0, False)
                   | Some policyId \<Rightarrow>
                       (case find (\<lambda>p. pol_id p = policyId
                                        \<and> pol_workspaceId p = eal_workspaceId inp) (policy db) of
                          None \<Rightarrow> Inr (rules0, False)
                        | Some pol \<Rightarrow>
                            (case normalizePolicyRules
                                    ((pol_rules pol) \<lparr> raw_mode := Some (pol_mode pol) \<rparr>)
                                    (Some (pol_mode pol)) of
                               Inl e \<Rightarrow> Inl e
                             | Inr rules \<Rightarrow> Inr (rules, pol_status pol \<noteq> POLICY_APPROVED)))) of
               Inl e \<Rightarrow> Inl e
             | Inr (rules, notApproved) \<Rightarrow>
                 if notApproved then Inr (BLOCK, ''policy_not_approved'', [], rules)
                 else
                   (case evaluatePolicy (asRaw rules)
                           \<lparr> ctx_tool = eal_tool inp, ctx_action = eal_action inp,
                             ctx_resource = eal_resource inp, ctx_metadata = eal_metadata inp,
                             ctx_burstRate = Some (of_nat burst) \<rparr> of
                      Inl e \<Rightarrow> Inl e
                    | Inr evaluated \<Rightarrow>
                        Inr (decision evaluated, reason evaluated, signals evaluated, rules))))"

text \<open>
  Lines 120 to 136: the signals drawn from the baseline as it was before this call. The
  multiplier is compared with 2 and nothing else. Its dividend is a count and its divisor
  a double that is at least 1; half the count is a double, so a divisor above it exceeds
  it by a whole step of the doubles, which keeps the quotient below the midpoint under 2.
  Hence the double of the quotient is at least 2 exactly when the quotient is, and the
  quotient is left exact.
\<close>

definition burstMultiplier :: "AgentActionBaseline option \<Rightarrow> nat \<Rightarrow> rat" where
  "burstMultiplier baseline burst =
     (let baselineAvgPerMinute = (case baseline of None \<Rightarrow> 0 | Some b \<Rightarrow> bl_avgPerMinute b)
      in if baselineAvgPerMinute > 0 then of_nat burst / max 1 baselineAvgPerMinute else 1)"

definition baselineSignals ::
  "EvaluateAndLogInput \<Rightarrow> Clock \<Rightarrow> AgentActionBaseline option \<Rightarrow> nat \<Rightarrow> string list \<Rightarrow> string list" where
  "baselineSignals inp clk baseline burst sigs =
     (let isOffHours = (getUTCHours (clk_start clk) < 5 \<or> getUTCHours (clk_start clk) > 20);
          baselineSampleCount = (case baseline of None \<Rightarrow> 0 | Some b \<Rightarrow> bl_sampleCount b);
          s1 = (if baselineSampleCount \<ge> 5 \<and> burstMultiplier baseline burst \<ge> 2
                then sigs @ [''behavior_drift''] else sigs);
          s2 = (if baselineSampleCount < 3 then s1 @ [''new_action_pattern''] else s1);
          s3 = (if isOffHours \<and> toLowerCase (eal_action inp) \<in> HIGH_RISK_ACTIONS
                then s2 @ [''off_hours_execution''] else s2)
      in s3)"

text \<open>
  Lines 141 to 156: the approval request with the supplied id, when it belongs to the
  workspace and the agent, is approved, is not consumed, and expires after the lookup.
\<close>

definition findApproved :: "EvaluateAndLogInput \<Rightarrow> Clock \<Rightarrow> state \<Rightarrow> string option" where
  "findApproved inp clk db =
     (case truthy (eal_approvalRequestId inp) of
        None \<Rightarrow> None
      | Some approvalRequestId \<Rightarrow>
          (case actionApprovalRequest db approvalRequestId of
             None \<Rightarrow> None
           | Some r \<Rightarrow>
               if ar_workspaceId r = eal_workspaceId inp
                  \<and> ar_agentId r = ag_id (eal_agent inp)
                  \<and> ar_status r = APPROVED
                  \<and> ar_consumedAt r = None
                  \<and> ar_expiresAt r > clk_approvalLookup clk
               then Some approvalRequestId else None))"

text \<open>
  Lines 158 to 165: the request is marked consumed. The update selects the row by its
  id alone and writes \<open>consumedAt\<close>; it tests neither \<open>consumedAt\<close> nor any other
  column of the row as it is by then. Updating a row that does not exist is the
  database's error.
\<close>

definition consumeApproval :: "Clock \<Rightarrow> string \<Rightarrow> state \<Rightarrow> (error + unit) \<times> state" where
  "consumeApproval clk rid db =
     (case actionApprovalRequest db rid of
        None \<Rightarrow> (Inl RecordNotFound, db)
      | Some r \<Rightarrow>
          (Inr (),
           db \<lparr> actionApprovalRequest :=
                  (actionApprovalRequest db)
                    (rid \<mapsto> r \<lparr> ar_consumedAt := Some (clk_approvalConsume clk) \<rparr>) \<rparr>))"

text \<open>
  Lines 158 to 195: the statements of the approval gate that follow the lookup, from its
  answer \<open>approvedRequest\<close>. They return the decision, the reason, the signals and the
  id of a request they created.
\<close>

definition gateAfterLookup ::
  "platform \<Rightarrow> EvaluateAndLogInput \<Rightarrow> Clock \<Rightarrow> Decision \<times> string \<times> string list
     \<Rightarrow> string option \<Rightarrow> state
     \<Rightarrow> (error + (Decision \<times> string \<times> string list \<times> string option)) \<times> state" where
  "gateAfterLookup P inp clk cur approvedRequest db =
     (case cur of (decision0, reason0, sigs) \<Rightarrow>
        (case approvedRequest of
           Some rid \<Rightarrow>
             (case consumeApproval clk rid db of
                (Inl e, db') \<Rightarrow> (Inl e, db')
              | (Inr u, db') \<Rightarrow>
                  (Inr (decision0, reason0, sigs @ [''human_approval_consumed''], None), db'))
         | None \<Rightarrow>
             (case createApprovalRequest P
                     \<lparr> ar_workspaceId = eal_workspaceId inp,
                       ar_agentId = ag_id (eal_agent inp),
                       ar_tool = eal_tool inp,
                       ar_action = eal_action inp,
                       ar_resource = eal_resource inp,
                       ar_metadata = (case eal_metadata inp of None \<Rightarrow> JObj [] | Some m \<Rightarrow> m),
                       ar_status = PENDING,
                       ar_riskScore = None,
                       ar_requestedBy = (case eal_requestedBy inp of
                                           None \<Rightarrow> ''SYSTEM'' | Some s \<Rightarrow> s),
                       ar_expiresAt = clk_approvalCreate clk + APPROVAL_TTL_MS,
                       ar_resolvedByUserId = None,
                       ar_resolvedAt = None,
                       ar_resolutionNote = None,
                       ar_consumedAt = None \<rparr> db of
                (Inl e, db') \<Rightarrow> (Inl e, db')
              | (Inr newId, db') \<Rightarrow>
                  (Inr (BLOCK, ''approval_required'', sigs @ [''human_approval_required''],
                        Some newId), db'))))"

text \<open>
  Lines 138 to 196: the approval gate of an evaluation that runs alone, so that the
  lookup and the statements after it see the same state. The gate of evaluations in
  flight at the same time is in the section on concurrent evaluations below.
\<close>

definition approvalGate ::
  "platform \<Rightarrow> EvaluateAndLogInput \<Rightarrow> Clock \<Rightarrow> PolicyRules \<Rightarrow> Decision \<times> string \<times> string list
     \<Rightarrow> state \<Rightarrow> (error + (Decision \<times> string \<times> string list \<times> string option)) \<times> state" where
  "approvalGate P inp clk rules cur db =
     (case cur of (decision0, reason0, sigs) \<Rightarrow>
        if decision0 = ALLOW \<and> requiresHumanApproval (eal_action inp) rules then
          gateAfterLookup P inp clk cur (findApproved inp clk db) db
        else (Inr (decision0, reason0, sigs, None), db))"

text \<open>Lines 216 to 226: the metadata stored with the audit event.\<close>

definition eventMetadata ::
  "json option \<Rightarrow> string list \<Rightarrow> int \<Rightarrow> string option \<Rightarrow> AgentActionBaseline option \<Rightarrow> nat \<Rightarrow> json" where
  "eventMetadata metadata uniqueSignals riskScore approvalId baseline burst =
     JObj (defineOwn
            (defineOwn
              (defineOwn
                (defineOwn
                  (spreadInto [] (ownProps (case metadata of None \<Rightarrow> JObj [] | Some m \<Rightarrow> m)))
                  ''signals'' (jsonSignals uniqueSignals))
                ''risk_score'' (JNum (of_int riskScore)))
              ''approval_request_id'' (nullable approvalId))
            ''risk_context''
              (JObj [ (''baseline_avg_risk'',
                         JNum (case baseline of None \<Rightarrow> 0 | Some b \<Rightarrow> bl_avgRiskScore b)),
                      (''baseline_avg_per_minute'',
                         JNum (case baseline of None \<Rightarrow> 0 | Some b \<Rightarrow> bl_avgPerMinute b)),
                      (''burst_rate'', JNum (of_nat burst)) ]))"

text \<open>Lines 230 to 260: the running averages of the baseline.\<close>

definition upsertBaseline ::
  "platform \<Rightarrow> EvaluateAndLogInput \<Rightarrow> Clock \<Rightarrow> AgentActionBaseline option \<Rightarrow> int \<Rightarrow> nat
     \<Rightarrow> state \<Rightarrow> state" where
  "upsertBaseline P inp clk baseline riskScore burst db =
     (let key = (ag_id (eal_agent inp), eal_tool inp, eal_action inp);
          oldCount = (case baseline of None \<Rightarrow> 0 | Some b \<Rightarrow> bl_sampleCount b);
          oldRisk = (case baseline of None \<Rightarrow> 0 | Some b \<Rightarrow> bl_avgRiskScore b);
          oldRate = (case baseline of None \<Rightarrow> 0 | Some b \<Rightarrow> bl_avgPerMinute b);
          nextSampleCount = oldCount + 1;
          nextAverageRisk =
            toDouble P (toDouble P (toDouble P (oldRisk * of_int oldCount) + of_int riskScore)
                        / of_int nextSampleCount);
          nextAveragePerMinute =
            toDouble P (toDouble P (toDouble P (oldRate * of_int oldCount) + of_nat burst)
                        / of_int nextSampleCount)
      in case agentActionBaseline db key of
           None \<Rightarrow>
             db \<lparr> agentActionBaseline := (agentActionBaseline db)
                    (key \<mapsto> \<lparr> bl_workspaceId = eal_workspaceId inp,
                              bl_avgRiskScore = of_int riskScore,
                              bl_avgPerMinute = of_nat burst,
                              bl_sampleCount = 1,
                              bl_lastSeenAt = Some (clk_start clk) \<rparr>) \<rparr>
         | Some row \<Rightarrow>
             db \<lparr> agentActionBaseline := (agentActionBaseline db)
                    (key \<mapsto> row \<lparr> bl_avgRiskScore := toFixed2 P nextAverageRisk,
                                   bl_avgPerMinute := toFixed2 P nextAveragePerMinute,
                                   bl_sampleCount := nextSampleCount,
                                   bl_lastSeenAt := Some (clk_start clk) \<rparr>) \<rparr>)"

text \<open>
  Lines 198 to 299: the risk score, the audit event, the baseline, the playbooks and the
  returned value, from the outcome of the approval gate.
\<close>

definition logEvaluation ::
  "platform \<Rightarrow> EvaluateAndLogInput \<Rightarrow> Clock \<Rightarrow> AgentActionBaseline option \<Rightarrow> nat
     \<Rightarrow> Decision \<times> string \<times> string list \<times> string option
     \<Rightarrow> state \<Rightarrow> (error + EvaluateAndLogResult) \<times> state" where
  "logEvaluation P inp clk baseline burst outcome db1 =
     (case outcome of (decision1, reason1, sigs, approvalId) \<Rightarrow>
        (let baselineSampleCount = (case baseline of None \<Rightarrow> 0 | Some b \<Rightarrow> bl_sampleCount b);
             anomalyFlagged = (length sigs > 0);
             uniqueSignals = uniqueList sigs;
             riskScore = computeRiskScore P uniqueSignals (eal_action inp) decision1
               \<lparr> rc_baselineAvgRiskScore =
                   Some (case baseline of None \<Rightarrow> 0 | Some b \<Rightarrow> bl_avgRiskScore b),
                 rc_baselineAvgPerMinute =
                   Some (case baseline of None \<Rightarrow> 0 | Some b \<Rightarrow> bl_avgPerMinute b),
                 rc_burstRate = Some (of_nat burst),
                 rc_isOffHours = Some (getUTCHours (clk_start clk) < 5
                                       \<or> getUTCHours (clk_start clk) > 20),
                 rc_isNewPattern = Some (baselineSampleCount < 3) \<rparr>
         in case appendAuditEvent P
                   \<lparr> in_workspaceId = eal_workspaceId inp,
                     in_agentId = Some (ag_id (eal_agent inp)),
                     in_tool = eal_tool inp,
                     in_action = eal_action inp,
                     in_resource = eal_resource inp,
                     in_decision = decision1,
                     in_reason = reason1,
                     in_metadata = Some (eventMetadata (eal_metadata inp) uniqueSignals
                                           riskScore approvalId baseline burst),
                     in_anomalyFlagged = Some anomalyFlagged,
                     in_createdAt = None \<rparr>
                   (clk_append clk) db1 of
              (Inl e, db2) \<Rightarrow> (Inl e, db2)
            | (Inr event, db2) \<Rightarrow>
                (let db3 = upsertBaseline P inp clk baseline riskScore burst db2;
                     db4 = runPlaybooksForEvent P
                             \<lparr> pi_workspaceId = eal_workspaceId inp,
                               pi_agentId = Some (ag_id (eal_agent inp)),
                               pi_eventId = ev_id event,
                               pi_decision = decision1,
                               pi_riskScore = riskScore,
                               pi_signals = uniqueSignals,
                               pi_tool = eal_tool inp,
                               pi_action = eal_action inp,
                               pi_resource = eal_resource inp,
                               pi_metadata = (case eal_metadata inp of
                                                None \<Rightarrow> JObj [] | Some m \<Rightarrow> m) \<rparr>
                             (clk_playbook clk) db3
                 in (Inr \<lparr> res_decision = decision1,
                           res_reason = reason1,
                           res_signals = uniqueSignals,
                           res_riskScore = riskScore,
                           res_approvalRequestId = approvalId,
                           res_event = event \<rparr>, db4))))"

text \<open>
  \<open>evaluateAndLogAction\<close>. An error leaves the state as the statements before it made
  it. The detached dispatch of the event to the workspace's integrations is not awaited
  and writes none of the tables; it is left out.
\<close>

definition evaluateAndLogAction ::
  "platform \<Rightarrow> EvaluateAndLogInput \<Rightarrow> Clock \<Rightarrow> state \<Rightarrow> (error + EvaluateAndLogResult) \<times> state" where
  "evaluateAndLogAction P inp clk db =
     (let burst = countRecent inp clk db;
          baseline = findBaseline inp db
      in case resolveDecision inp burst db of
           Inl e \<Rightarrow> (Inl e, db)
         | Inr (decision0, reason0, sigs0, rules) \<Rightarrow>
             (case approvalGate P inp clk rules
                     (decision0, reason0, baselineSignals inp clk baseline burst sigs0) db of
                (Inl e, db1) \<Rightarrow> (Inl e, db1)
              | (Inr outcome, db1) \<Rightarrow> logEvaluation P inp clk baseline burst outcome db1))"

section \<open>Concurrent evaluations\<close>

text \<open>
  \<open>evaluateAndLogAction\<close> awaits each of its database statements, and only the
  statements of \<open>appendAuditEvent\<close> run in a transaction. The lookup of the approval
  request (line 142) and the update that marks it consumed (line 159) are two such
  statements, so statements of other requests may run between them. An evaluation is
  therefore cut where it has awaited the lookup: \<open>beginEvaluation\<close> is lines 39 to 156,
  which only read, and keeps the local variables; \<open>resumeEvaluation\<close> is lines 158 to
  299, run on the state as it is by then.
\<close>

record Suspended =
  sp_input :: EvaluateAndLogInput
  sp_clock :: Clock
  sp_burst :: nat
  sp_baseline :: "AgentActionBaseline option"
  sp_rules :: PolicyRules
  sp_current :: "Decision \<times> string \<times> string list"
  sp_approvedRequest :: "string option"

definition beginEvaluation :: "EvaluateAndLogInput \<Rightarrow> Clock \<Rightarrow> state \<Rightarrow> error + Suspended" where
  "beginEvaluation inp clk db =
     (let burst = countRecent inp clk db;
          baseline = findBaseline inp db
      in case resolveDecision inp burst db of
           Inl e \<Rightarrow> Inl e
         | Inr (decision0, reason0, sigs0, rules) \<Rightarrow>
             Inr \<lparr> sp_input = inp, sp_clock = clk, sp_burst = burst, sp_baseline = baseline,
                   sp_rules = rules,
                   sp_current = (decision0, reason0, baselineSignals inp clk baseline burst sigs0),
                   sp_approvedRequest =
                     (if decision0 = ALLOW \<and> requiresHumanApproval (eal_action inp) rules
                      then findApproved inp clk db else None) \<rparr>)"

definition resumeEvaluation ::
  "platform \<Rightarrow> Suspended \<Rightarrow> state \<Rightarrow> (error + EvaluateAndLogResult) \<times> state" where
  "resumeEvaluation P s db =
     (case (case sp_current s of (decision0, reason0, sigs) \<Rightarrow>
              if decision0 = ALLOW \<and> requiresHumanApproval (eal_action (sp_input s)) (sp_rules s)
              then gateAfterLookup P (sp_input s) (sp_clock s) (sp_current s)
                     (sp_approvedRequest s) db
              else (Inr (decision0, reason0, sigs, None), db)) of
        (Inl e, db1) \<Rightarrow> (Inl e, db1)
      | (Inr outcome, db1) \<Rightarrow>
          logEvaluation P (sp_input s) (sp_clock s) (sp_baseline s) (sp_burst s) outcome db1)"

text \<open>
  A schedule is a list of turns. \<open>Start n inp clk\<close> lets request \<open>n\<close> enter and run up
  to its lookup; \<open>Resume n\<close> lets it run from there to its return. The statements of a
  turn run without interruption, so every run of a schedule is a run of the program;
  the program has further runs, which cut an evaluation at its other awaits as well.
\<close>

datatype turn = Start nat EvaluateAndLogInput Clock | Resume nat

record world =
  w_db :: state
  w_suspended :: "nat \<rightharpoonup> Suspended"
  w_returned :: "nat \<rightharpoonup> (error + EvaluateAndLogResult)"

fun takeTurn :: "platform \<Rightarrow> world \<Rightarrow> turn \<Rightarrow> world" where
  "takeTurn P w (Start n inp clk) =
     (case beginEvaluation inp clk (w_db w) of
        Inl e \<Rightarrow> w \<lparr> w_returned := (w_returned w)(n \<mapsto> Inl e) \<rparr>
      | Inr s \<Rightarrow> w \<lparr> w_suspended := (w_suspended w)(n \<mapsto> s) \<rparr>)"
| "takeTurn P w (Resume n) =
     (case w_suspended w n of
        None \<Rightarrow> w
      | Some s \<Rightarrow>
          (case resumeEvaluation P s (w_db w) of
             (out, db') \<Rightarrow>
               \<lparr> w_db = db',
                 w_suspended = (w_suspended w)(n := None),
                 w_returned = (w_returned w)(n \<mapsto> out) \<rparr>))"

definition schedule :: "platform \<Rightarrow> state \<Rightarrow> turn list \<Rightarrow> world" where
  "schedule P db turns =
     foldl (takeTurn P) \<lparr> w_db = db, w_suspended = Map.empty, w_returned = Map.empty \<rparr> turns"

section \<open>Approval resolution (POST /approvals/:id/approve and /reject, in src/unnamed/part_004)\<close>

text \<open>
  The outcome of \<open>assertWorkspacePermission\<close> is an input: no membership, a membership
  without the permission, or one with it. The result is the HTTP status and the state.
  The request body has passed JSON parsing; its \<open>note\<close> is absent or a string, and
  \<open>resolutionSchema\<close> refuses a note of more than 500 characters before the request
  is read from the database.
\<close>

datatype WorkspaceAccess = NoAccess | NotAuthorized | Authorized

definition resolveApproval ::
  "ApprovalStatus \<Rightarrow> string \<Rightarrow> string \<Rightarrow> WorkspaceAccess \<Rightarrow> string option \<Rightarrow> int \<Rightarrow> state \<Rightarrow> nat \<times> state" where
  "resolveApproval outcome approvalId userId access note now db =
     (if (case note of None \<Rightarrow> False | Some n \<Rightarrow> length n > 500) then (400, db)
      else
        (case actionApprovalRequest db approvalId of
           None \<Rightarrow> (404, db)
         | Some approval \<Rightarrow>
             if access \<noteq> Authorized then (403, db)
             else if ar_status approval \<noteq> PENDING then (400, db)
             else (200,
                   db \<lparr> actionApprovalRequest := (actionApprovalRequest db)
                          (approvalId \<mapsto> approval \<lparr> ar_status := outcome,
                                                     ar_resolvedByUserId := Some userId,
                                                     ar_resolvedAt := Some now,
                                                     ar_resolutionNote := note \<rparr>) \<rparr>)))"

definition approveRoute ::
  "string \<Rightarrow> string \<Rightarrow> WorkspaceAccess \<Rightarrow> string option \<Rightarrow> int \<Rightarrow> state \<Rightarrow> nat \<times> state" where
  "approveRoute = resolveApproval APPROVED"

definition rejectRoute ::
  "string \<Rightarrow> string \<Rightarrow> WorkspaceAccess \<Rightarrow> string option \<Rightarrow> int \<Rightarrow> state \<Rightarrow> nat \<times> state" where
  "rejectRoute = resolveApproval REJECTED"

section \<open>Sequences of operations\<close>

text \<open>
  The operations that write approval requests are an evaluation and the two resolution
  routes; \<open>Other\<close> stands for any other operation of the system, which may change every
  table but that of the approval requests.
\<close>

datatype operation =
    Evaluate EvaluateAndLogInput Clock
  | Approve string string WorkspaceAccess "string option" int
  | Reject string string WorkspaceAccess "string option" int
  | Other "state \<Rightarrow> state"

fun step :: "platform \<Rightarrow> state \<Rightarrow> operation \<Rightarrow> state" where
  "step P db (Evaluate inp clk) = snd (evaluateAndLogAction P inp clk db)"
| "step P db (Approve approvalId userId access note now) =
     snd (approveRoute approvalId userId access note now db)"
| "step P db (Reject approvalId userId access note now) =
     snd (rejectRoute approvalId userId access note now db)"
| "step P db (Other f) = (f db) \<lparr> actionApprovalRequest := actionApprovalRequest db \<rparr>"

definition run :: "platform \<Rightarrow> state \<Rightarrow> operation list \<Rightarrow> state" where
  "run P db ops = foldl (step P) db ops"

section \<open>Notions used to state the properties\<close>

text \<open>The properties of an object other than those under the key \<^verbatim>\<open>__proto__\<close>.\<close>

definition notProto :: "string \<times> json \<Rightarrow> bool" where
  "notProto kv = (fst kv \<noteq> ''__proto__'')"

text \<open>The hash an append to workspace \<open>w\<close> chains from.\<close>

definition chainTail :: "state \<Rightarrow> string \<Rightarrow> string" where
  "chainTail db w = (case auditChainState db w of None \<Rightarrow> ''GENESIS'' | Some st \<Rightarrow> cs_lastHash st)"

text \<open>Each event's \<open>prevHash\<close> is the hash of the event before it; the first one's is \<open>h\<close>.\<close>

fun linked :: "string \<Rightarrow> AuditLogEvent list \<Rightarrow> bool" where
  "linked h [] = True"
| "linked h (e # es) = (ev_prevHash e = h \<and> linked (ev_hash e) es)"

text \<open>The hash recomputed from an event's own stored fields.\<close>

definition expectedHash :: "platform \<Rightarrow> AuditLogEvent \<Rightarrow> string" where
  "expectedHash P e =
     computeEventHash P (ev_prevHash e) (createEventHashPayload P (storedInput e) (ev_createdAt e))"

text \<open>
  Two values are the same logical value when they differ at most in the order in which
  objects list their keys; arrays keep their order.
\<close>

inductive sameJson :: "json \<Rightarrow> json \<Rightarrow> bool" where
  same: "sameJson v v"
| arr: "list_all2 sameJson xs ys \<Longrightarrow> sameJson (JArr xs) (JArr ys)"
| obj: "distinct (map fst ps) \<Longrightarrow> distinct (map fst qs) \<Longrightarrow> set (map fst ps) = set (map fst qs)
        \<Longrightarrow> (\<forall>k v. map_of ps k = Some v \<longrightarrow> (\<exists>v'. map_of qs k = Some v' \<and> sameJson v v'))
        \<Longrightarrow> sameJson (JObj ps) (JObj qs)"

text \<open>
  A stand-in platform on which the definitions can be run; its arithmetic is exact, as
  that of doubles is on the numbers of the examples below. The theorems below hold for
  every platform.
\<close>

fun demoStringify :: "json \<Rightarrow> string" where
  "demoStringify JNull = ''null''"
| "demoStringify (JBool b) = (if b then ''true'' else ''false'')"
| "demoStringify (JNum r) = ''num''"
| "demoStringify (JStr s) = ''<'' @ s @ ''>''"
| "demoStringify (JArr vs) = ''['' @ concat (map (\<lambda>v. demoStringify v @ '','') vs) @ '']''"
| "demoStringify (JObj ps) =
     ''{'' @ concat (map (\<lambda>(k, v). k @ '':'' @ demoStringify v @ '','') ps) @ ''}''"

definition demoPlatform :: platform where
  "demoPlatform =
     \<lparr> sha256hex = (\<lambda>s. ''sha('' @ s @ '')''),
       JSON_stringify = demoStringify,
       toISOString = (\<lambda>t. ''T''),
       uuid = (\<lambda>n. replicate (Suc n) CHR ''u''),
       toNumber = (\<lambda>v. case v of JNum r \<Rightarrow> Some r | _ \<Rightarrow> None),
       fetch = (\<lambda>c. None),
       toDouble = (\<lambda>x. x),
       toFixed2 = (\<lambda>x. of_int \<lfloor>x * 100 + 1 / 2\<rfloor> / 100) \<rparr>"

text \<open>The state with every table empty.\<close>

definition emptyState :: state where
  "emptyState =
     \<lparr> auditLogEvent = [], auditChainState = Map.empty, agentActionBaseline = Map.empty,
       policy = [], actionApprovalRequest = Map.empty, workspacePlaybook = [],
       playbookExecution = [], agent = Map.empty, agentApiKey = [], idSeq = 0,
       fetchLog = [] \<rparr>"

text \<open>Sample audit inputs and stored events for running the definitions.\<close>

definition demoInput :: "string \<Rightarrow> string \<Rightarrow> Decision \<Rightarrow> AuditEventInput" where
  "demoInput t a d =
     \<lparr> in_workspaceId = ''w1'', in_agentId = Some ''a1'', in_tool = t, in_action = a,
       in_resource = None, in_decision = d, in_reason = ''ok'', in_metadata = None,
       in_anomalyFlagged = None, in_createdAt = None \<rparr>"

text \<open>The hash the event at position \<open>i\<close> must chain from when the slice starts from \<open>h\<close>.\<close>

definition expectedPrev :: "string \<Rightarrow> AuditLogEvent list \<Rightarrow> nat \<Rightarrow> string" where
  "expectedPrev h es i = (if i = 0 then h else ev_hash (es ! (i - 1)))"

text \<open>
  The verdict of the replay for position \<open>i\<close>: the first event of a slice is compared
  with \<open>previousHash\<close> when there is one, every later event with the stored hash of the
  event before it.
\<close>

definition verdictAt :: "string option \<Rightarrow> AuditLogEvent list \<Rightarrow> nat \<Rightarrow> ChainIntegrity" where
  "verdictAt previousHash es i =
     (if i = 0 then (case previousHash of None \<Rightarrow> OK
                     | Some h \<Rightarrow> if ev_prevHash (es ! 0) = h then OK else BROKEN)
      else if ev_prevHash (es ! i) = ev_hash (es ! (i - 1)) then OK else BROKEN)"

definition breaks :: "TimelineEntry list \<Rightarrow> nat" where
  "breaks timeline = length (filter (\<lambda>t. tl_chainIntegrity t = BROKEN) timeline)"

definition demoEvent :: "string \<Rightarrow> string \<Rightarrow> string \<Rightarrow> AuditLogEvent" where
  "demoEvent i p h =
     \<lparr> ev_id = i, ev_workspaceId = ''w1'', ev_agentId = Some ''a1'', ev_tool = ''kb'',
       ev_action = ''read'', ev_resource = None, ev_decision = ALLOW, ev_reason = ''ok'',
       ev_metadata = JObj [], ev_anomalyFlagged = False, ev_prevHash = p, ev_hash = h,
       ev_createdAt = 1000 \<rparr>"

text \<open>The playbook is a webhook notification whose configuration holds no usable URL.\<close>

definition urlMissing :: "WorkspacePlaybook \<Rightarrow> bool" where
  "urlMissing playbook =
     (pb_actionType playbook = ''NOTIFY_WEBHOOK''
      \<and> (case configString (pb_actionConfig playbook) ''url'' of None \<Rightarrow> True | Some s \<Rightarrow> s = []))"

text \<open>The playbook makes an HTTP call for this event.\<close>

definition callsWebhook :: "PlaybookInput \<Rightarrow> WorkspacePlaybook \<Rightarrow> bool" where
  "callsWebhook inp playbook =
     (triggerMatches inp playbook \<and> pb_actionType playbook = ''NOTIFY_WEBHOOK''
      \<and> \<not> urlMissing playbook)"

text \<open>A sample playbook and a sample event for running the playbook loop.\<close>

definition demoPlaybook :: "string \<Rightarrow> json \<Rightarrow> WorkspacePlaybook" where
  "demoPlaybook t c =
     \<lparr> pb_id = ''p1'', pb_workspaceId = ''w1'', pb_name = ''notify'', pb_enabled = True,
       pb_triggerDecision = None, pb_minRiskScore = 0, pb_matchSignals = JArr [],
       pb_actionType = t, pb_actionConfig = c, pb_createdAt = 5 \<rparr>"

definition demoPlaybookInput :: PlaybookInput where
  "demoPlaybookInput =
     \<lparr> pi_workspaceId = ''w1'', pi_agentId = Some ''a1'', pi_eventId = ''e1'',
       pi_decision = BLOCK, pi_riskScore = 60, pi_signals = [''high_risk_action''],
       pi_tool = ''db'', pi_action = ''delete'', pi_resource = None, pi_metadata = JObj [] \<rparr>"

text \<open>The condition under which the evaluation adds \<open>behavior_drift\<close>.\<close>

definition driftCondition :: "EvaluateAndLogInput \<Rightarrow> Clock \<Rightarrow> state \<Rightarrow> bool" where
  "driftCondition inp clk db =
     (case findBaseline inp db of
        None \<Rightarrow> False
      | Some b \<Rightarrow> bl_sampleCount b \<ge> 5 \<and> bl_avgPerMinute b > 0
                  \<and> of_nat (countRecent inp clk db) / max 1 (bl_avgPerMinute b) \<ge> 2)"

text \<open>The condition as the specification words it, with no test that the average is positive.\<close>

definition driftConditionSpec :: "EvaluateAndLogInput \<Rightarrow> Clock \<Rightarrow> state \<Rightarrow> bool" where
  "driftConditionSpec inp clk db =
     (case findBaseline inp db of
        None \<Rightarrow> False
      | Some b \<Rightarrow> bl_sampleCount b \<ge> 5
                  \<and> of_nat (countRecent inp clk db) / max 1 (bl_avgPerMinute b) \<ge> 2)"

text \<open>Sample calls, clocks and states for running an evaluation.\<close>

definition demoStoredEvent :: "string \<Rightarrow> int \<Rightarrow> AuditLogEvent" where
  "demoStoredEvent i t = (demoEvent i ''p'' ''h'') \<lparr> ev_createdAt := t \<rparr>"

definition demoCall :: "string \<Rightarrow> string option \<Rightarrow> EvaluateAndLogInput" where
  "demoCall a rid =
     \<lparr> eal_workspaceId = ''w1'',
       eal_agent = \<lparr> ag_id = ''a1'', ag_status = ACTIVE, ag_activePolicyId = None \<rparr>,
       eal_tool = ''kb'', eal_action = a, eal_resource = None, eal_metadata = None,
       eal_forceBlockReason = None, eal_approvalRequestId = rid, eal_requestedBy = None \<rparr>"

definition demoClock :: "int \<Rightarrow> Clock" where
  "demoClock t =
     \<lparr> clk_start = t, clk_approvalLookup = t + 1, clk_approvalConsume = t + 2,
       clk_approvalCreate = t + 3, clk_append = t + 4, clk_playbook = t + 5 \<rparr>"

definition demoBaselineState :: "rat \<Rightarrow> state" where
  "demoBaselineState avg =
     emptyState
       \<lparr> auditLogEvent := [demoStoredEvent ''e1'' 99000, demoStoredEvent ''e2'' 99500],
         agentActionBaseline := [(''a1'', ''kb'', ''read'') \<mapsto>
            \<lparr> bl_workspaceId = ''w1'', bl_avgRiskScore = 5, bl_avgPerMinute = avg,
              bl_sampleCount = 5, bl_lastSeenAt = Some 1 \<rparr>] \<rparr>"

text \<open>Every approval request of \<open>db\<close> is still there, unchanged, in \<open>db'\<close>.\<close>

definition keepsRows :: "state \<Rightarrow> state \<Rightarrow> bool" where
  "keepsRows db db' =
     (\<forall>rid r. actionApprovalRequest db rid = Some r \<longrightarrow> actionApprovalRequest db' rid = Some r)"

text \<open>The approval request \<open>rid\<close> exists and is marked consumed.\<close>

definition consumed :: "state \<Rightarrow> string \<Rightarrow> bool" where
  "consumed db rid =
     (case actionApprovalRequest db rid of None \<Rightarrow> False | Some r \<Rightarrow> ar_consumedAt r \<noteq> None)"

text \<open>The evaluation reaches the approval gate: the decision so far is ALLOW and the action requires approval.\<close>

definition gateReached :: "EvaluateAndLogInput \<Rightarrow> Clock \<Rightarrow> state \<Rightarrow> bool" where
  "gateReached inp clk db =
     (case resolveDecision inp (countRecent inp clk db) db of
        Inl e \<Rightarrow> False
      | Inr (decision0, reason0, sigs0, rules) \<Rightarrow>
          decision0 = ALLOW \<and> requiresHumanApproval (eal_action inp) rules)"

text \<open>A sample approval request of agent \<open>a1\<close> in workspace \<open>w1\<close>, stored under the id \<open>r1\<close>.\<close>

definition demoApproval :: "ApprovalStatus \<Rightarrow> int \<Rightarrow> ActionApprovalRequest" where
  "demoApproval st expires =
     \<lparr> ar_workspaceId = ''w1'', ar_agentId = ''a1'', ar_tool = ''kb'', ar_action = ''delete'',
       ar_resource = None, ar_metadata = JObj [], ar_status = st, ar_riskScore = None,
       ar_requestedBy = ''SYSTEM'', ar_expiresAt = expires, ar_resolvedByUserId = Some ''u1'',
       ar_resolvedAt = Some 50000, ar_resolutionNote = None, ar_consumedAt = None \<rparr>"

definition demoApprovalState :: "int \<Rightarrow> state" where
  "demoApprovalState expires =
     emptyState \<lparr> actionApprovalRequest := [''r1'' \<mapsto> demoApproval APPROVED expires] \<rparr>"

text \<open>
  The clock of an evaluation that enters at \<open>t\<close>, does its lookup one millisecond later
  and resumes \<open>wait\<close> milliseconds after the lookup.
\<close>

definition demoClockWaiting :: "int \<Rightarrow> int \<Rightarrow> Clock" where
  "demoClockWaiting t wait =
     \<lparr> clk_start = t, clk_approvalLookup = t + 1, clk_approvalConsume = t + 1 + wait,
       clk_approvalCreate = t + 1 + wait, clk_append = t + 2 + wait,
       clk_playbook = t + 3 + wait \<rparr>"

text \<open>The rule set and the context of a unit test of the policy engine.\<close>

definition testRules :: "PolicyMode \<Rightarrow> string list \<Rightarrow> string list \<Rightarrow> string list \<Rightarrow> RawRules" where
  "testRules m allowActions denyActions allowTools =
     \<lparr> raw_mode = Some m, raw_allow_actions = Some allowActions,
       raw_deny_actions = Some denyActions, raw_allow_tools = Some allowTools,
       raw_deny_tools = Some [], raw_require_approval_actions = None \<rparr>"

definition testContext :: "string \<Rightarrow> string \<Rightarrow> PolicyEvaluationContext" where
  "testContext t a =
     \<lparr> ctx_tool = t, ctx_action = a, ctx_resource = None, ctx_metadata = None,
       ctx_burstRate = None \<rparr>"

definition noContext :: RiskScoreContext where
  "noContext =
     \<lparr> rc_baselineAvgRiskScore = None, rc_baselineAvgPerMinute = None, rc_burstRate = None,
       rc_isOffHours = None, rc_isNewPattern = None \<rparr>"

section \<open>Properties of the policy engine\<close>

text \<open>
  C1 (deny precedence). For every rule set that the rules schema accepts and every
  request context: when the request's action is listed in \<open>deny_actions\<close>, the policy
  evaluation returns, and its decision is BLOCK with reason \<open>action_denied_by_policy\<close>,
  whatever the mode and whatever \<open>allow_actions\<close> holds.
\<close>

theorem deny_precedence:
  assumes "normalizePolicyRules raw None = Inr rules"
    and "ctx_action ctx \<in> set (deny_actions rules)"
  shows "\<exists>r. evaluatePolicy raw ctx = Inr r \<and> decision r = BLOCK
            \<and> reason r = ''action_denied_by_policy''"
  using assms by (simp add: evaluatePolicy_def Let_def)

theorem deny_precedence_witness:
  "(let raw = \<lparr> raw_mode = Some STRICT, raw_allow_actions = Some [''delete''],
                raw_deny_actions = Some [''delete''], raw_allow_tools = Some [''crm''],
                raw_deny_tools = Some [], raw_require_approval_actions = None \<rparr>;
        ctx = \<lparr> ctx_tool = ''crm'', ctx_action = ''delete'', ctx_resource = None,
                ctx_metadata = None, ctx_burstRate = None \<rparr>
    in (\<exists>rules. normalizePolicyRules raw None = Inr rules
           \<and> ctx_action ctx \<in> set (deny_actions rules))
       \<and> (\<exists>r. evaluatePolicy raw ctx = Inr r \<and> decision r = BLOCK
             \<and> reason r = ''action_denied_by_policy''))"
proof -
  let ?raw = "\<lparr> raw_mode = Some STRICT, raw_allow_actions = Some [''delete''],
                raw_deny_actions = Some [''delete''], raw_allow_tools = Some [''crm''],
                raw_deny_tools = Some [], raw_require_approval_actions = None \<rparr>"
  let ?ctx = "\<lparr> ctx_tool = ''crm'', ctx_action = ''delete'', ctx_resource = None,
                ctx_metadata = None, ctx_burstRate = None \<rparr>"
  let ?rules = "\<lparr> mode = STRICT, allow_actions = [''delete''], deny_actions = [''delete''],
                  allow_tools = [''crm''], deny_tools = [],
                  require_approval_actions = Some [] \<rparr>"
  have n: "normalizePolicyRules ?raw None = Inr ?rules"
    by (simp add: normalizePolicyRules_def rulesSchema_parse_def parseStringArray_def)
  have m: "ctx_action ?ctx \<in> set (deny_actions ?rules)"
    by simp
  from deny_precedence [OF n m] n m show ?thesis
    unfolding Let_def by blast
qed

text \<open>
  C10 (case asymmetry). For every accepted rule set and request: the
  \<open>high_risk_action\<close> signal and the human-approval requirement test the lower-cased
  action against the high-risk vocabulary, while the deny and allow lists are matched on
  the exact strings. Hence a request whose action is not literally in \<open>deny_actions\<close>
  (although its lower-case form may be, as for \<open>DELETE\<close> against \<open>delete\<close>) is not
  blocked by the deny rule, yet carries \<open>high_risk_action\<close> and requires approval.
\<close>

theorem action_case_asymmetry:
  assumes "normalizePolicyRules raw None = Inr rules"
    and "evaluatePolicy raw ctx = Inr r"
  shows "((''high_risk_action'' \<in> set (signals r))
            = (toLowerCase (ctx_action ctx) \<in> HIGH_RISK_ACTIONS))
       \<and> (requiresHumanApproval (ctx_action ctx) rules
            = (toLowerCase (ctx_action ctx) \<in> HIGH_RISK_ACTIONS
               \<or> ctx_action ctx \<in> set (case require_approval_actions rules of
                                           None \<Rightarrow> [] | Some xs \<Rightarrow> xs)))
       \<and> ((reason r = ''action_denied_by_policy'')
            = (ctx_action ctx \<in> set (deny_actions rules)))
       \<and> ((decision r = BLOCK)
            = (ctx_action ctx \<in> set (deny_actions rules)
               \<or> ctx_tool ctx \<in> set (deny_tools rules)
               \<or> (mode rules = STRICT
                   \<and> ((allow_actions rules \<noteq> [] \<and> ctx_action ctx \<notin> set (allow_actions rules))
                      \<or> (allow_tools rules \<noteq> [] \<and> ctx_tool ctx \<notin> set (allow_tools rules))))))
       \<and> (toLowerCase (ctx_action ctx) \<in> HIGH_RISK_ACTIONS
            \<and> ctx_action ctx \<notin> set (deny_actions rules)
            \<and> ctx_tool ctx \<notin> set (deny_tools rules)
            \<and> mode rules = BALANCED
          \<longrightarrow> decision r = ALLOW \<and> ''high_risk_action'' \<in> set (signals r)
              \<and> requiresHumanApproval (ctx_action ctx) rules)"
proof -
  have hr: "(''high_risk_action'' \<in> set (detectSignals rules ctx))
              = (toLowerCase (ctx_action ctx) \<in> HIGH_RISK_ACTIONS)"
    by (auto simp: detectSignals_def setAdd_def Let_def split: option.splits)
  have sg: "signals r = detectSignals rules ctx"
    using assms by (auto simp: evaluatePolicy_def Let_def split: if_splits)
  have rq: "requiresHumanApproval (ctx_action ctx) rules
            = (toLowerCase (ctx_action ctx) \<in> HIGH_RISK_ACTIONS
               \<or> ctx_action ctx \<in> set (case require_approval_actions rules of
                                           None \<Rightarrow> [] | Some xs \<Rightarrow> xs))"
    by (simp add: requiresHumanApproval_def)
  have rs: "(reason r = ''action_denied_by_policy'')
            = (ctx_action ctx \<in> set (deny_actions rules))"
    using assms by (auto simp: evaluatePolicy_def Let_def split: if_splits)
  have dc: "(decision r = BLOCK)
            = (ctx_action ctx \<in> set (deny_actions rules)
               \<or> ctx_tool ctx \<in> set (deny_tools rules)
               \<or> (mode rules = STRICT
                   \<and> ((allow_actions rules \<noteq> [] \<and> ctx_action ctx \<notin> set (allow_actions rules))
                      \<or> (allow_tools rules \<noteq> [] \<and> ctx_tool ctx \<notin> set (allow_tools rules)))))"
    using assms by (auto simp: evaluatePolicy_def Let_def split: if_splits)
  have al: "toLowerCase (ctx_action ctx) \<in> HIGH_RISK_ACTIONS
            \<and> ctx_action ctx \<notin> set (deny_actions rules)
            \<and> ctx_tool ctx \<notin> set (deny_tools rules)
            \<and> mode rules = BALANCED
          \<longrightarrow> decision r = ALLOW \<and> ''high_risk_action'' \<in> set (signals r)
              \<and> requiresHumanApproval (ctx_action ctx) rules"
    using dc hr sg rq by (cases "decision r") auto
  from hr sg rq rs dc al show ?thesis by simp
qed

theorem action_case_asymmetry_witness:
  "(let raw = \<lparr> raw_mode = Some BALANCED, raw_allow_actions = None,
                raw_deny_actions = Some [''delete''], raw_allow_tools = None,
                raw_deny_tools = None, raw_require_approval_actions = None \<rparr>;
        rules = \<lparr> mode = BALANCED, allow_actions = [], deny_actions = [''delete''],
                  allow_tools = [], deny_tools = [], require_approval_actions = Some [] \<rparr>;
        ctx = \<lparr> ctx_tool = ''crm'', ctx_action = ''DELETE'', ctx_resource = None,
                ctx_metadata = None, ctx_burstRate = None \<rparr>;
        r = \<lparr> decision = ALLOW, reason = ''allowed_by_policy_engine'',
              signals = [''high_risk_action''] \<rparr>
    in normalizePolicyRules raw None = Inr rules
       \<and> evaluatePolicy raw ctx = Inr r
       \<and> toLowerCase (ctx_action ctx) \<in> set (deny_actions rules)
       \<and> ctx_action ctx \<notin> set (deny_actions rules)
       \<and> decision r = ALLOW
       \<and> ''high_risk_action'' \<in> set (signals r)
       \<and> requiresHumanApproval (ctx_action ctx) rules)"
proof -
  let ?raw = "\<lparr> raw_mode = Some BALANCED, raw_allow_actions = None,
                raw_deny_actions = Some [''delete''], raw_allow_tools = None,
                raw_deny_tools = None, raw_require_approval_actions = None \<rparr>"
  let ?rules = "\<lparr> mode = BALANCED, allow_actions = [], deny_actions = [''delete''],
                  allow_tools = [], deny_tools = [], require_approval_actions = Some [] \<rparr>"
  let ?ctx = "\<lparr> ctx_tool = ''crm'', ctx_action = ''DELETE'', ctx_resource = None,
                ctx_metadata = None, ctx_burstRate = None \<rparr>"
  let ?r = "\<lparr> decision = ALLOW, reason = ''allowed_by_policy_engine'',
              signals = [''high_risk_action''] \<rparr>"
  have n: "normalizePolicyRules ?raw None = Inr ?rules"
    by (simp add: normalizePolicyRules_def rulesSchema_parse_def parseStringArray_def)
  have e: "evaluatePolicy ?raw ?ctx = Inr ?r"
    by (simp add: evaluatePolicy_def n detectSignals_def setAdd_def toLowerCase_def
                  lowerChar_def HIGH_RISK_ACTIONS_def)
  have l: "toLowerCase (ctx_action ?ctx) \<in> set (deny_actions ?rules)"
    by (simp add: toLowerCase_def lowerChar_def)
  have h: "toLowerCase (ctx_action ?ctx) \<in> HIGH_RISK_ACTIONS"
    by (simp add: toLowerCase_def lowerChar_def HIGH_RISK_ACTIONS_def)
  from action_case_asymmetry [OF n e] n e l h show ?thesis
    unfolding Let_def by simp
qed

section \<open>Properties of the risk score\<close>

lemma signalPoints_mono:
  assumes "set a \<subseteq> set b"
  shows "signalPoints a \<le> signalPoints b"
  unfolding signalPoints_def using assms
  by (intro add_mono) auto

lemma computeRiskScore_mono:
  assumes "set a \<subseteq> set b"
  shows "computeRiskScore P a act d c \<le> computeRiskScore P b act d c"
  using signalPoints_mono [OF assms]
  by (simp add: computeRiskScore_def Let_def)

text \<open>
  C6 (risk monotonicity and range). For every signal list, action, decision and context,
  and whatever the rounding of the platform's arithmetic, adding a signal \<open>s\<close> (any string, recognized or not) to the signals does not lower the
  score, and the score lies between 0 and 100.
\<close>

theorem risk_monotone_and_bounded:
  "computeRiskScore P sigs act d c \<le> computeRiskScore P (setAdd sigs s) act d c
   \<and> computeRiskScore P sigs act d c \<le> computeRiskScore P (sigs @ [s]) act d c
   \<and> 0 \<le> computeRiskScore P sigs act d c
   \<and> computeRiskScore P sigs act d c \<le> 100"
proof -
  have "set sigs \<subseteq> set (setAdd sigs s)"
    by (auto simp: setAdd_def)
  then have a: "computeRiskScore P sigs act d c \<le> computeRiskScore P (setAdd sigs s) act d c"
    by (rule computeRiskScore_mono)
  have "set sigs \<subseteq> set (sigs @ [s])"
    by auto
  then have b: "computeRiskScore P sigs act d c \<le> computeRiskScore P (sigs @ [s]) act d c"
    by (rule computeRiskScore_mono)
  have c: "0 \<le> computeRiskScore P sigs act d c \<and> computeRiskScore P sigs act d c \<le> 100"
    by (simp add: computeRiskScore_def Let_def)
  from a b c show ?thesis by simp
qed

section \<open>Properties of the hash chain\<close>

lemma foldl_skip:
  assumes "\<And>acc. f acc p = acc"
  shows "foldl f a (filter (\<lambda>k. k \<noteq> p) xs) = foldl f a xs"
  using assms by (induction xs arbitrary: a) auto

lemma getOwn_filter_notProto:
  assumes "k \<noteq> ''__proto__''"
  shows "getOwn (filter notProto ps) k = getOwn ps k"
  using assms by (induction ps) (auto simp: getOwn_def notProto_def)

lemma map_filter_notProto:
  "map (map_prod id f) (filter notProto ps) = filter notProto (map (map_prod id f) ps)"
  by (induction ps) (auto simp: notProto_def)

lemma keys_filter_notProto:
  "map fst (filter notProto ps) = filter (\<lambda>k. k \<noteq> ''__proto__'') (map fst ps)"
  by (induction ps) (auto simp: notProto_def)

lemma reducer_proto: "reducer obj acc ''__proto__'' = acc"
  by (simp add: reducer_def assignProp_def split: option.splits)

lemma foldl_reducer_cong:
  assumes "\<And>k. k \<in> set ks \<Longrightarrow> getOwn obj k = getOwn obj' k"
  shows "foldl (reducer obj) acc ks = foldl (reducer obj') acc ks"
  using assms by (induction ks arbitrary: acc) (auto simp: reducer_def)

lemma sortObject_ignores_proto:
  "sortObject (JObj (filter notProto ps)) = sortObject (JObj ps)"
proof -
  let ?obj = "map (map_prod id sortObject) ps"
  let ?ks = "sort (map fst ps)"
  have "foldl (reducer (filter notProto ?obj)) [] (filter (\<lambda>k. k \<noteq> ''__proto__'') ?ks)
        = foldl (reducer ?obj) [] (filter (\<lambda>k. k \<noteq> ''__proto__'') ?ks)"
    by (rule foldl_reducer_cong) (simp add: getOwn_filter_notProto)
  also have "\<dots> = foldl (reducer ?obj) [] ?ks"
    by (rule foldl_skip) (rule reducer_proto)
  finally show ?thesis
    by (simp only: sortObject.simps map_filter_notProto keys_filter_notProto filter_sort)
qed

lemma sortObject_nullable: "sortObject (nullable x) = nullable x"
  by (cases x) (simp_all add: nullable_def)

lemma sorted_payload_keys:
  "sort [''workspace_id'', ''agent_id'', ''tool'', ''action'', ''resource'', ''decision'',
         ''reason'', ''metadata'', ''anomaly_flagged'', ''created_at'']
   = [''action'', ''agent_id'', ''anomaly_flagged'', ''created_at'', ''decision'',
      ''metadata'', ''reason'', ''resource'', ''tool'', ''workspace_id'']"
  by (simp add: less_eq_char_def less_char_def)

lemma isArrayIndex_letter:
  assumes "\<not> isDigit c"
  shows "\<not> isArrayIndex (c # s)"
  using assms by (simp add: isArrayIndex_def)

lemma sortObject_payload:
  "sortObject (createEventHashPayload P event createdAt) =
     JObj [ (''action'', JStr (in_action event)),
            (''agent_id'', nullable (in_agentId event)),
            (''anomaly_flagged'', JBool (in_anomalyFlagged event = Some True)),
            (''created_at'', JStr (toISOString P createdAt)),
            (''decision'', JStr (decisionString (in_decision event))),
            (''metadata'', sortObject (case in_metadata event of None \<Rightarrow> JObj [] | Some m \<Rightarrow> m)),
            (''reason'', JStr (in_reason event)),
            (''resource'', nullable (in_resource event)),
            (''tool'', JStr (in_tool event)),
            (''workspace_id'', JStr (in_workspaceId event)) ]"
  by (simp add: createEventHashPayload_def sorted_payload_keys reducer_def getOwn_def assignProp_def
                defineOwn_def sortObject_nullable isArrayIndex_letter isDigit_def)

lemma verifyFrom_step:
  "verifyFrom P h (e # es) = (ev_prevHash e = h \<and> ev_hash e = expectedHash P e \<and> verifyFrom P (ev_hash e) es)"
  by (auto simp: expectedHash_def Let_def)

lemma verifyFrom_append:
  "verifyFrom P h (es1 @ es2) =
     (verifyFrom P h es1 \<and> verifyFrom P (if es1 = [] then h else ev_hash (last es1)) es2)"
  by (induction es1 arbitrary: h) (auto simp: verifyFrom_step simp del: verifyFrom.simps(2))

lemma verifyFrom_linked: "verifyFrom P h es \<Longrightarrow> linked h es"
  by (induction es arbitrary: h) (auto simp: verifyFrom_step simp del: verifyFrom.simps(2))

lemma appendAuditEvent_created:
  assumes "appendAuditEvent P event now db = (Inr e, db')"
  shows "ev_prevHash e = chainTail db (in_workspaceId event)"
    and "ev_hash e = expectedHash P e"
    and "chainTail db' (in_workspaceId event) = ev_hash e"
    and "ev_workspaceId e = in_workspaceId event"
proof -
  from assms have e: "e = \<lparr> ev_id = uuid P (idSeq db),
                    ev_workspaceId = in_workspaceId event,
                    ev_agentId = in_agentId event,
                    ev_tool = in_tool event,
                    ev_action = in_action event,
                    ev_resource = in_resource event,
                    ev_decision = in_decision event,
                    ev_reason = in_reason event,
                    ev_metadata = (case in_metadata event of None \<Rightarrow> JObj [] | Some m \<Rightarrow> m),
                    ev_anomalyFlagged = (in_anomalyFlagged event = Some True),
                    ev_prevHash = chainTail db (in_workspaceId event),
                    ev_hash = computeEventHash P (chainTail db (in_workspaceId event))
                       (createEventHashPayload P event
                          (case in_createdAt event of None \<Rightarrow> now | Some d \<Rightarrow> d)),
                    ev_createdAt = (case in_createdAt event of None \<Rightarrow> now | Some d \<Rightarrow> d) \<rparr>"
    and d: "chainTail db' (in_workspaceId event) = ev_hash e"
    by (auto simp: appendAuditEvent_def Let_def chainTail_def split: if_splits)
  show "ev_prevHash e = chainTail db (in_workspaceId event)" by (simp add: e)
  show "ev_workspaceId e = in_workspaceId event" by (simp add: e)
  show "chainTail db' (in_workspaceId event) = ev_hash e" by (rule d)
  have "createEventHashPayload P (storedInput e) (ev_createdAt e)
        = createEventHashPayload P event (case in_createdAt event of None \<Rightarrow> now | Some d \<Rightarrow> d)"
    by (simp add: e storedInput_def createEventHashPayload_def)
  then show "ev_hash e = expectedHash P e"
    by (simp add: expectedHash_def) (simp add: e)
qed

lemma appendAll_chain:
  assumes "appendAll P xs db = (Inr es, db')"
    and "\<forall>x\<in>set xs. in_workspaceId (fst x) = w"
  shows "verifyFrom P (chainTail db w) es \<and> length es = length xs"
  using assms
proof (induction xs arbitrary: db es)
  case Nil
  then show ?case by simp
next
  case (Cons x xs)
  obtain event now where x: "x = (event, now)" by (cases x)
  from Cons.prems(1) x obtain e db1 rest where
    a: "appendAuditEvent P event now db = (Inr e, db1)"
    and r: "appendAll P xs db1 = (Inr rest, db')"
    and es: "es = e # rest"
    by (auto split: prod.splits sum.splits)
  from Cons.prems(2) x have w: "in_workspaceId event = w" by simp
  from Cons.IH [OF r] Cons.prems(2)
  have ih: "verifyFrom P (chainTail db1 w) rest \<and> length rest = length xs" by simp
  from appendAuditEvent_created [OF a] w ih es show ?case
    by (simp add: verifyFrom_step del: verifyFrom.simps(2))
qed

lemma sequential_appends_verify:
  assumes "appendAll P xs db = (Inr es, db')"
    and "\<forall>x\<in>set xs. in_workspaceId (fst x) = w"
    and "auditChainState db w = None"
  shows "verifyHashChain P es \<and> linked ''GENESIS'' es"
proof -
  from assms(3) have "chainTail db w = ''GENESIS''" by (simp add: chainTail_def)
  with appendAll_chain [OF assms(1,2)] have "verifyFrom P ''GENESIS'' es" by simp
  then show ?thesis by (simp add: verifyHashChain_def verifyFrom_linked)
qed

lemma expectedHash_metadata:
  assumes "sortObject m' = sortObject (ev_metadata e)"
  shows "expectedHash P (e \<lparr> ev_metadata := m' \<rparr>) = expectedHash P e"
  using assms
  by (simp add: expectedHash_def computeEventHash_def canonicalize_def sortObject_payload storedInput_def)

lemma verifyFrom_update_metadata:
  assumes "i < length es" and "sortObject m' = sortObject (ev_metadata (es ! i))"
  shows "verifyFrom P h (es [i := (es ! i) \<lparr> ev_metadata := m' \<rparr>]) = verifyFrom P h es"
proof -
  let ?e = "es ! i"
  let ?e' = "?e \<lparr> ev_metadata := m' \<rparr>"
  have a: "es = take i es @ ?e # drop (Suc i) es"
    using assms(1) by (simp add: id_take_nth_drop)
  have b: "es [i := ?e'] = take i es @ ?e' # drop (Suc i) es"
    using assms(1) by (simp add: upd_conv_take_nth_drop)
  have "verifyFrom P h (take i es @ ?e' # drop (Suc i) es)
        = verifyFrom P h (take i es @ ?e # drop (Suc i) es)"
    by (simp add: verifyFrom_append verifyFrom_step expectedHash_metadata [OF assms(2)]
             del: verifyFrom.simps(2))
  with a b show ?thesis by simp
qed

lemma sortObject_add_proto:
  "sortObject (JObj ((''__proto__'', v) # ps)) = sortObject (JObj ps)"
proof -
  have "sortObject (JObj (filter notProto ((''__proto__'', v) # ps)))
        = sortObject (JObj ((''__proto__'', v) # ps))"
    by (rule sortObject_ignores_proto)
  moreover have "sortObject (JObj (filter notProto ps)) = sortObject (JObj ps)"
    by (rule sortObject_ignores_proto)
  moreover have "filter notProto ((''__proto__'', v) # ps) = filter notProto ps"
    by (simp add: notProto_def)
  ultimately show ?thesis by simp
qed

text \<open>
  C2 (chain integrity). The first half of the claim holds: events produced by sequential
  appends to one workspace, starting from no chain state, are linked from \<open>GENESIS\<close> and
  pass \<open>verifyHashChain\<close> (\<open>sequential_appends_verify\<close>). The second half fails in the
  code for one kind of change: the metadata of a stored event can be given a
  \<^verbatim>\<open>__proto__\<close> property, with any value, and the chain still verifies, because
  \<open>sortObject\<close> drops that property before the payload is hashed. Every other change
  to a hashed field of a middle event is detected when the digest and the serializers
  do not collide (\<open>tamper_detected\<close>, \<open>payload_field_changes\<close>).
\<close>

theorem proto_tamper_undetected:
  assumes "appendAll P inputs db = (Inr events, db')"
    and "\<forall>x\<in>set inputs. in_workspaceId (fst x) = w"
    and "auditChainState db w = None"
    and "i < length events"
    and "ev_metadata (events ! i) = JObj ps"
  shows "verifyHashChain P events
       \<and> events [i := (events ! i) \<lparr> ev_metadata := JObj ((''__proto__'', v) # ps) \<rparr>] \<noteq> events
       \<and> verifyHashChain P
            (events [i := (events ! i) \<lparr> ev_metadata := JObj ((''__proto__'', v) # ps) \<rparr>])"
proof -
  let ?t = "events [i := (events ! i) \<lparr> ev_metadata := JObj ((''__proto__'', v) # ps) \<rparr>]"
  have ok: "verifyHashChain P events"
    using sequential_appends_verify [OF assms(1,2,3)] by simp
  have s: "sortObject (JObj ((''__proto__'', v) # ps)) = sortObject (ev_metadata (events ! i))"
    by (simp only: assms(5) sortObject_add_proto)
  have t: "verifyHashChain P ?t = verifyHashChain P events"
    unfolding verifyHashChain_def by (rule verifyFrom_update_metadata [OF assms(4) s])
  have "ev_metadata (?t ! i) \<noteq> ev_metadata (events ! i)"
    using assms(4,5) by simp
  then have ne: "?t \<noteq> events" by metis
  from ok t ne show ?thesis by simp
qed

text \<open>
  Key order does not matter: two payloads that are the same logical value canonicalize
  to the same object and so have the same hash, for every previous hash.
\<close>

lemma sortObject_sameJson:
  assumes "sameJson a b"
  shows "sortObject a = sortObject b"
  using assms
proof (induction rule: sameJson.induct)
  case (same v)
  show ?case by simp
next
  case (arr xs ys)
  then have "list_all2 (\<lambda>x y. sortObject x = sortObject y) xs ys"
    by (simp add: list_all2_mono)
  then have "map sortObject xs = map sortObject ys"
    by (induction rule: list_all2_induct) auto
  then show ?case by simp
next
  case (obj ps qs)
  have keys: "sort (map fst ps) = sort (map fst qs)"
    using obj(1,2,3) by (intro sorted_distinct_set_unique) simp_all
  have look: "getOwn (map (map_prod id sortObject) ps) k = getOwn (map (map_prod id sortObject) qs) k"
    if "k \<in> set (sort (map fst ps))" for k
  proof -
    from that obtain v where v: "map_of ps k = Some v"
      by (auto simp: weak_map_of_SomeI dest!: map_of_SomeD [rotated] intro: exI)
         (metis map_of_eq_None_iff not_None_eq fst_conv image_eqI)
    with obj(4) obtain v' where v': "map_of qs k = Some v'" and s: "sortObject v = sortObject v'"
      by blast
    have m: "\<And>xs. map_of (map (map_prod id sortObject) xs) k = map_option sortObject (map_of xs k)"
      subgoal for xs by (induction xs) auto
      done
    show ?thesis by (simp add: getOwn_def m v v' s)
  qed
  have "foldl (reducer (map (map_prod id sortObject) ps)) [] (sort (map fst ps))
        = foldl (reducer (map (map_prod id sortObject) qs)) [] (sort (map fst ps))"
    by (rule foldl_reducer_cong) (rule look)
  with keys show ?case by simp
qed

lemma hash_key_order:
  assumes "sameJson a b"
  shows "computeEventHash P prevHash a = computeEventHash P prevHash b"
  using sortObject_sameJson [OF assms]
  by (simp add: computeEventHash_def canonicalize_def)

text \<open>
  C3 (hash determinism). \<open>computeEventHash\<close> is a function of its two arguments, and
  payloads that differ only in key order hash identically (\<open>hash_key_order\<close>). The last
  part of the claim, that every change to the value of a payload field changes the hash,
  fails in the code: \<open>sortObject\<close> rebuilds each object by assignment, and an assignment
  to the key \<^verbatim>\<open>__proto__\<close> creates no property, so whatever a payload holds under that
  key never reaches the serializer. The two event payloads below differ in their metadata
  and have the same hash, for every digest, serializer and previous hash.
\<close>

theorem hash_blind_to_proto:
  "createEventHashPayload P (event \<lparr> in_metadata := Some (JObj [(''note'', JObj [(''__proto__'', JStr ''a'')])]) \<rparr>) createdAt
     \<noteq> createEventHashPayload P (event \<lparr> in_metadata := Some (JObj [(''note'', JObj [(''__proto__'', JStr ''b'')])]) \<rparr>) createdAt
   \<and> computeEventHash P prevHash
        (createEventHashPayload P (event \<lparr> in_metadata := Some (JObj [(''note'', JObj [(''__proto__'', JStr ''a'')])]) \<rparr>) createdAt)
     = computeEventHash P prevHash
        (createEventHashPayload P (event \<lparr> in_metadata := Some (JObj [(''note'', JObj [(''__proto__'', JStr ''b'')])]) \<rparr>) createdAt)"
proof -
  have n: "\<not> isArrayIndex ''note''"
    by (simp add: isArrayIndex_def isDigit_def)
  have s: "sortObject (JObj [(''note'', JObj [(''__proto__'', v)])]) = JObj [(''note'', JObj [])]" for v
    by (simp add: reducer_def getOwn_def assignProp_def defineOwn_def n)
  show ?thesis
    by (simp add: computeEventHash_def canonicalize_def sortObject_payload s del: sortObject.simps)
       (simp add: createEventHashPayload_def)
qed

text \<open>
  The hypotheses hold for three appends to one workspace on the stand-in platform, where
  the metadata of the second stored event is changed from \<^verbatim>\<open>{}\<close> to
  \<^verbatim>\<open>{"__proto__": "x"}\<close>.
\<close>

theorem proto_tamper_undetected_witness:
  "(let inputs = [(demoInput ''kb'' ''read'' ALLOW, 1000), (demoInput ''db'' ''delete'' BLOCK, 2000),
                  (demoInput ''kb'' ''read'' ALLOW, 3000)]
    in case appendAll demoPlatform inputs emptyState of
         (Inl e, db') \<Rightarrow> False
       | (Inr events, db') \<Rightarrow>
           (\<forall>x\<in>set inputs. in_workspaceId (fst x) = ''w1'')
         \<and> auditChainState emptyState ''w1'' = None
         \<and> 1 < length events
         \<and> ev_metadata (events ! 1) = JObj []
         \<and> verifyHashChain demoPlatform events
         \<and> events [1 := (events ! 1) \<lparr> ev_metadata := JObj [(''__proto__'', JStr ''x'')] \<rparr>] \<noteq> events
         \<and> verifyHashChain demoPlatform
              (events [1 := (events ! 1) \<lparr> ev_metadata := JObj [(''__proto__'', JStr ''x'')] \<rparr>]))"
proof -
  let ?inputs = "[(demoInput ''kb'' ''read'' ALLOW, 1000), (demoInput ''db'' ''delete'' BLOCK, 2000),
                  (demoInput ''kb'' ''read'' ALLOW, 3000)]"
  obtain r db' where a: "appendAll demoPlatform ?inputs emptyState = (r, db')"
    by (cases "appendAll demoPlatform ?inputs emptyState")
  have "\<exists>events. r = Inr events \<and> length events = 3 \<and> ev_metadata (events ! 1) = JObj []"
    using a
    by (auto simp: appendAuditEvent_def Let_def emptyState_def demoPlatform_def demoInput_def)
  then obtain events where r: "r = Inr events" and l: "1 < length events"
    and m: "ev_metadata (events ! 1) = JObj []"
    by auto
  have w: "\<forall>x\<in>set ?inputs. in_workspaceId (fst x) = ''w1''"
    by (simp add: demoInput_def)
  have n: "auditChainState emptyState ''w1'' = None"
    by (simp add: emptyState_def)
  from proto_tamper_undetected [OF a [unfolded r] w n l m, of "JStr ''x''"] a r w n l m
  show ?thesis
    unfolding Let_def by simp
qed

lemma all_less_Suc_shift: "(\<forall>i < Suc n. Q i) = (Q 0 \<and> (\<forall>i < n. Q (Suc i)))"
  by (auto simp: less_Suc_eq_0_disj)

lemma verifyFrom_characterised:
  "verifyFrom P h es =
     (\<forall>i < length es. ev_prevHash (es ! i) = expectedPrev h es i
                      \<and> ev_hash (es ! i) = expectedHash P (es ! i))"
proof (induction es arbitrary: h)
  case Nil
  show ?case by simp
next
  case (Cons e es)
  have "(\<forall>i < length es. ev_prevHash (es ! i) = expectedPrev (ev_hash e) es i
                      \<and> ev_hash (es ! i) = expectedHash P (es ! i))
      = (\<forall>i < length es. ev_prevHash ((e # es) ! Suc i) = expectedPrev h (e # es) (Suc i)
                      \<and> ev_hash ((e # es) ! Suc i) = expectedHash P ((e # es) ! Suc i))"
    by (intro all_cong1 imp_cong refl) (simp add: expectedPrev_def nth_Cons split: nat.splits)
  with Cons.IH [of "ev_hash e"] show ?case
    by (simp add: verifyFrom_step all_less_Suc_shift expectedPrev_def del: verifyFrom.simps(2))
qed

lemma timelineFrom_characterised:
  assumes "timelineFrom previousHash failures es = (timeline, cnt)"
  shows "length timeline = length es
       \<and> (\<forall>i < length es. tl_chainIntegrity (timeline ! i) = verdictAt previousHash es i)
       \<and> cnt = failures + breaks timeline"
  using assms
proof (induction es arbitrary: previousHash failures timeline cnt)
  case Nil
  then show ?case by (simp add: breaks_def)
next
  case (Cons e es)
  let ?m = "(case previousHash of None \<Rightarrow> True | Some h \<Rightarrow> ev_prevHash e = h)"
  let ?f = "(if \<not> ?m then failures + 1 else failures)"
  obtain entries tot where r: "timelineFrom (Some (ev_hash e)) ?f es = (entries, tot)"
    by (cases "timelineFrom (Some (ev_hash e)) ?f es")
  from Cons.prems r obtain entry where t: "timeline = entry # entries" and tt: "cnt = tot"
    and en: "tl_chainIntegrity entry = (if ?m then OK else BROKEN)"
    by (auto simp: Let_def)
  from Cons.IH [OF r]
  have ih: "length entries = length es"
    "\<forall>i < length es. tl_chainIntegrity (entries ! i) = verdictAt (Some (ev_hash e)) es i"
    "tot = ?f + breaks entries"
    by simp_all
  have v0: "verdictAt previousHash (e # es) 0 = (if ?m then OK else BROKEN)"
    by (simp add: verdictAt_def split: option.splits)
  have vS: "verdictAt previousHash (e # es) (Suc i) = verdictAt (Some (ev_hash e)) es i" for i
    by (simp add: verdictAt_def nth_Cons split: nat.splits)
  have b: "cnt = failures + breaks timeline"
    using ih(3) tt t en by (simp add: breaks_def)
  from ih t en v0 vS b show ?case
    by (simp add: all_less_Suc_shift)
qed

text \<open>
  C7 (verdicts of the verifier), as the code has it. \<open>verifyHashChain\<close> checks every
  event's \<open>prevHash\<close> against the running hash, starting from \<open>GENESIS\<close>, and its stored
  hash against the hash recomputed from its own fields; it returns one boolean, true
  exactly when no event mismatches. The per-event verdicts, the count of breaks and the
  aggregate status come from the forensic replay, which recomputes no hash: the first
  event of the slice is always OK, a later event is BROKEN exactly when its \<open>prevHash\<close>
  differs from the stored hash of the event before it, \<open>integrityFailures\<close> counts the
  BROKEN entries and the status is HEALTHY exactly when that count is 0.
\<close>

theorem chain_verdicts:
  "(verifyHashChain P events =
      (\<forall>i < length events.
          ev_prevHash (events ! i) = (if i = 0 then ''GENESIS'' else ev_hash (events ! (i - 1)))
        \<and> ev_hash (events ! i) = expectedHash P (events ! i)))
   \<and> (case forensicsReplay events of (summary, timeline) \<Rightarrow>
        length timeline = length events
      \<and> (\<forall>i < length events.
           tl_chainIntegrity (timeline ! i) =
             (if i = 0 \<or> ev_prevHash (events ! i) = ev_hash (events ! (i - 1)) then OK else BROKEN))
      \<and> totalEvents summary = length events
      \<and> integrityFailures summary = length (filter (\<lambda>t. tl_chainIntegrity t = BROKEN) timeline)
      \<and> chainStatus summary = (if integrityFailures summary = 0 then HEALTHY else CHAIN_BROKEN))"
proof -
  have a: "verifyHashChain P events =
      (\<forall>i < length events.
          ev_prevHash (events ! i) = (if i = 0 then ''GENESIS'' else ev_hash (events ! (i - 1)))
        \<and> ev_hash (events ! i) = expectedHash P (events ! i))"
    by (simp add: verifyHashChain_def verifyFrom_characterised expectedPrev_def)
  obtain timeline cnt where t: "timelineFrom None 0 events = (timeline, cnt)"
    by (cases "timelineFrom None 0 events")
  have v: "verdictAt None events i
           = (if i = 0 \<or> ev_prevHash (events ! i) = ev_hash (events ! (i - 1)) then OK else BROKEN)" for i
    by (simp add: verdictAt_def)
  from timelineFrom_characterised [OF t] v
  have b: "length timeline = length events
      \<and> (\<forall>i < length events.
           tl_chainIntegrity (timeline ! i) =
             (if i = 0 \<or> ev_prevHash (events ! i) = ev_hash (events ! (i - 1)) then OK else BROKEN))
      \<and> cnt = length (filter (\<lambda>t. tl_chainIntegrity t = BROKEN) timeline)"
    by (simp add: breaks_def)
  from a b t show ?thesis
    by (simp add: forensicsReplay_def)
qed

text \<open>
  In the replay an event after a break is OK again when it links to the event before
  it, and the first event of a slice is OK whatever it holds.
\<close>

theorem later_events_not_broken:
  "map tl_chainIntegrity
     (snd (forensicsReplay [demoEvent ''1'' ''GENESIS'' ''h1'', demoEvent ''2'' ''tampered'' ''h2'',
                            demoEvent ''3'' ''h2'' ''h3'']))
     = [OK, BROKEN, OK]
   \<and> integrityFailures
       (fst (forensicsReplay [demoEvent ''1'' ''GENESIS'' ''h1'', demoEvent ''2'' ''tampered'' ''h2'',
                              demoEvent ''3'' ''h2'' ''h3''])) = 1
   \<and> map tl_chainIntegrity (snd (forensicsReplay [demoEvent ''2'' ''tampered'' ''h2''])) = [OK]
   \<and> chainStatus (fst (forensicsReplay [demoEvent ''2'' ''tampered'' ''h2''])) = HEALTHY"
  by (simp add: forensicsReplay_def demoEvent_def Let_def)

theorem chain_verdicts_witness:
  "(let events = [demoEvent ''1'' ''GENESIS'' ''h1'', demoEvent ''2'' ''tampered'' ''h2'',
                  demoEvent ''3'' ''h2'' ''h3'']
    in \<not> verifyHashChain demoPlatform events
       \<and> (1::nat) < length events
       \<and> ev_prevHash (events ! 1) \<noteq> ev_hash (events ! 0)
       \<and> tl_chainIntegrity (snd (forensicsReplay events) ! 1) = BROKEN
       \<and> (2::nat) < length events
       \<and> tl_chainIntegrity (snd (forensicsReplay events) ! 2) = OK
       \<and> chainStatus (fst (forensicsReplay events)) = CHAIN_BROKEN)"
proof -
  let ?events = "[demoEvent ''1'' ''GENESIS'' ''h1'', demoEvent ''2'' ''tampered'' ''h2'',
                  demoEvent ''3'' ''h2'' ''h3'']"
  have p: "ev_prevHash (?events ! 1) \<noteq> ev_hash (?events ! 0)"
    by (simp add: demoEvent_def)
  have q: "ev_prevHash (?events ! 2) = ev_hash (?events ! 1)"
    by (simp add: demoEvent_def)
  have l: "length ?events = 3" by simp
  obtain summary timeline where f: "forensicsReplay ?events = (summary, timeline)"
    by (cases "forensicsReplay ?events")
  note cv = chain_verdicts [of demoPlatform ?events]
  from cv have A: "verifyHashChain demoPlatform ?events =
      (\<forall>i < length ?events.
          ev_prevHash (?events ! i) = (if i = 0 then ''GENESIS'' else ev_hash (?events ! (i - 1)))
        \<and> ev_hash (?events ! i) = expectedHash demoPlatform (?events ! i))"
    by (rule conjunct1)
  from cv [unfolded f prod.case] have B: "\<forall>i < length ?events.
           tl_chainIntegrity (timeline ! i) =
             (if i = 0 \<or> ev_prevHash (?events ! i) = ev_hash (?events ! (i - 1)) then OK else BROKEN)"
    by blast
  have nv: "\<not> verifyHashChain demoPlatform ?events"
  proof
    assume "verifyHashChain demoPlatform ?events"
    with A have "\<forall>i < length ?events.
          ev_prevHash (?events ! i) = (if i = 0 then ''GENESIS'' else ev_hash (?events ! (i - 1)))
        \<and> ev_hash (?events ! i) = expectedHash demoPlatform (?events ! i)"
      by (simp only:)
    from this [rule_format, of 1] show False
      by (simp add: demoEvent_def)
  qed
  have b1: "tl_chainIntegrity (timeline ! 1) = BROKEN"
    using B [rule_format, of 1] by (simp add: demoEvent_def)
  have b2: "tl_chainIntegrity (timeline ! 2) = OK"
    using B [rule_format, of 2] by (simp add: demoEvent_def)
  have c: "chainStatus (fst (forensicsReplay ?events)) = CHAIN_BROKEN"
    by (simp add: forensicsReplay_def demoEvent_def Let_def)
  from nv b1 b2 c p f show ?thesis
    unfolding Let_def by simp
qed

section \<open>Properties of the playbooks\<close>

lemma configString_null: "configString JNull k = configString (JObj []) k"
  by (simp add: configString_def getProp_def getOwn_def)

lemma actionConfig_url: "configString (orEmptyObject c) k = configString c k"
  by (cases c) (simp_all add: orEmptyObject_def configString_null)

lemma playbookAction_urlMissing:
  assumes "urlMissing playbook"
  shows "playbookAction P inp now playbook db
         = (Inr ''Webhook URL missing in playbook actionConfig'', db)"
  using assms
  by (auto simp: urlMissing_def playbookAction_def Let_def actionConfig_url split: option.splits)

lemma runPlaybook_urlMissing:
  assumes "urlMissing playbook" and "triggerMatches inp playbook"
  shows "runPlaybook P inp now db playbook
         = recordExecution inp playbook ''EXECUTED'' ''Webhook URL missing in playbook actionConfig'' db"
  using assms by (simp add: runPlaybook_def playbookAction_urlMissing)

lemma createApprovalRequest_fetchLog:
  "fetchLog (snd (createApprovalRequest P row db)) = fetchLog db"
  by (simp add: createApprovalRequest_def Let_def)

lemma playbookAction_fetchLog:
  "length (fetchLog (snd (playbookAction P inp now playbook db)))
   = length (fetchLog db)
     + (if pb_actionType playbook = ''NOTIFY_WEBHOOK'' \<and> \<not> urlMissing playbook then 1 else 0)"
proof (cases "pb_actionType playbook = ''NOTIFY_WEBHOOK''")
  case True
  show ?thesis
  proof (cases "urlMissing playbook")
    case True
    then show ?thesis by (simp add: playbookAction_urlMissing)
  next
    case False
    with \<open>pb_actionType playbook = ''NOTIFY_WEBHOOK''\<close> show ?thesis
      by (auto simp: urlMissing_def playbookAction_def Let_def actionConfig_url executeWebhook_def
               split: option.splits)
  qed
next
  case False
  have c: "fetchLog (snd (case createApprovalRequest P row db of
                            (Inl e, db') \<Rightarrow> (Inl e, db')
                          | (Inr newId, db') \<Rightarrow> (Inr m, db'))) = fetchLog db" for row m
    using createApprovalRequest_fetchLog [of P row db]
    by (auto split: prod.splits sum.splits)
  from False show ?thesis
    by (auto simp: playbookAction_def Let_def c split: option.splits)
qed

lemma runPlaybook_fetchLog:
  "length (fetchLog (runPlaybook P inp now db playbook))
   = length (fetchLog db) + (if callsWebhook inp playbook then 1 else 0)"
  using playbookAction_fetchLog [of P inp now playbook db]
  by (auto simp: runPlaybook_def recordExecution_def callsWebhook_def split: prod.splits sum.splits)

lemma runPlaybook_execution:
  "\<exists>r. playbookExecution (runPlaybook P inp now db playbook) = playbookExecution db @ [r]
       \<and> pe_playbookId r = pb_id playbook"
proof -
  have a: "playbookExecution (snd (playbookAction P inp now playbook db)) = playbookExecution db"
    by (auto simp: playbookAction_def Let_def executeWebhook_def createApprovalRequest_def
             split: option.splits)
  then show ?thesis
    by (auto simp: runPlaybook_def recordExecution_def split: prod.splits sum.splits)
qed

lemma foldl_runPlaybook:
  "\<exists>rs. playbookExecution (foldl (runPlaybook P inp now) db pbs) = playbookExecution db @ rs
       \<and> map pe_playbookId rs = map pb_id pbs
       \<and> (\<forall>i < length pbs. urlMissing (pbs ! i) \<and> triggerMatches inp (pbs ! i)
             \<longrightarrow> pe_status (rs ! i) = ''EXECUTED''
                 \<and> pe_message (rs ! i) = ''Webhook URL missing in playbook actionConfig'')
       \<and> length (fetchLog (foldl (runPlaybook P inp now) db pbs))
           = length (fetchLog db) + length (filter (callsWebhook inp) pbs)"
proof (induction pbs arbitrary: db)
  case Nil
  show ?case by simp
next
  case (Cons pb pbs)
  let ?db1 = "runPlaybook P inp now db pb"
  from runPlaybook_execution [of P inp now db pb] obtain r where
    r: "playbookExecution ?db1 = playbookExecution db @ [r]" and rid: "pe_playbookId r = pb_id pb"
    by blast
  have rm: "urlMissing pb \<and> triggerMatches inp pb
            \<longrightarrow> pe_status r = ''EXECUTED''
                \<and> pe_message r = ''Webhook URL missing in playbook actionConfig''"
    using r by (auto simp: runPlaybook_urlMissing recordExecution_def)
  from Cons.IH [of ?db1] obtain rs where
    rs: "playbookExecution (foldl (runPlaybook P inp now) ?db1 pbs) = playbookExecution ?db1 @ rs"
    and ids: "map pe_playbookId rs = map pb_id pbs"
    and ms: "\<forall>i < length pbs. urlMissing (pbs ! i) \<and> triggerMatches inp (pbs ! i)
             \<longrightarrow> pe_status (rs ! i) = ''EXECUTED''
                 \<and> pe_message (rs ! i) = ''Webhook URL missing in playbook actionConfig''"
    and fl: "length (fetchLog (foldl (runPlaybook P inp now) ?db1 pbs))
           = length (fetchLog ?db1) + length (filter (callsWebhook inp) pbs)"
    by blast
  have "playbookExecution (foldl (runPlaybook P inp now) db (pb # pbs)) = playbookExecution db @ (r # rs)"
    using rs r by simp
  moreover have "map pe_playbookId (r # rs) = map pb_id (pb # pbs)"
    using ids rid by simp
  moreover have "\<forall>i < length (pb # pbs). urlMissing ((pb # pbs) ! i) \<and> triggerMatches inp ((pb # pbs) ! i)
             \<longrightarrow> pe_status ((r # rs) ! i) = ''EXECUTED''
                 \<and> pe_message ((r # rs) ! i) = ''Webhook URL missing in playbook actionConfig''"
    using ms rm by (auto simp: nth_Cons split: nat.splits)
  moreover have "length (fetchLog (foldl (runPlaybook P inp now) db (pb # pbs)))
           = length (fetchLog db) + length (filter (callsWebhook inp) (pb # pbs))"
    using fl runPlaybook_fetchLog [of P inp now db pb] by simp
  ultimately show ?case by blast
qed

text \<open>
  C9 (webhook without URL), as the code has it. For every enabled playbook of the
  event's workspace with action type \<open>NOTIFY_WEBHOOK\<close> whose trigger conditions match,
  when \<open>actionConfig.url\<close> is absent, not a string or empty: the iteration for that
  playbook adds one execution record with status \<open>EXECUTED\<close> and the message
  \<open>Webhook URL missing in playbook actionConfig\<close> and leaves the log of HTTP calls as it
  was; the run over all playbooks contains that record, and the number of HTTP calls it
  makes is the number of matching webhook playbooks that do have a URL.
\<close>

theorem webhook_url_missing:
  assumes "playbook \<in> set (enabledPlaybooks (pi_workspaceId inp) db)"
    and "pb_actionType playbook = ''NOTIFY_WEBHOOK''"
    and "triggerMatches inp playbook"
    and "configString (pb_actionConfig playbook) ''url'' = None
         \<or> configString (pb_actionConfig playbook) ''url'' = Some []"
  shows "runPlaybook P inp now db0 playbook
           = recordExecution inp playbook ''EXECUTED''
               ''Webhook URL missing in playbook actionConfig'' db0
       \<and> fetchLog (runPlaybook P inp now db0 playbook) = fetchLog db0
       \<and> (\<exists>r \<in> set (drop (length (playbookExecution db))
                         (playbookExecution (runPlaybooksForEvent P inp now db))).
              pe_playbookId r = pb_id playbook \<and> pe_status r = ''EXECUTED''
              \<and> pe_message r = ''Webhook URL missing in playbook actionConfig'')
       \<and> length (fetchLog (runPlaybooksForEvent P inp now db))
           = length (fetchLog db)
             + length (filter (callsWebhook inp) (enabledPlaybooks (pi_workspaceId inp) db))
       \<and> \<not> callsWebhook inp playbook"
proof -
  from assms(2,4) have u: "urlMissing playbook"
    by (auto simp: urlMissing_def)
  have a: "runPlaybook P inp now db0 playbook
           = recordExecution inp playbook ''EXECUTED''
               ''Webhook URL missing in playbook actionConfig'' db0"
    by (rule runPlaybook_urlMissing [OF u assms(3)])
  have b: "fetchLog (runPlaybook P inp now db0 playbook) = fetchLog db0"
    by (simp add: a recordExecution_def)
  let ?pbs = "enabledPlaybooks (pi_workspaceId inp) db"
  from foldl_runPlaybook [of P inp now db ?pbs] obtain rs where
    rs: "playbookExecution (runPlaybooksForEvent P inp now db) = playbookExecution db @ rs"
    and ids: "map pe_playbookId rs = map pb_id ?pbs"
    and ms: "\<forall>i < length ?pbs. urlMissing (?pbs ! i) \<and> triggerMatches inp (?pbs ! i)
             \<longrightarrow> pe_status (rs ! i) = ''EXECUTED''
                 \<and> pe_message (rs ! i) = ''Webhook URL missing in playbook actionConfig''"
    and fl: "length (fetchLog (runPlaybooksForEvent P inp now db))
           = length (fetchLog db) + length (filter (callsWebhook inp) ?pbs)"
    unfolding runPlaybooksForEvent_def by blast
  from assms(1) obtain i where i: "i < length ?pbs" and pi: "?pbs ! i = playbook"
    by (auto simp: in_set_conv_nth)
  from ids have len: "length rs = length ?pbs"
    by (metis length_map)
  from ids i pi len have "pe_playbookId (rs ! i) = pb_id playbook"
    by (metis nth_map)
  moreover from ms i pi u assms(3) have "pe_status (rs ! i) = ''EXECUTED''
                 \<and> pe_message (rs ! i) = ''Webhook URL missing in playbook actionConfig''"
    by auto
  moreover from i len have "rs ! i \<in> set rs" by simp
  ultimately have c: "\<exists>r \<in> set (drop (length (playbookExecution db))
                         (playbookExecution (runPlaybooksForEvent P inp now db))).
              pe_playbookId r = pb_id playbook \<and> pe_status r = ''EXECUTED''
              \<and> pe_message r = ''Webhook URL missing in playbook actionConfig''"
    using rs by auto
  have d: "\<not> callsWebhook inp playbook"
    using u by (simp add: callsWebhook_def)
  from a b c fl d show ?thesis by simp
qed

text \<open>
  A matching webhook playbook with the configuration \<^verbatim>\<open>{}\<close>: the only execution
  record has status \<open>EXECUTED\<close>, not \<open>FAILED\<close>.
\<close>

theorem webhook_url_missing_not_failed:
  "playbookExecution
     (runPlaybooksForEvent demoPlatform demoPlaybookInput 7
        (emptyState \<lparr> workspacePlaybook := [demoPlaybook ''NOTIFY_WEBHOOK'' (JObj [])] \<rparr>))
   = [\<lparr> pe_playbookId = ''p1'', pe_workspaceId = ''w1'', pe_agentId = Some ''a1'',
        pe_eventId = ''e1'', pe_status = ''EXECUTED'',
        pe_message = ''Webhook URL missing in playbook actionConfig'' \<rparr>]"
  by (simp add: runPlaybooksForEvent_def enabledPlaybooks_def emptyState_def demoPlaybook_def
                demoPlaybookInput_def runPlaybook_def triggerMatches_def getSignalMatchers_def
                playbookAction_def configString_def getProp_def getOwn_def recordExecution_def
                orEmptyObject_def)

theorem webhook_url_missing_witness:
  "(let playbook = demoPlaybook ''NOTIFY_WEBHOOK'' (JObj []);
        db = emptyState \<lparr> workspacePlaybook := [playbook] \<rparr>
    in playbook \<in> set (enabledPlaybooks (pi_workspaceId demoPlaybookInput) db)
       \<and> pb_actionType playbook = ''NOTIFY_WEBHOOK''
       \<and> triggerMatches demoPlaybookInput playbook
       \<and> configString (pb_actionConfig playbook) ''url'' = None
       \<and> fetchLog (runPlaybooksForEvent demoPlatform demoPlaybookInput 7 db) = []
       \<and> runPlaybook demoPlatform demoPlaybookInput 7 db playbook
           = recordExecution demoPlaybookInput playbook ''EXECUTED''
               ''Webhook URL missing in playbook actionConfig'' db)"
proof -
  let ?pb = "demoPlaybook ''NOTIFY_WEBHOOK'' (JObj [])"
  let ?db = "emptyState \<lparr> workspacePlaybook := [?pb] \<rparr>"
  have e: "enabledPlaybooks (pi_workspaceId demoPlaybookInput) ?db = [?pb]"
    by (simp add: enabledPlaybooks_def demoPlaybook_def demoPlaybookInput_def emptyState_def)
  then have a: "?pb \<in> set (enabledPlaybooks (pi_workspaceId demoPlaybookInput) ?db)"
    by simp
  have b: "pb_actionType ?pb = ''NOTIFY_WEBHOOK''"
    by (simp add: demoPlaybook_def)
  have c: "triggerMatches demoPlaybookInput ?pb"
    by (simp add: triggerMatches_def demoPlaybook_def demoPlaybookInput_def getSignalMatchers_def)
  have d: "configString (pb_actionConfig ?pb) ''url'' = None"
    by (simp add: demoPlaybook_def configString_def getProp_def getOwn_def)
  then have d': "configString (pb_actionConfig ?pb) ''url'' = None
         \<or> configString (pb_actionConfig ?pb) ''url'' = Some []"
    by simp
  note w = webhook_url_missing [OF a b c d', of demoPlatform 7 ?db]
  have f: "fetchLog ?db = []"
    by (simp add: emptyState_def)
  from w e have "length (fetchLog (runPlaybooksForEvent demoPlatform demoPlaybookInput 7 ?db)) = 0"
    by (simp add: f)
  then have g: "fetchLog (runPlaybooksForEvent demoPlatform demoPlaybookInput 7 ?db) = []"
    by simp
  from w a b c d g show ?thesis
    unfolding Let_def by simp
qed

section \<open>Properties of the evaluation\<close>

lemma set_foldl_setAdd: "set (foldl setAdd acc xs) = set acc \<union> set xs"
  by (induction xs arbitrary: acc) (auto simp: setAdd_def)

lemma set_uniqueList: "set (uniqueList xs) = set xs"
  by (simp add: uniqueList_def set_foldl_setAdd)

lemma detectSignals_vocabulary:
  "set (detectSignals rules ctx) \<subseteq> {''high_risk_action'', ''unknown_tool'', ''burst_rate''}"
  by (auto simp: detectSignals_def setAdd_def Let_def split: option.splits if_splits)

lemma evaluatePolicy_signals:
  assumes "evaluatePolicy raw ctx = Inr r"
  shows "set (signals r) \<subseteq> {''high_risk_action'', ''unknown_tool'', ''burst_rate''}"
proof -
  from assms obtain rules where "signals r = detectSignals rules ctx"
    by (auto simp: evaluatePolicy_def Let_def split: sum.splits if_splits)
  with detectSignals_vocabulary [of rules ctx] show ?thesis by simp
qed

lemma resolveDecision_signals:
  assumes "resolveDecision inp burst db = Inr (d, r, sigs, rules)"
  shows "set sigs \<subseteq> {''high_risk_action'', ''unknown_tool'', ''burst_rate''}"
  using assms
  by (auto simp: resolveDecision_def split: sum.splits if_splits option.splits prod.splits
           dest!: evaluatePolicy_signals)

lemma baselineSignals_set:
  "set sigs \<subseteq> set (baselineSignals inp clk baseline burst sigs)
   \<and> set (baselineSignals inp clk baseline burst sigs)
       \<subseteq> set sigs \<union> {''behavior_drift'', ''new_action_pattern'', ''off_hours_execution''}"
  by (auto simp: baselineSignals_def Let_def)

lemma baselineSignals_drift:
  "(''behavior_drift'' \<in> set (baselineSignals inp clk baseline burst sigs))
   = (''behavior_drift'' \<in> set sigs
      \<or> (case baseline of None \<Rightarrow> 0 | Some b \<Rightarrow> bl_sampleCount b) \<ge> 5
        \<and> burstMultiplier baseline burst \<ge> 2)"
  by (auto simp: baselineSignals_def Let_def)

lemma approvalGate_signals:
  assumes "approvalGate P inp clk rules (d0, r0, sigs) db = (Inr (d1, r1, sigs', aid), db1)"
  shows "sigs' = sigs \<or> sigs' = sigs @ [''human_approval_consumed'']
         \<or> sigs' = sigs @ [''human_approval_required'']"
  using assms
  by (auto simp: approvalGate_def gateAfterLookup_def consumeApproval_def split: if_splits option.splits prod.splits sum.splits)

lemma logEvaluation_result:
  assumes "logEvaluation P inp clk baseline burst (d1, r1, sigs, aid) db1 = (Inr res, db')"
  shows "res_decision res = d1 \<and> res_reason res = r1 \<and> res_signals res = uniqueList sigs
         \<and> res_approvalRequestId res = aid"
  using assms
  by (auto simp: logEvaluation_def Let_def split: prod.splits sum.splits)

lemma evaluateAndLogAction_stages:
  assumes "evaluateAndLogAction P inp clk db = (Inr res, db')"
  shows "\<exists>d0 r0 sigs0 rules sigs db1.
           resolveDecision inp (countRecent inp clk db) db = Inr (d0, r0, sigs0, rules)
         \<and> approvalGate P inp clk rules
              (d0, r0, baselineSignals inp clk (findBaseline inp db) (countRecent inp clk db) sigs0) db
             = (Inr (res_decision res, res_reason res, sigs, res_approvalRequestId res), db1)
         \<and> logEvaluation P inp clk (findBaseline inp db) (countRecent inp clk db)
              (res_decision res, res_reason res, sigs, res_approvalRequestId res) db1 = (Inr res, db')
         \<and> res_signals res = uniqueList sigs"
proof -
  from assms obtain d0 r0 sigs0 rules where
    r: "resolveDecision inp (countRecent inp clk db) db = Inr (d0, r0, sigs0, rules)"
    by (auto simp: evaluateAndLogAction_def Let_def split: sum.splits)
  with assms obtain d1 r1 sigs aid db1 where
    g: "approvalGate P inp clk rules
              (d0, r0, baselineSignals inp clk (findBaseline inp db) (countRecent inp clk db) sigs0) db
             = (Inr (d1, r1, sigs, aid), db1)"
    and l: "logEvaluation P inp clk (findBaseline inp db) (countRecent inp clk db)
              (d1, r1, sigs, aid) db1 = (Inr res, db')"
    by (auto simp: evaluateAndLogAction_def Let_def split: sum.splits prod.splits)
  from logEvaluation_result [OF l] r g l show ?thesis
    by auto
qed

lemma behavior_drift_iff:
  assumes "evaluateAndLogAction P inp clk db = (Inr res, db')"
  shows "(''behavior_drift'' \<in> set (res_signals res)) = driftCondition inp clk db"
proof -
  from evaluateAndLogAction_stages [OF assms] obtain d0 r0 sigs0 rules sigs db1 where
    r: "resolveDecision inp (countRecent inp clk db) db = Inr (d0, r0, sigs0, rules)"
    and g: "approvalGate P inp clk rules
              (d0, r0, baselineSignals inp clk (findBaseline inp db) (countRecent inp clk db) sigs0) db
             = (Inr (res_decision res, res_reason res, sigs, res_approvalRequestId res), db1)"
    and u: "res_signals res = uniqueList sigs"
    by blast
  let ?b = "baselineSignals inp clk (findBaseline inp db) (countRecent inp clk db) sigs0"
  from approvalGate_signals [OF g]
  have "(''behavior_drift'' \<in> set sigs) = (''behavior_drift'' \<in> set ?b)"
    by auto
  moreover from resolveDecision_signals [OF r] have "''behavior_drift'' \<notin> set sigs0"
    by auto
  moreover have "((case findBaseline inp db of None \<Rightarrow> 0 | Some b \<Rightarrow> bl_sampleCount b) \<ge> 5
        \<and> burstMultiplier (findBaseline inp db) (countRecent inp clk db) \<ge> 2)
      = driftCondition inp clk db"
    by (auto simp: driftCondition_def burstMultiplier_def Let_def split: option.splits)
  ultimately show ?thesis
    by (simp add: u set_uniqueList baselineSignals_drift)
qed

text \<open>
  C8 (drift signal), as the code has it. For every evaluation that returns, the result
  carries \<open>behavior_drift\<close> exactly when the baseline read at the start of the call
  exists, has \<open>sampleCount\<close> at least 5 and a positive \<open>avgPerMinute\<close>, and the burst
  rate divided by \<open>max(1, avgPerMinute)\<close> is at least 2. With an average of zero the
  multiplier is taken to be 1 and the signal is not emitted.
\<close>

theorem behavior_drift_signal:
  assumes "evaluateAndLogAction P inp clk db = (Inr res, db')"
  shows "(''behavior_drift'' \<in> set (res_signals res))
         = (case findBaseline inp db of
              None \<Rightarrow> False
            | Some b \<Rightarrow> bl_sampleCount b \<ge> 5 \<and> bl_avgPerMinute b > 0
                        \<and> of_nat (countRecent inp clk db) / max 1 (bl_avgPerMinute b) \<ge> 2)"
  using behavior_drift_iff [OF assms] by (simp add: driftCondition_def)

lemma demo_countRecent:
  "countRecent (demoCall ''read'' None) (demoClock 100000) (demoBaselineState avg) = 2"
  by (simp add: countRecent_def demoCall_def demoClock_def demoBaselineState_def emptyState_def
                demoStoredEvent_def demoEvent_def)

lemma demo_findBaseline:
  "findBaseline (demoCall ''read'' None) (demoBaselineState avg)
   = Some \<lparr> bl_workspaceId = ''w1'', bl_avgRiskScore = 5, bl_avgPerMinute = avg,
            bl_sampleCount = 5, bl_lastSeenAt = Some 1 \<rparr>"
  by (simp add: findBaseline_def demoCall_def demoBaselineState_def emptyState_def)

lemma demo_resolveDecision:
  "resolveDecision (demoCall ''read'' rid) 2 db
   = Inr (ALLOW, ''allowed_by_policy_engine'', [],
          \<lparr> mode = BALANCED, allow_actions = [], deny_actions = [], allow_tools = [],
            deny_tools = [], require_approval_actions = Some [] \<rparr>)"
  by (simp add: resolveDecision_def demoCall_def normalizePolicyRules_def rulesSchema_parse_def
                parseStringArray_def defaultRules_def truthy_def evaluatePolicy_def asRaw_def
                detectSignals_def toLowerCase_def lowerChar_def HIGH_RISK_ACTIONS_def)

lemma logEvaluation_returns:
  assumes "uuid P (idSeq db1) \<notin> ev_id ` set (auditLogEvent db1)"
  shows "\<exists>res db'. logEvaluation P inp clk baseline burst outcome db1 = (Inr res, db')"
proof -
  obtain d1 r1 sigs aid where o: "outcome = (d1, r1, sigs, aid)"
    by (cases outcome)
  show ?thesis
    using assms by (simp add: logEvaluation_def o Let_def appendAuditEvent_def)
qed

lemma approvalGate_not_required:
  assumes "\<not> (d0 = ALLOW \<and> requiresHumanApproval (eal_action inp) rules)"
  shows "approvalGate P inp clk rules (d0, r0, sigs) db = (Inr (d0, r0, sigs, None), db)"
  using assms by (auto simp: approvalGate_def gateAfterLookup_def consumeApproval_def)

lemma demo_read_no_approval:
  "\<not> requiresHumanApproval (eal_action (demoCall ''read'' rid))
        \<lparr> mode = BALANCED, allow_actions = [], deny_actions = [], allow_tools = [],
          deny_tools = [], require_approval_actions = Some [] \<rparr>"
  by (simp add: requiresHumanApproval_def demoCall_def toLowerCase_def lowerChar_def
                HIGH_RISK_ACTIONS_def)

lemma demo_fresh_id:
  "uuid demoPlatform (idSeq (demoBaselineState avg))
     \<notin> ev_id ` set (auditLogEvent (demoBaselineState avg))"
  by (simp add: demoBaselineState_def emptyState_def demoPlatform_def demoStoredEvent_def
                demoEvent_def)

lemma demo_evaluation_returns:
  "\<exists>res db'. evaluateAndLogAction demoPlatform (demoCall ''read'' None) (demoClock 100000)
               (demoBaselineState avg) = (Inr res, db')"
  unfolding evaluateAndLogAction_def Let_def demo_countRecent demo_resolveDecision
  using logEvaluation_returns [OF demo_fresh_id]
  by (simp add: approvalGate_not_required demo_read_no_approval)

text \<open>
  A baseline with five samples and average 0, and two events of the agent in the last
  minute: the condition as the specification words it holds, and the evaluation returns
  without \<open>behavior_drift\<close>.
\<close>

theorem drift_not_emitted_on_zero_average:
  "(case evaluateAndLogAction demoPlatform (demoCall ''read'' None) (demoClock 100000)
           (demoBaselineState 0) of
      (Inl e, db') \<Rightarrow> False
    | (Inr res, db') \<Rightarrow>
        ''behavior_drift'' \<notin> set (res_signals res)
        \<and> driftConditionSpec (demoCall ''read'' None) (demoClock 100000) (demoBaselineState 0))"
proof -
  from demo_evaluation_returns [of 0] obtain res db' where
    e: "evaluateAndLogAction demoPlatform (demoCall ''read'' None) (demoClock 100000)
          (demoBaselineState 0) = (Inr res, db')"
    by blast
  have "\<not> driftCondition (demoCall ''read'' None) (demoClock 100000) (demoBaselineState 0)"
    by (simp add: driftCondition_def demo_findBaseline)
  with behavior_drift_iff [OF e] have n: "''behavior_drift'' \<notin> set (res_signals res)"
    by simp
  have s: "driftConditionSpec (demoCall ''read'' None) (demoClock 100000) (demoBaselineState 0)"
    by (simp add: driftConditionSpec_def demo_findBaseline demo_countRecent)
  from e n s show ?thesis by simp
qed

theorem behavior_drift_signal_witness:
  "(case evaluateAndLogAction demoPlatform (demoCall ''read'' None) (demoClock 100000)
           (demoBaselineState 1) of
      (Inl e, db') \<Rightarrow> False
    | (Inr res, db') \<Rightarrow>
        ''behavior_drift'' \<in> set (res_signals res)
        \<and> findBaseline (demoCall ''read'' None) (demoBaselineState 1)
            = Some \<lparr> bl_workspaceId = ''w1'', bl_avgRiskScore = 5, bl_avgPerMinute = 1,
                     bl_sampleCount = 5, bl_lastSeenAt = Some 1 \<rparr>
        \<and> countRecent (demoCall ''read'' None) (demoClock 100000) (demoBaselineState 1) = 2)"
proof -
  from demo_evaluation_returns [of 1] obtain res db' where
    e: "evaluateAndLogAction demoPlatform (demoCall ''read'' None) (demoClock 100000)
          (demoBaselineState 1) = (Inr res, db')"
    by blast
  from behavior_drift_signal [OF e] have "''behavior_drift'' \<in> set (res_signals res)"
    by (simp add: demo_findBaseline demo_countRecent)
  with e show ?thesis
    by (simp add: demo_findBaseline demo_countRecent)
qed

section \<open>Properties of the approval gate\<close>

lemma keepsRows_refl: "keepsRows db db"
  by (simp add: keepsRows_def)

lemma keepsRows_trans: "keepsRows a b \<Longrightarrow> keepsRows b c \<Longrightarrow> keepsRows a c"
  by (simp add: keepsRows_def)

lemma keepsRows_same:
  assumes "actionApprovalRequest db' = actionApprovalRequest db"
  shows "keepsRows db db'"
  using assms by (simp add: keepsRows_def)

lemma keepsRows_consumed: "keepsRows db db' \<Longrightarrow> consumed db rid \<Longrightarrow> consumed db' rid"
  by (auto simp: keepsRows_def consumed_def split: option.splits)

lemma createApprovalRequest_keepsRows:
  "keepsRows db (snd (createApprovalRequest P row db))"
  by (auto simp: createApprovalRequest_def keepsRows_def Let_def)

lemma createApprovalRequest_keeps:
  assumes "createApprovalRequest P row db = (x, db')"
  shows "keepsRows db db'"
  using createApprovalRequest_keepsRows [of db P row] assms by simp

lemma createApprovalRequest_new:
  assumes "createApprovalRequest P row db = (Inr newId, db')"
  shows "newId \<notin> dom (actionApprovalRequest db) \<and> actionApprovalRequest db' newId = Some row
         \<and> keepsRows db db'"
  using assms by (auto simp: createApprovalRequest_def keepsRows_def Let_def split: if_splits)

lemma appendAuditEvent_approvals:
  "actionApprovalRequest (snd (appendAuditEvent P event now db)) = actionApprovalRequest db"
  by (simp add: appendAuditEvent_def Let_def)

lemma upsertBaseline_approvals:
  "actionApprovalRequest (upsertBaseline P inp clk baseline riskScore burst db) = actionApprovalRequest db"
  by (simp add: upsertBaseline_def Let_def split: option.splits)

lemma playbookAction_keepsRows:
  "keepsRows db (snd (playbookAction P inp now playbook db))"
proof -
  have c: "keepsRows db (snd (case createApprovalRequest P row db of
                            (Inl e, db') \<Rightarrow> (Inl e, db')
                          | (Inr newId, db') \<Rightarrow> (Inr m, db')))" for row m
    using createApprovalRequest_keepsRows [of db P row]
    by (auto split: prod.splits sum.splits)
  have e: "keepsRows db (snd (case executeWebhook P url secret payload db of
                            (Inl e, db') \<Rightarrow> (Inl e, db')
                          | (Inr u, db') \<Rightarrow> (Inr m, db')))" for url secret payload m
    by (auto simp: executeWebhook_def keepsRows_def Let_def split: option.splits)
  show ?thesis
    unfolding playbookAction_def Let_def
    by (auto simp: c e keepsRows_refl intro!: keepsRows_same split: option.splits)
qed

lemma runPlaybook_keepsRows: "keepsRows db (runPlaybook P inp now db playbook)"
proof -
  have "keepsRows db' (recordExecution inp playbook st m db')" for db' st m
    by (simp add: recordExecution_def keepsRows_def)
  with playbookAction_keepsRows [of db P inp now playbook] show ?thesis
    by (auto simp: runPlaybook_def split: prod.splits sum.splits intro: keepsRows_trans)
qed

lemma foldl_runPlaybook_keepsRows: "keepsRows db (foldl (runPlaybook P inp now) db pbs)"
proof (induction pbs arbitrary: db)
  case Nil
  show ?case by (simp add: keepsRows_refl)
next
  case (Cons pb pbs)
  from runPlaybook_keepsRows [of db P inp now pb] Cons.IH [of "runPlaybook P inp now db pb"]
  show ?case by (auto intro: keepsRows_trans)
qed

lemma runPlaybooksForEvent_keepsRows: "keepsRows db (runPlaybooksForEvent P inp now db)"
  by (simp add: runPlaybooksForEvent_def foldl_runPlaybook_keepsRows)

lemma logEvaluation_keepsRows:
  "keepsRows db1 (snd (logEvaluation P inp clk baseline burst outcome db1))"
proof -
  obtain d1 r1 sigs aid where o: "outcome = (d1, r1, sigs, aid)"
    by (cases outcome)
  have a: "keepsRows db1 db2" if "appendAuditEvent P event now db1 = (x, db2)" for event now x db2
    using appendAuditEvent_approvals [of P event now db1] that by (simp add: keepsRows_same)
  have b: "keepsRows db2 (runPlaybooksForEvent P pin now (upsertBaseline P inp clk baseline rs burst db2))"
    for db2 pin now rs
    using runPlaybooksForEvent_keepsRows [of "upsertBaseline P inp clk baseline rs burst db2" P pin now]
    by (simp add: keepsRows_def upsertBaseline_approvals)
  show ?thesis
    unfolding logEvaluation_def o Let_def prod.case
    by (auto split: prod.splits sum.splits dest!: a intro: keepsRows_trans b)
qed

lemma findApproved_Some:
  "(findApproved inp clk db = Some rid)
   = (eal_approvalRequestId inp = Some rid \<and> rid \<noteq> []
      \<and> (\<exists>r. actionApprovalRequest db rid = Some r
              \<and> ar_workspaceId r = eal_workspaceId inp
              \<and> ar_agentId r = ag_id (eal_agent inp)
              \<and> ar_status r = APPROVED
              \<and> ar_consumedAt r = None
              \<and> clk_approvalLookup clk < ar_expiresAt r))"
  by (auto simp: findApproved_def truthy_def split: option.splits if_splits)

lemma approvalGate_no_approval:
  assumes "findApproved inp clk db = None"
  shows "keepsRows db (snd (approvalGate P inp clk rules cur db))"
    and "approvalGate P inp clk rules cur db = (Inr (d1, r1, sigs', aid), db1)
         \<Longrightarrow> ''human_approval_consumed'' \<in> set sigs'
         \<Longrightarrow> ''human_approval_consumed'' \<in> set (snd (snd cur))"
proof -
  obtain d0 r0 sigs where c: "cur = (d0, r0, sigs)" by (cases cur)
  show "keepsRows db (snd (approvalGate P inp clk rules cur db))"
    using assms
    by (auto simp: approvalGate_def gateAfterLookup_def consumeApproval_def c keepsRows_refl split: prod.splits sum.splits
             dest: createApprovalRequest_keeps)
  show "approvalGate P inp clk rules cur db = (Inr (d1, r1, sigs', aid), db1)
         \<Longrightarrow> ''human_approval_consumed'' \<in> set sigs'
         \<Longrightarrow> ''human_approval_consumed'' \<in> set (snd (snd cur))"
    using assms
    by (auto simp: approvalGate_def gateAfterLookup_def consumeApproval_def c split: prod.splits sum.splits if_splits)
qed

lemma approvalGate_consumed:
  assumes "consumed db rid"
  shows "consumed (snd (approvalGate P inp clk rules cur db)) rid"
proof (cases "findApproved inp clk db")
  case None
  from keepsRows_consumed [OF approvalGate_no_approval(1) [OF None] assms] show ?thesis .
next
  case (Some rid')
  obtain d0 r0 sigs where c: "cur = (d0, r0, sigs)" by (cases cur)
  from assms Some show ?thesis
    by (auto simp: approvalGate_def gateAfterLookup_def consumeApproval_def c consumed_def split: option.splits)
qed

lemma evaluate_consumed:
  assumes "consumed db rid"
  shows "consumed (snd (evaluateAndLogAction P inp clk db)) rid"
proof -
  have "consumed (snd (logEvaluation P inp clk b n outcome db1)) rid" if "consumed db1 rid"
    for b n outcome db1
    using keepsRows_consumed [OF logEvaluation_keepsRows that] .
  with approvalGate_consumed [OF assms] assms show ?thesis
    unfolding evaluateAndLogAction_def Let_def
    by (auto split: sum.splits prod.splits) (metis snd_conv)+
qed

lemma pre_gate_vocabulary:
  assumes "resolveDecision inp burst db = Inr (d0, r0, sigs0, rules)"
  shows "''human_approval_consumed'' \<notin> set (baselineSignals inp clk baseline burst sigs0)"
  using resolveDecision_signals [OF assms] baselineSignals_set [of sigs0 inp clk baseline burst]
  by auto

lemma evaluate_no_approval:
  assumes "findApproved inp clk db = None"
  shows "keepsRows db (snd (evaluateAndLogAction P inp clk db))"
    and "evaluateAndLogAction P inp clk db = (Inr res, db') \<Longrightarrow>
           ''human_approval_consumed'' \<notin> set (res_signals res)"
proof -
  have l: "keepsRows db (snd (logEvaluation P inp clk b n outcome db1))" if "keepsRows db db1"
    for b n outcome db1
    using keepsRows_trans [OF that logEvaluation_keepsRows] .
  from approvalGate_no_approval(1) [OF assms] show "keepsRows db (snd (evaluateAndLogAction P inp clk db))"
    unfolding evaluateAndLogAction_def Let_def
    by (auto simp: keepsRows_refl split: sum.splits prod.splits intro!: l) (metis snd_conv)+
  assume e: "evaluateAndLogAction P inp clk db = (Inr res, db')"
  from evaluateAndLogAction_stages [OF e] obtain d0 r0 sigs0 rules sigs db1 where
    r: "resolveDecision inp (countRecent inp clk db) db = Inr (d0, r0, sigs0, rules)"
    and g: "approvalGate P inp clk rules
              (d0, r0, baselineSignals inp clk (findBaseline inp db) (countRecent inp clk db) sigs0) db
             = (Inr (res_decision res, res_reason res, sigs, res_approvalRequestId res), db1)"
    and u: "res_signals res = uniqueList sigs"
    by blast
  from approvalGate_no_approval(2) [OF assms g] pre_gate_vocabulary [OF r]
  show "''human_approval_consumed'' \<notin> set (res_signals res)"
    by (auto simp: u set_uniqueList)
qed

lemma consumed_not_found:
  assumes "consumed db rid" and "eal_approvalRequestId inp = Some rid"
  shows "findApproved inp clk db = None"
  using assms
  by (auto simp: consumed_def findApproved_def truthy_def split: option.splits)

lemma resolveApproval_consumed:
  assumes "consumed db rid"
  shows "consumed (snd (resolveApproval outcome approvalId userId access note now db)) rid"
  using assms by (auto simp: resolveApproval_def consumed_def split: option.splits)

lemma step_consumed:
  assumes "consumed db rid"
  shows "consumed (step P db op) rid"
proof (cases op)
  case (Evaluate inp clk)
  with evaluate_consumed [OF assms] show ?thesis by simp
next
  case (Approve a u c n t)
  with resolveApproval_consumed [OF assms] show ?thesis by (simp add: approveRoute_def)
next
  case (Reject a u c n t)
  with resolveApproval_consumed [OF assms] show ?thesis by (simp add: rejectRoute_def)
next
  case (Other f)
  with assms show ?thesis by (simp add: consumed_def)
qed

lemma run_consumed:
  assumes "consumed db rid"
  shows "consumed (run P db ops) rid"
  using assms unfolding run_def
  by (induction ops arbitrary: db) (auto intro: step_consumed)

lemma stages_ignore_requestId:
  "countRecent (inp \<lparr> eal_approvalRequestId := x \<rparr>) clk db = countRecent inp clk db"
  "findBaseline (inp \<lparr> eal_approvalRequestId := x \<rparr>) db = findBaseline inp db"
  "resolveDecision (inp \<lparr> eal_approvalRequestId := x \<rparr>) burst db = resolveDecision inp burst db"
  "baselineSignals (inp \<lparr> eal_approvalRequestId := x \<rparr>) clk baseline burst sigs
     = baselineSignals inp clk baseline burst sigs"
  "upsertBaseline P (inp \<lparr> eal_approvalRequestId := x \<rparr>) clk baseline rs burst db
     = upsertBaseline P inp clk baseline rs burst db"
  by (simp_all add: countRecent_def findBaseline_def resolveDecision_def baselineSignals_def
                    upsertBaseline_def
               cong: if_cong option.case_cong sum.case_cong prod.case_cong)

lemma logEvaluation_ignores_requestId:
  "logEvaluation P (inp \<lparr> eal_approvalRequestId := x \<rparr>) clk baseline burst outcome db
   = logEvaluation P inp clk baseline burst outcome db"
  by (simp add: logEvaluation_def stages_ignore_requestId
           cong: if_cong option.case_cong sum.case_cong prod.case_cong)

lemma approvalGate_same_lookup:
  assumes "findApproved (inp \<lparr> eal_approvalRequestId := x \<rparr>) clk db
           = findApproved (inp \<lparr> eal_approvalRequestId := y \<rparr>) clk db"
  shows "approvalGate P (inp \<lparr> eal_approvalRequestId := x \<rparr>) clk rules cur db
         = approvalGate P (inp \<lparr> eal_approvalRequestId := y \<rparr>) clk rules cur db"
  using assms
  by (simp add: approvalGate_def gateAfterLookup_def consumeApproval_def cong: if_cong option.case_cong sum.case_cong prod.case_cong)

lemma evaluate_same_lookup:
  assumes "findApproved (inp \<lparr> eal_approvalRequestId := x \<rparr>) clk db
           = findApproved (inp \<lparr> eal_approvalRequestId := y \<rparr>) clk db"
  shows "evaluateAndLogAction P (inp \<lparr> eal_approvalRequestId := x \<rparr>) clk db
         = evaluateAndLogAction P (inp \<lparr> eal_approvalRequestId := y \<rparr>) clk db"
  by (simp add: evaluateAndLogAction_def stages_ignore_requestId logEvaluation_ignores_requestId
                approvalGate_same_lookup [OF assms]
           cong: if_cong option.case_cong sum.case_cong prod.case_cong)

lemma findApproved_absent: "findApproved (inp \<lparr> eal_approvalRequestId := None \<rparr>) clk db = None"
  by (simp add: findApproved_def truthy_def)

lemma findApproved_expired:
  assumes "actionApprovalRequest db rid = Some r" and "ar_expiresAt r \<le> clk_approvalLookup clk"
  shows "findApproved (inp \<lparr> eal_approvalRequestId := Some rid \<rparr>) clk db = None"
  using assms by (simp add: findApproved_def truthy_def)

lemma approvalGate_blocks:
  assumes "findApproved inp clk db = None"
    and "requiresHumanApproval (eal_action inp) rules"
    and "approvalGate P inp clk rules (ALLOW, r0, sigs) db = (Inr (d1, r1, sigs', aid), db1)"
  shows "d1 = BLOCK \<and> r1 = ''approval_required'' \<and> sigs' = sigs @ [''human_approval_required'']
       \<and> (\<exists>newId row. aid = Some newId \<and> newId \<notin> dom (actionApprovalRequest db)
             \<and> actionApprovalRequest db1 newId = Some row
             \<and> ar_status row = PENDING \<and> ar_consumedAt row = None
             \<and> ar_expiresAt row = clk_approvalCreate clk + APPROVAL_TTL_MS
             \<and> ar_workspaceId row = eal_workspaceId inp
             \<and> ar_agentId row = ag_id (eal_agent inp)
             \<and> ar_tool row = eal_tool inp \<and> ar_action row = eal_action inp)"
  using assms
  by (auto simp: approvalGate_def gateAfterLookup_def consumeApproval_def split: prod.splits sum.splits dest!: createApprovalRequest_new)

lemma approvalGate_consumes:
  assumes "approvalGate P inp clk rules (d0, r0, sigs) db = (Inr (d1, r1, sigs', aid), db1)"
    and "''human_approval_consumed'' \<in> set sigs'"
    and "''human_approval_consumed'' \<notin> set sigs"
  shows "\<exists>rid. findApproved inp clk db = Some rid \<and> d1 = ALLOW
           \<and> actionApprovalRequest db1 rid
               = map_option (\<lambda>r. r \<lparr> ar_consumedAt := Some (clk_approvalConsume clk) \<rparr>)
                   (actionApprovalRequest db rid)"
  using assms
  by (auto simp: approvalGate_def gateAfterLookup_def consumeApproval_def split: prod.splits sum.splits if_splits option.splits)

lemma logEvaluation_rows:
  assumes "logEvaluation P inp clk baseline burst outcome db1 = (x, db')"
    and "actionApprovalRequest db1 rid = Some r"
  shows "actionApprovalRequest db' rid = Some r"
  using logEvaluation_keepsRows [of db1 P inp clk baseline burst outcome] assms
  by (simp add: keepsRows_def)

text \<open>
  Evaluations that run one after another. When such an evaluation returns with the
  signal \<open>human_approval_consumed\<close>, the caller supplied the id of a request that, in
  the state before, belonged to the same workspace and agent, had status APPROVED, had no
  \<open>consumedAt\<close> and expired after the lookup; in the state after, that request has
  \<open>consumedAt\<close> set to the clock reading of the update, and the decision is ALLOW. From
  then on, after any sequence of evaluations, approvals, rejections and other operations
  that each run alone, the request is still marked consumed, and an evaluation bearing
  its id that runs alone neither emits \<open>human_approval_consumed\<close> nor changes the request.
\<close>

lemma serial_consumption_at_most_once:
  assumes "evaluateAndLogAction P inp clk db = (Inr res, db1)"
    and "''human_approval_consumed'' \<in> set (res_signals res)"
  shows "\<exists>rid r. eal_approvalRequestId inp = Some rid
           \<and> actionApprovalRequest db rid = Some r
           \<and> ar_workspaceId r = eal_workspaceId inp
           \<and> ar_agentId r = ag_id (eal_agent inp)
           \<and> ar_status r = APPROVED
           \<and> ar_consumedAt r = None
           \<and> clk_approvalLookup clk < ar_expiresAt r
           \<and> actionApprovalRequest db1 rid
               = Some (r \<lparr> ar_consumedAt := Some (clk_approvalConsume clk) \<rparr>)
           \<and> res_decision res = ALLOW
           \<and> (\<forall>ops inp2 clk2 out db3.
                 eal_approvalRequestId inp2 = Some rid
                 \<and> evaluateAndLogAction P inp2 clk2 (run P db1 ops) = (out, db3)
                 \<longrightarrow> consumed (run P db1 ops) rid
                     \<and> actionApprovalRequest db3 rid = actionApprovalRequest (run P db1 ops) rid
                     \<and> (\<forall>res2. out = Inr res2
                           \<longrightarrow> ''human_approval_consumed'' \<notin> set (res_signals res2)))"
proof -
  from evaluateAndLogAction_stages [OF assms(1)] obtain d0 r0 sigs0 rules sigs dbg where
    r: "resolveDecision inp (countRecent inp clk db) db = Inr (d0, r0, sigs0, rules)"
    and g: "approvalGate P inp clk rules
              (d0, r0, baselineSignals inp clk (findBaseline inp db) (countRecent inp clk db) sigs0) db
             = (Inr (res_decision res, res_reason res, sigs, res_approvalRequestId res), dbg)"
    and l: "logEvaluation P inp clk (findBaseline inp db) (countRecent inp clk db)
              (res_decision res, res_reason res, sigs, res_approvalRequestId res) dbg = (Inr res, db1)"
    and u: "res_signals res = uniqueList sigs"
    by blast
  from assms(2) u have "''human_approval_consumed'' \<in> set sigs"
    by (simp add: set_uniqueList)
  from approvalGate_consumes [OF g this pre_gate_vocabulary [OF r]] obtain rid where
    f: "findApproved inp clk db = Some rid" and d: "res_decision res = ALLOW"
    and c: "actionApprovalRequest dbg rid
               = map_option (\<lambda>r. r \<lparr> ar_consumedAt := Some (clk_approvalConsume clk) \<rparr>)
                   (actionApprovalRequest db rid)"
    by blast
  from f obtain row where i: "eal_approvalRequestId inp = Some rid"
    and row: "actionApprovalRequest db rid = Some row"
      "ar_workspaceId row = eal_workspaceId inp" "ar_agentId row = ag_id (eal_agent inp)"
      "ar_status row = APPROVED" "ar_consumedAt row = None"
      "clk_approvalLookup clk < ar_expiresAt row"
    unfolding findApproved_Some by blast
  from c row(1) have "actionApprovalRequest dbg rid
               = Some (row \<lparr> ar_consumedAt := Some (clk_approvalConsume clk) \<rparr>)"
    by simp
  from logEvaluation_rows [OF l this]
  have after: "actionApprovalRequest db1 rid
               = Some (row \<lparr> ar_consumedAt := Some (clk_approvalConsume clk) \<rparr>)" .
  then have c1: "consumed db1 rid"
    by (simp add: consumed_def)
  have later: "consumed (run P db1 ops) rid
                \<and> actionApprovalRequest db3 rid = actionApprovalRequest (run P db1 ops) rid
                \<and> (\<forall>res2. out = Inr res2
                       \<longrightarrow> ''human_approval_consumed'' \<notin> set (res_signals res2))"
    if h: "eal_approvalRequestId inp2 = Some rid"
       "evaluateAndLogAction P inp2 clk2 (run P db1 ops) = (out, db3)"
    for ops inp2 clk2 out db3
  proof -
    let ?db2 = "run P db1 ops"
    from run_consumed [OF c1] have c2: "consumed ?db2 rid" .
    from consumed_not_found [OF c2 h(1)] have n: "findApproved inp2 clk2 ?db2 = None" .
    from c2 obtain r2 where r2: "actionApprovalRequest ?db2 rid = Some r2"
      by (auto simp: consumed_def split: option.splits)
    from evaluate_no_approval(1) [OF n, of P] h(2) r2
    have "actionApprovalRequest db3 rid = actionApprovalRequest ?db2 rid"
      by (simp add: keepsRows_def)
    moreover from evaluate_no_approval(2) [OF n] h(2)
    have "\<forall>res2. out = Inr res2 \<longrightarrow> ''human_approval_consumed'' \<notin> set (res_signals res2)"
      by auto
    ultimately show ?thesis using c2 by simp
  qed
  from i row after d later show ?thesis
    by blast
qed

text \<open>
  C5 (expired approval). For an approval request whose stored status is APPROVED and
  whose \<open>expiresAt\<close> is not after the lookup, an evaluation bearing its id is the same
  evaluation as one with no id: same result, same state. It never emits
  \<open>human_approval_consumed\<close> and leaves the request as it was, status included. When
  the evaluation reaches the approval gate, the decision is BLOCK with reason
  \<open>approval_required\<close>, the signal \<open>human_approval_required\<close> is emitted and a new
  PENDING request, expiring 15 minutes after its creation, is stored under a fresh id
  that is returned; and the evaluation does return when the two primary keys it draws
  are free.
\<close>

theorem expired_approval_not_consumable:
  assumes "actionApprovalRequest db rid = Some r"
    and "ar_status r = APPROVED"
    and "ar_expiresAt r \<le> clk_approvalLookup clk"
  shows "evaluateAndLogAction P (inp \<lparr> eal_approvalRequestId := Some rid \<rparr>) clk db
           = evaluateAndLogAction P (inp \<lparr> eal_approvalRequestId := None \<rparr>) clk db
       \<and> (\<forall>res db'.
             evaluateAndLogAction P (inp \<lparr> eal_approvalRequestId := Some rid \<rparr>) clk db = (Inr res, db')
             \<longrightarrow> ''human_approval_consumed'' \<notin> set (res_signals res)
                 \<and> actionApprovalRequest db' rid = Some r
                 \<and> (gateReached inp clk db
                      \<longrightarrow> res_decision res = BLOCK
                          \<and> res_reason res = ''approval_required''
                          \<and> ''human_approval_required'' \<in> set (res_signals res)
                          \<and> (\<exists>newId row. res_approvalRequestId res = Some newId
                                \<and> newId \<notin> dom (actionApprovalRequest db)
                                \<and> actionApprovalRequest db' newId = Some row
                                \<and> ar_status row = PENDING \<and> ar_consumedAt row = None
                                \<and> ar_expiresAt row = clk_approvalCreate clk + APPROVAL_TTL_MS
                                \<and> ar_workspaceId row = eal_workspaceId inp
                                \<and> ar_agentId row = ag_id (eal_agent inp)
                                \<and> ar_tool row = eal_tool inp
                                \<and> ar_action row = eal_action inp)))
       \<and> (gateReached inp clk db
            \<and> uuid P (idSeq db) \<notin> dom (actionApprovalRequest db)
            \<and> uuid P (idSeq db + 1) \<notin> ev_id ` set (auditLogEvent db)
          \<longrightarrow> (\<exists>res db'. evaluateAndLogAction P (inp \<lparr> eal_approvalRequestId := Some rid \<rparr>) clk db
                            = (Inr res, db')))"
proof -
  let ?inp = "inp \<lparr> eal_approvalRequestId := Some rid \<rparr>"
  have n: "findApproved ?inp clk db = None"
    by (rule findApproved_expired [OF assms(1,3)])
  have a: "evaluateAndLogAction P ?inp clk db
           = evaluateAndLogAction P (inp \<lparr> eal_approvalRequestId := None \<rparr>) clk db"
    by (rule evaluate_same_lookup) (simp add: n findApproved_absent)
  have b: "''human_approval_consumed'' \<notin> set (res_signals res)
           \<and> actionApprovalRequest db' rid = Some r
           \<and> (gateReached inp clk db
                \<longrightarrow> res_decision res = BLOCK
                    \<and> res_reason res = ''approval_required''
                    \<and> ''human_approval_required'' \<in> set (res_signals res)
                    \<and> (\<exists>newId row. res_approvalRequestId res = Some newId
                          \<and> newId \<notin> dom (actionApprovalRequest db)
                          \<and> actionApprovalRequest db' newId = Some row
                          \<and> ar_status row = PENDING \<and> ar_consumedAt row = None
                          \<and> ar_expiresAt row = clk_approvalCreate clk + APPROVAL_TTL_MS
                          \<and> ar_workspaceId row = eal_workspaceId inp
                          \<and> ar_agentId row = ag_id (eal_agent inp)
                          \<and> ar_tool row = eal_tool inp
                          \<and> ar_action row = eal_action inp))"
    if e: "evaluateAndLogAction P ?inp clk db = (Inr res, db')" for res db'
  proof -
    from evaluate_no_approval(2) [OF n e]
    have s: "''human_approval_consumed'' \<notin> set (res_signals res)" .
    from evaluate_no_approval(1) [OF n, of P] e assms(1)
    have k: "actionApprovalRequest db' rid = Some r"
      by (simp add: keepsRows_def)
    from evaluateAndLogAction_stages [OF e] obtain d0 r0 sigs0 rules sigs dbg where
      r: "resolveDecision inp (countRecent inp clk db) db = Inr (d0, r0, sigs0, rules)"
      and g: "approvalGate P ?inp clk rules
                (d0, r0, baselineSignals inp clk (findBaseline inp db) (countRecent inp clk db) sigs0) db
               = (Inr (res_decision res, res_reason res, sigs, res_approvalRequestId res), dbg)"
      and l: "logEvaluation P inp clk (findBaseline inp db) (countRecent inp clk db)
                (res_decision res, res_reason res, sigs, res_approvalRequestId res) dbg = (Inr res, db')"
      and u: "res_signals res = uniqueList sigs"
      by (auto simp: stages_ignore_requestId logEvaluation_ignores_requestId)
    have "res_decision res = BLOCK
          \<and> res_reason res = ''approval_required''
          \<and> ''human_approval_required'' \<in> set (res_signals res)
          \<and> (\<exists>newId row. res_approvalRequestId res = Some newId
                \<and> newId \<notin> dom (actionApprovalRequest db)
                \<and> actionApprovalRequest db' newId = Some row
                \<and> ar_status row = PENDING \<and> ar_consumedAt row = None
                \<and> ar_expiresAt row = clk_approvalCreate clk + APPROVAL_TTL_MS
                \<and> ar_workspaceId row = eal_workspaceId inp
                \<and> ar_agentId row = ag_id (eal_agent inp)
                \<and> ar_tool row = eal_tool inp
                \<and> ar_action row = eal_action inp)"
      if gr: "gateReached inp clk db"
    proof -
      from gr r have d0: "d0 = ALLOW" and q: "requiresHumanApproval (eal_action ?inp) rules"
        by (simp_all add: gateReached_def)
      from approvalGate_blocks [OF n q g [unfolded d0]] obtain newId row where
        o: "res_decision res = BLOCK" "res_reason res = ''approval_required''"
           "sigs = baselineSignals inp clk (findBaseline inp db) (countRecent inp clk db) sigs0
                    @ [''human_approval_required'']"
        and nw: "res_approvalRequestId res = Some newId"
           "newId \<notin> dom (actionApprovalRequest db)"
           "actionApprovalRequest dbg newId = Some row"
           "ar_status row = PENDING" "ar_consumedAt row = None"
           "ar_expiresAt row = clk_approvalCreate clk + APPROVAL_TTL_MS"
           "ar_workspaceId row = eal_workspaceId inp"
           "ar_agentId row = ag_id (eal_agent inp)"
           "ar_tool row = eal_tool inp" "ar_action row = eal_action inp"
        by auto
      from logEvaluation_rows [OF l nw(3)] have "actionApprovalRequest db' newId = Some row" .
      with o nw u show ?thesis
        by (auto simp: set_uniqueList)
    qed
    with s k show ?thesis by blast
  qed
  have c: "\<exists>res db'. evaluateAndLogAction P ?inp clk db = (Inr res, db')"
    if gr: "gateReached inp clk db"
      and f1: "uuid P (idSeq db) \<notin> dom (actionApprovalRequest db)"
      and f2: "uuid P (idSeq db + 1) \<notin> ev_id ` set (auditLogEvent db)"
  proof -
    from gr obtain r0 sigs0 rules where
      r: "resolveDecision inp (countRecent inp clk db) db = Inr (ALLOW, r0, sigs0, rules)"
      and q: "requiresHumanApproval (eal_action inp) rules"
      by (auto simp: gateReached_def split: sum.splits)
    let ?cur = "(ALLOW, r0, baselineSignals inp clk (findBaseline inp db) (countRecent inp clk db) sigs0)"
    obtain x dbg where g: "approvalGate P ?inp clk rules ?cur db = (x, dbg)"
      by (cases "approvalGate P ?inp clk rules ?cur db")
    from n q f1 g obtain out where x: "x = Inr out" and ev: "auditLogEvent dbg = auditLogEvent db"
      and sq: "idSeq dbg = idSeq db + 1"
      by (auto simp: approvalGate_def gateAfterLookup_def consumeApproval_def createApprovalRequest_def Let_def)
    from f2 ev sq have "uuid P (idSeq dbg) \<notin> ev_id ` set (auditLogEvent dbg)"
      by simp
    from logEvaluation_returns [OF this] g x r show ?thesis
      by (simp add: evaluateAndLogAction_def stages_ignore_requestId
                    logEvaluation_ignores_requestId)
  qed
  from a b c show ?thesis
    by blast
qed

lemma approvalGate_found:
  assumes "findApproved inp clk db = Some rid"
    and "requiresHumanApproval (eal_action inp) rules"
  shows "\<exists>db1. approvalGate P inp clk rules (ALLOW, r0, sigs) db
               = (Inr (ALLOW, r0, sigs @ [''human_approval_consumed''], None), db1)
             \<and> auditLogEvent db1 = auditLogEvent db \<and> idSeq db1 = idSeq db"
proof -
  from assms(1) obtain r where "actionApprovalRequest db rid = Some r"
    unfolding findApproved_Some by blast
  with assms show ?thesis
    by (simp add: approvalGate_def gateAfterLookup_def consumeApproval_def)
qed

lemma evaluate_consumes:
  assumes "gateReached inp clk db"
    and "findApproved inp clk db = Some rid"
    and "uuid P (idSeq db) \<notin> ev_id ` set (auditLogEvent db)"
  shows "\<exists>res db1. evaluateAndLogAction P inp clk db = (Inr res, db1)
           \<and> ''human_approval_consumed'' \<in> set (res_signals res)"
proof -
  from assms(1) obtain r0 sigs0 rules where
    r: "resolveDecision inp (countRecent inp clk db) db = Inr (ALLOW, r0, sigs0, rules)"
    and q: "requiresHumanApproval (eal_action inp) rules"
    by (auto simp: gateReached_def split: sum.splits)
  let ?sigs = "baselineSignals inp clk (findBaseline inp db) (countRecent inp clk db) sigs0"
  from approvalGate_found [OF assms(2) q, of P r0 ?sigs] obtain dbg where
    g: "approvalGate P inp clk rules (ALLOW, r0, ?sigs) db
          = (Inr (ALLOW, r0, ?sigs @ [''human_approval_consumed''], None), dbg)"
    and ev: "auditLogEvent dbg = auditLogEvent db" and sq: "idSeq dbg = idSeq db"
    by blast
  from assms(3) ev sq have "uuid P (idSeq dbg) \<notin> ev_id ` set (auditLogEvent dbg)"
    by simp
  from logEvaluation_returns [OF this] obtain res db1 where
    l: "logEvaluation P inp clk (findBaseline inp db) (countRecent inp clk db)
          (ALLOW, r0, ?sigs @ [''human_approval_consumed''], None) dbg = (Inr res, db1)"
    by blast
  from logEvaluation_result [OF l] have "''human_approval_consumed'' \<in> set (res_signals res)"
    by (simp add: set_uniqueList)
  moreover from r g l have "evaluateAndLogAction P inp clk db = (Inr res, db1)"
    by (simp add: evaluateAndLogAction_def)
  ultimately show ?thesis by blast
qed

lemma demo_delete_gate:
  "gateReached (demoCall ''delete'' rid) clk (demoApprovalState expires)"
  by (simp add: gateReached_def resolveDecision_def demoCall_def normalizePolicyRules_def
                rulesSchema_parse_def parseStringArray_def defaultRules_def truthy_def
                evaluatePolicy_def asRaw_def requiresHumanApproval_def toLowerCase_def
                lowerChar_def HIGH_RISK_ACTIONS_def)

lemma demo_approval_row:
  "actionApprovalRequest (demoApprovalState expires) ''r1'' = Some (demoApproval APPROVED expires)"
  by (simp add: demoApprovalState_def emptyState_def)

lemma demo_approval_fresh:
  "uuid demoPlatform (idSeq (demoApprovalState expires))
     \<notin> ev_id ` set (auditLogEvent (demoApprovalState expires))"
  "uuid demoPlatform (idSeq (demoApprovalState expires))
     \<notin> dom (actionApprovalRequest (demoApprovalState expires))"
  "uuid demoPlatform (idSeq (demoApprovalState expires) + 1)
     \<notin> ev_id ` set (auditLogEvent (demoApprovalState expires))"
  by (simp_all add: demoApprovalState_def emptyState_def demoPlatform_def)

theorem expired_approval_not_consumable_witness:
  "actionApprovalRequest (demoApprovalState 90000) ''r1'' = Some (demoApproval APPROVED 90000)
   \<and> ar_status (demoApproval APPROVED 90000) = APPROVED
   \<and> ar_expiresAt (demoApproval APPROVED 90000) \<le> clk_approvalLookup (demoClock 100000)
   \<and> gateReached (demoCall ''delete'' None) (demoClock 100000) (demoApprovalState 90000)
   \<and> (case evaluateAndLogAction demoPlatform (demoCall ''delete'' (Some ''r1''))
              (demoClock 100000) (demoApprovalState 90000) of
         (Inl e, db') \<Rightarrow> False
       | (Inr res, db') \<Rightarrow>
           res_decision res = BLOCK
         \<and> res_reason res = ''approval_required''
         \<and> ''human_approval_required'' \<in> set (res_signals res)
         \<and> ''human_approval_consumed'' \<notin> set (res_signals res)
         \<and> actionApprovalRequest db' ''r1'' = Some (demoApproval APPROVED 90000))"
proof -
  let ?db = "demoApprovalState 90000"
  let ?clk = "demoClock 100000"
  have i: "(demoCall ''delete'' None) \<lparr> eal_approvalRequestId := Some ''r1'' \<rparr>
           = demoCall ''delete'' (Some ''r1'')"
    by (simp add: demoCall_def)
  have h1: "actionApprovalRequest ?db ''r1'' = Some (demoApproval APPROVED 90000)"
    by (rule demo_approval_row)
  have h2: "ar_status (demoApproval APPROVED 90000) = APPROVED"
    by (simp add: demoApproval_def)
  have h3: "ar_expiresAt (demoApproval APPROVED 90000) \<le> clk_approvalLookup ?clk"
    by (simp add: demoApproval_def demoClock_def)
  have g: "gateReached (demoCall ''delete'' None) ?clk ?db"
    by (rule demo_delete_gate)
  note t = expired_approval_not_consumable [OF h1 h2 h3, of demoPlatform "demoCall ''delete'' None",
             unfolded i]
  from t g demo_approval_fresh(2,3) [of 90000] obtain res db' where
    e: "evaluateAndLogAction demoPlatform (demoCall ''delete'' (Some ''r1'')) ?clk ?db = (Inr res, db')"
    by blast
  from t e g have "res_decision res = BLOCK
         \<and> res_reason res = ''approval_required''
         \<and> ''human_approval_required'' \<in> set (res_signals res)
         \<and> ''human_approval_consumed'' \<notin> set (res_signals res)
         \<and> actionApprovalRequest db' ''r1'' = Some (demoApproval APPROVED 90000)"
    by blast
  with e h1 h2 h3 g show ?thesis
    by simp
qed

section \<open>The approval gate under concurrent evaluations\<close>

lemma evaluateAndLogAction_split:
  "evaluateAndLogAction P inp clk db
   = (case beginEvaluation inp clk db of
        Inl e \<Rightarrow> (Inl e, db)
      | Inr s \<Rightarrow> resumeEvaluation P s db)"
  by (simp add: evaluateAndLogAction_def beginEvaluation_def resumeEvaluation_def
                approvalGate_def Let_def
           split: sum.splits prod.splits)

text \<open>
  A request that runs both its turns with no turn of another request in between is
  \<open>evaluateAndLogAction\<close>.
\<close>

lemma schedule_serial:
  "schedule P db [Start n inp clk, Resume n]
   = \<lparr> w_db = snd (evaluateAndLogAction P inp clk db),
       w_suspended = Map.empty,
       w_returned = [n \<mapsto> fst (evaluateAndLogAction P inp clk db)] \<rparr>"
  by (simp add: schedule_def evaluateAndLogAction_split split: sum.splits prod.splits)

lemma beginEvaluation_gate:
  assumes "gateReached inp clk db"
  shows "\<exists>s r0 sigs. beginEvaluation inp clk db = Inr s
           \<and> sp_input s = inp \<and> sp_clock s = clk
           \<and> sp_current s = (ALLOW, r0, sigs)
           \<and> requiresHumanApproval (eal_action (sp_input s)) (sp_rules s)
           \<and> sp_approvedRequest s = findApproved inp clk db"
  using assms
  by (auto simp: gateReached_def beginEvaluation_def Let_def split: sum.splits)

lemma resumeEvaluation_gate:
  assumes "sp_current s = (ALLOW, r0, sigs)"
    and "requiresHumanApproval (eal_action (sp_input s)) (sp_rules s)"
    and "sp_approvedRequest s = Some rid"
    and "actionApprovalRequest db rid = Some r"
  shows "resumeEvaluation P s db
         = logEvaluation P (sp_input s) (sp_clock s) (sp_baseline s) (sp_burst s)
             (ALLOW, r0, sigs @ [''human_approval_consumed''], None)
             (db \<lparr> actionApprovalRequest :=
                     (actionApprovalRequest db)
                       (rid \<mapsto> r \<lparr> ar_consumedAt := Some (clk_approvalConsume (sp_clock s)) \<rparr>) \<rparr>)"
  using assms
  by (simp add: resumeEvaluation_def gateAfterLookup_def consumeApproval_def)

lemma resumeEvaluation_found:
  assumes "sp_current s = (ALLOW, r0, sigs)"
    and "requiresHumanApproval (eal_action (sp_input s)) (sp_rules s)"
    and "sp_approvedRequest s = Some rid"
    and "actionApprovalRequest db rid = Some r"
    and "resumeEvaluation P s db = (out, db')"
  shows "actionApprovalRequest db' rid
           = Some (r \<lparr> ar_consumedAt := Some (clk_approvalConsume (sp_clock s)) \<rparr>)"
    and "out = Inr res \<Longrightarrow> ''human_approval_consumed'' \<in> set (res_signals res)
                                \<and> res_decision res = ALLOW"
proof -
  let ?dbg = "db \<lparr> actionApprovalRequest :=
                     (actionApprovalRequest db)
                       (rid \<mapsto> r \<lparr> ar_consumedAt := Some (clk_approvalConsume (sp_clock s)) \<rparr>) \<rparr>"
  from assms(5) resumeEvaluation_gate [OF assms(1-4), of P]
  have l: "logEvaluation P (sp_input s) (sp_clock s) (sp_baseline s) (sp_burst s)
             (ALLOW, r0, sigs @ [''human_approval_consumed''], None) ?dbg = (out, db')"
    by simp
  have "actionApprovalRequest ?dbg rid
          = Some (r \<lparr> ar_consumedAt := Some (clk_approvalConsume (sp_clock s)) \<rparr>)"
    by simp
  from logEvaluation_rows [OF l this]
  show "actionApprovalRequest db' rid
           = Some (r \<lparr> ar_consumedAt := Some (clk_approvalConsume (sp_clock s)) \<rparr>)" .
  assume "out = Inr res"
  with l logEvaluation_result [of P "sp_input s" "sp_clock s" "sp_baseline s" "sp_burst s" ALLOW r0
                                  "sigs @ [''human_approval_consumed'']" None ?dbg res db']
  show "''human_approval_consumed'' \<in> set (res_signals res) \<and> res_decision res = ALLOW"
    by (simp add: set_uniqueList)
qed

text \<open>
  The run in which two requests both do their lookup before either resumes.
\<close>

lemma schedule_race:
  assumes "beginEvaluation inpA clkA db = Inr sA"
    and "beginEvaluation inpB clkB db = Inr sB"
    and "a \<noteq> b"
    and "resumeEvaluation P sA db = (outA, db1)"
    and "resumeEvaluation P sB db1 = (outB, db2)"
  shows "schedule P db [Start a inpA clkA, Start b inpB clkB, Resume a]
         = \<lparr> w_db = db1, w_suspended = [b \<mapsto> sB], w_returned = [a \<mapsto> outA] \<rparr>"
    and "schedule P db [Start a inpA clkA, Start b inpB clkB, Resume a, Resume b]
         = \<lparr> w_db = db2, w_suspended = Map.empty, w_returned = [a \<mapsto> outA, b \<mapsto> outB] \<rparr>"
  using assms by (auto simp: schedule_def fun_upd_twist)

text \<open>
  C4 (single-use approval). The claim fails on the code. Two evaluations bear the id
  of the same request, which belongs to their workspace and agent, is APPROVED, is not
  consumed and has not expired, and both reach the approval gate. In the run where both
  do their lookup before either resumes, each finds the request; the first to resume
  marks it consumed, and the second, whose update does not test \<open>consumedAt\<close>, marks
  it consumed again, overwriting the time. Whenever the two evaluations return, both
  return the decision ALLOW with the signal \<open>human_approval_consumed\<close>: the request
  has been consumed twice.
\<close>

theorem approval_consumed_twice:
  assumes "gateReached inpA clkA db"
    and "gateReached inpB clkB db"
    and "findApproved inpA clkA db = Some rid"
    and "findApproved inpB clkB db = Some rid"
    and "a \<noteq> b"
    and "w = schedule P db [Start a inpA clkA, Start b inpB clkB, Resume a, Resume b]"
    and "w_returned w a = Some (Inr resA)"
    and "w_returned w b = Some (Inr resB)"
  shows "''human_approval_consumed'' \<in> set (res_signals resA) \<and> res_decision resA = ALLOW
       \<and> ''human_approval_consumed'' \<in> set (res_signals resB) \<and> res_decision resB = ALLOW
       \<and> (\<exists>r. actionApprovalRequest db rid = Some r
              \<and> ar_workspaceId r = eal_workspaceId inpB
              \<and> ar_agentId r = ag_id (eal_agent inpB)
              \<and> ar_status r = APPROVED
              \<and> ar_consumedAt r = None
              \<and> actionApprovalRequest
                   (w_db (schedule P db [Start a inpA clkA, Start b inpB clkB, Resume a])) rid
                 = Some (r \<lparr> ar_consumedAt := Some (clk_approvalConsume clkA) \<rparr>)
              \<and> actionApprovalRequest (w_db w) rid
                 = Some (r \<lparr> ar_consumedAt := Some (clk_approvalConsume clkB) \<rparr>))"
proof -
  from beginEvaluation_gate [OF assms(1)] assms(3) obtain sA rA sigsA where
    bA: "beginEvaluation inpA clkA db = Inr sA" and cA: "sp_clock sA = clkA"
    and gA: "sp_current sA = (ALLOW, rA, sigsA)"
      "requiresHumanApproval (eal_action (sp_input sA)) (sp_rules sA)"
      "sp_approvedRequest sA = Some rid"
    by auto
  from beginEvaluation_gate [OF assms(2)] assms(4) obtain sB rB sigsB where
    bB: "beginEvaluation inpB clkB db = Inr sB" and cB: "sp_clock sB = clkB"
    and gB: "sp_current sB = (ALLOW, rB, sigsB)"
      "requiresHumanApproval (eal_action (sp_input sB)) (sp_rules sB)"
      "sp_approvedRequest sB = Some rid"
    by auto
  from assms(4) obtain r where
    row: "actionApprovalRequest db rid = Some r" "ar_workspaceId r = eal_workspaceId inpB"
      "ar_agentId r = ag_id (eal_agent inpB)" "ar_status r = APPROVED" "ar_consumedAt r = None"
    unfolding findApproved_Some by blast
  obtain outA db1 where eA: "resumeEvaluation P sA db = (outA, db1)"
    by (cases "resumeEvaluation P sA db")
  obtain outB db2 where eB: "resumeEvaluation P sB db1 = (outB, db2)"
    by (cases "resumeEvaluation P sB db1")
  note run = schedule_race [OF bA bB assms(5) eA eB]
  from resumeEvaluation_found(1) [OF gA row(1) eA] cA
  have r1: "actionApprovalRequest db1 rid
              = Some (r \<lparr> ar_consumedAt := Some (clk_approvalConsume clkA) \<rparr>)"
    by simp
  from resumeEvaluation_found(1) [OF gB r1 eB] cB
  have r2: "actionApprovalRequest db2 rid
              = Some (r \<lparr> ar_consumedAt := Some (clk_approvalConsume clkB) \<rparr>)"
    by simp
  from assms(6,7,8) run(2) assms(5) have o: "outA = Inr resA" "outB = Inr resB"
    by auto
  from resumeEvaluation_found(2) [OF gA row(1) eA o(1)]
       resumeEvaluation_found(2) [OF gB r1 eB o(2)]
       row r1 r2 run assms(6)
  show ?thesis
    by simp
qed

lemma logEvaluation_no_playbooks:
  assumes "workspacePlaybook db1 = []"
    and "logEvaluation P inp clk baseline burst outcome db1 = (Inr res, db')"
  shows "idSeq db' = idSeq db1 + 1
       \<and> ev_id ` set (auditLogEvent db')
           = insert (uuid P (idSeq db1)) (ev_id ` set (auditLogEvent db1))
       \<and> workspacePlaybook db' = []"
proof -
  obtain d1 r1 sigs aid where o: "outcome = (d1, r1, sigs, aid)"
    by (cases outcome)
  show ?thesis
    using assms
    by (auto simp: logEvaluation_def o Let_def appendAuditEvent_def upsertBaseline_def
                   runPlaybooksForEvent_def enabledPlaybooks_def
             split: if_splits option.splits)
qed

lemma demo_race_lookup:
  "findApproved (demoCall ''delete'' (Some ''r1'')) (demoClockWaiting t wait)
     (demoApprovalState 200000)
   = (if t + 1 < 200000 then Some ''r1'' else None)"
  by (simp add: findApproved_def demoCall_def truthy_def demo_approval_row demoApproval_def
                demoClockWaiting_def)

theorem approval_consumed_twice_witness:
  "gateReached (demoCall ''delete'' (Some ''r1'')) (demoClockWaiting 100000 2)
     (demoApprovalState 200000)
   \<and> gateReached (demoCall ''delete'' (Some ''r1'')) (demoClockWaiting 100001 5)
       (demoApprovalState 200000)
   \<and> findApproved (demoCall ''delete'' (Some ''r1'')) (demoClockWaiting 100000 2)
       (demoApprovalState 200000) = Some ''r1''
   \<and> findApproved (demoCall ''delete'' (Some ''r1'')) (demoClockWaiting 100001 5)
       (demoApprovalState 200000) = Some ''r1''
   \<and> (case w_returned
             (schedule demoPlatform (demoApprovalState 200000)
                [Start 1 (demoCall ''delete'' (Some ''r1'')) (demoClockWaiting 100000 2),
                 Start 2 (demoCall ''delete'' (Some ''r1'')) (demoClockWaiting 100001 5),
                 Resume 1, Resume 2]) 1 of
         Some (Inr resA) \<Rightarrow>
           ''human_approval_consumed'' \<in> set (res_signals resA) \<and> res_decision resA = ALLOW
       | _ \<Rightarrow> False)
   \<and> (case w_returned
             (schedule demoPlatform (demoApprovalState 200000)
                [Start 1 (demoCall ''delete'' (Some ''r1'')) (demoClockWaiting 100000 2),
                 Start 2 (demoCall ''delete'' (Some ''r1'')) (demoClockWaiting 100001 5),
                 Resume 1, Resume 2]) 2 of
         Some (Inr resB) \<Rightarrow>
           ''human_approval_consumed'' \<in> set (res_signals resB) \<and> res_decision resB = ALLOW
       | _ \<Rightarrow> False)
   \<and> actionApprovalRequest
        (w_db (schedule demoPlatform (demoApprovalState 200000)
                 [Start 1 (demoCall ''delete'' (Some ''r1'')) (demoClockWaiting 100000 2),
                  Start 2 (demoCall ''delete'' (Some ''r1'')) (demoClockWaiting 100001 5),
                  Resume 1])) ''r1''
      = Some ((demoApproval APPROVED 200000) \<lparr> ar_consumedAt := Some 100003 \<rparr>)
   \<and> actionApprovalRequest
        (w_db (schedule demoPlatform (demoApprovalState 200000)
                 [Start 1 (demoCall ''delete'' (Some ''r1'')) (demoClockWaiting 100000 2),
                  Start 2 (demoCall ''delete'' (Some ''r1'')) (demoClockWaiting 100001 5),
                  Resume 1, Resume 2])) ''r1''
      = Some ((demoApproval APPROVED 200000) \<lparr> ar_consumedAt := Some 100007 \<rparr>)"
proof -
  let ?db = "demoApprovalState 200000"
  let ?call = "demoCall ''delete'' (Some ''r1'')"
  let ?clkA = "demoClockWaiting 100000 2"
  let ?clkB = "demoClockWaiting 100001 5"
  let ?turns = "[Start 1 ?call ?clkA, Start 2 ?call ?clkB, Resume 1, Resume 2]"
  have gA: "gateReached ?call ?clkA ?db" and gB: "gateReached ?call ?clkB ?db"
    by (rule demo_delete_gate)+
  have fA: "findApproved ?call ?clkA ?db = Some ''r1''"
    and fB: "findApproved ?call ?clkB ?db = Some ''r1''"
    by (simp_all add: demo_race_lookup)
  from beginEvaluation_gate [OF gA] fA obtain sA rA sigsA where
    bA: "beginEvaluation ?call ?clkA ?db = Inr sA"
    and sA: "sp_current sA = (ALLOW, rA, sigsA)"
      "requiresHumanApproval (eal_action (sp_input sA)) (sp_rules sA)"
      "sp_approvedRequest sA = Some ''r1''"
    by auto
  from beginEvaluation_gate [OF gB] fB obtain sB rB sigsB where
    bB: "beginEvaluation ?call ?clkB ?db = Inr sB"
    and sB: "sp_current sB = (ALLOW, rB, sigsB)"
      "requiresHumanApproval (eal_action (sp_input sB)) (sp_rules sB)"
      "sp_approvedRequest sB = Some ''r1''"
    by auto
  let ?dbgA = "?db \<lparr> actionApprovalRequest :=
                 (actionApprovalRequest ?db)
                   (''r1'' \<mapsto> (demoApproval APPROVED 200000)
                                \<lparr> ar_consumedAt := Some (clk_approvalConsume (sp_clock sA)) \<rparr>) \<rparr>"
  have "uuid demoPlatform (idSeq ?dbgA) \<notin> ev_id ` set (auditLogEvent ?dbgA)"
    by (simp add: demoApprovalState_def emptyState_def demoPlatform_def)
  from logEvaluation_returns [OF this] resumeEvaluation_gate [OF sA demo_approval_row]
  obtain resA db1 where
    eA: "resumeEvaluation demoPlatform sA ?db = (Inr resA, db1)"
    and lA: "logEvaluation demoPlatform (sp_input sA) (sp_clock sA) (sp_baseline sA) (sp_burst sA)
               (ALLOW, rA, sigsA @ [''human_approval_consumed''], None) ?dbgA = (Inr resA, db1)"
    by metis
  have "workspacePlaybook ?dbgA = []"
    by (simp add: demoApprovalState_def emptyState_def)
  from logEvaluation_no_playbooks [OF this lA]
  have s1: "idSeq db1 = 1" "ev_id ` set (auditLogEvent db1) = {''u''}"
    by (simp_all add: demoApprovalState_def emptyState_def demoPlatform_def)
  from resumeEvaluation_found(1) [OF sA demo_approval_row eA] obtain r1 where
    r1: "actionApprovalRequest db1 ''r1'' = Some r1"
    by simp
  let ?dbgB = "db1 \<lparr> actionApprovalRequest :=
                 (actionApprovalRequest db1)
                   (''r1'' \<mapsto> r1 \<lparr> ar_consumedAt := Some (clk_approvalConsume (sp_clock sB)) \<rparr>) \<rparr>"
  have "uuid demoPlatform (idSeq ?dbgB) \<notin> ev_id ` set (auditLogEvent ?dbgB)"
    by (simp add: s1 demoPlatform_def)
  from logEvaluation_returns [OF this] resumeEvaluation_gate [OF sB r1]
  obtain resB db2 where
    eB: "resumeEvaluation demoPlatform sB db1 = (Inr resB, db2)"
    by metis
  have ne: "(1::nat) \<noteq> 2"
    by simp
  note run = schedule_race [OF bA bB ne eA eB]
  have ra: "w_returned (schedule demoPlatform ?db ?turns) 1 = Some (Inr resA)"
    and rb: "w_returned (schedule demoPlatform ?db ?turns) 2 = Some (Inr resB)"
    unfolding run(2) by simp_all
  from approval_consumed_twice [OF gA gB fA fB ne refl ra rb] ra rb gA gB fA fB
  show ?thesis
    by (simp add: demo_approval_row demoClockWaiting_def)
qed

section \<open>The unit tests of the repository\<close>

text \<open>
  The cases of \<^verbatim>\<open>policyEngine.test.ts\<close>, \<^verbatim>\<open>risk.test.ts\<close> and the first case of
  \<^verbatim>\<open>hashChain.test.ts\<close>, run on the definitions above.
\<close>

lemma test_blocks_denied_action_even_if_allowlisted:
  "evaluatePolicy (testRules STRICT [''delete''] [''delete''] [''crm'']) (testContext ''crm'' ''delete'')
   = Inr \<lparr> decision = BLOCK, reason = ''action_denied_by_policy'',
           signals = [''high_risk_action''] \<rparr>"
  by (simp add: evaluatePolicy_def normalizePolicyRules_def rulesSchema_parse_def
                parseStringArray_def testRules_def testContext_def detectSignals_def setAdd_def
                toLowerCase_def lowerChar_def HIGH_RISK_ACTIONS_def)

lemma test_strict_mode_blocks_unknown_tool:
  "evaluatePolicy (testRules STRICT [''read''] [] [''knowledge_base'']) (testContext ''unknown'' ''read'')
   = Inr \<lparr> decision = BLOCK, reason = ''tool_not_allowlisted_strict'',
           signals = [''unknown_tool''] \<rparr>"
  by (simp add: evaluatePolicy_def normalizePolicyRules_def rulesSchema_parse_def
                parseStringArray_def testRules_def testContext_def detectSignals_def setAdd_def
                toLowerCase_def lowerChar_def HIGH_RISK_ACTIONS_def)

lemma test_balanced_mode_allows_unknown_tool:
  "evaluatePolicy (testRules BALANCED [''read''] [] [''knowledge_base'']) (testContext ''unknown'' ''read'')
   = Inr \<lparr> decision = ALLOW, reason = ''allowed_by_policy_engine'',
           signals = [''unknown_tool''] \<rparr>"
  by (simp add: evaluatePolicy_def normalizePolicyRules_def rulesSchema_parse_def
                parseStringArray_def testRules_def testContext_def detectSignals_def setAdd_def
                toLowerCase_def lowerChar_def HIGH_RISK_ACTIONS_def)

lemma test_requires_approval:
  "requiresHumanApproval ''transfer_funds''
     \<lparr> mode = BALANCED, allow_actions = [], deny_actions = [], allow_tools = [],
       deny_tools = [], require_approval_actions = Some [] \<rparr>"
  "requiresHumanApproval ''export_csv''
     \<lparr> mode = BALANCED, allow_actions = [], deny_actions = [], allow_tools = [],
       deny_tools = [], require_approval_actions = Some [''export_csv''] \<rparr>"
  by (simp_all add: requiresHumanApproval_def toLowerCase_def lowerChar_def HIGH_RISK_ACTIONS_def)

lemma test_higher_risk_with_anomaly_signals:
  "computeRiskScore P [''unknown_tool'', ''burst_rate''] ''transfer_funds'' BLOCK noContext = 100"
  by (simp add: computeRiskScore_def signalPoints_def contextPoints_def orZero_def noContext_def
                toLowerCase_def lowerChar_def HIGH_RISK_ACTIONS_def)

lemma test_extra_risk_under_drift:
  "computeRiskScore demoPlatform [] ''read'' ALLOW
     (noContext \<lparr> rc_baselineAvgPerMinute := Some 2, rc_burstRate := Some 2,
                  rc_baselineAvgRiskScore := Some 10 \<rparr>) = 6"
  "computeRiskScore demoPlatform [''behavior_drift''] ''read'' ALLOW
     (noContext \<lparr> rc_baselineAvgPerMinute := Some 2, rc_burstRate := Some 6,
                  rc_baselineAvgRiskScore := Some 10, rc_isOffHours := Some True \<rparr>) = 38"
  by (simp_all add: computeRiskScore_def signalPoints_def contextPoints_def orZero_def
                    noContext_def Math_round_def toLowerCase_def lowerChar_def
                    HIGH_RISK_ACTIONS_def demoPlatform_def)

lemma test_validates_full_chain:
  "verifyHashChain P
     [ e1 \<lparr> ev_prevHash := ''GENESIS'',
            ev_hash := expectedHash P (e1 \<lparr> ev_prevHash := ''GENESIS'' \<rparr>) \<rparr>,
       e2 \<lparr> ev_prevHash := expectedHash P (e1 \<lparr> ev_prevHash := ''GENESIS'' \<rparr>),
            ev_hash := expectedHash P
              (e2 \<lparr> ev_prevHash := expectedHash P (e1 \<lparr> ev_prevHash := ''GENESIS'' \<rparr>) \<rparr>) \<rparr> ]"
  by (simp add: verifyHashChain_def expectedHash_def storedInput_def)

section \<open>Detection of changes under a collision-free digest\<close>

text \<open>
  With a digest and a serializer that never collide, a change to a middle event that
  alters its \<open>prevHash\<close>, its \<open>hash\<close> or the canonical form of its payload is
  detected. (For SHA-256 the absence of collisions is an assumption, not a fact.)
\<close>

lemma tamper_detected:
  assumes "inj (sha256hex P)" and "inj (JSON_stringify P)"
    and "verifyHashChain P es"
    and "Suc i < length es"
    and "ev_prevHash e' \<noteq> ev_prevHash (es ! i)
         \<or> ev_hash e' \<noteq> ev_hash (es ! i)
         \<or> sortObject (createEventHashPayload P (storedInput e') (ev_createdAt e'))
             \<noteq> sortObject (createEventHashPayload P (storedInput (es ! i)) (ev_createdAt (es ! i)))"
  shows "\<not> verifyHashChain P (es [i := e'])"
proof
  let ?t = "es [i := e']"
  assume v: "verifyHashChain P ?t"
  have i: "i < length es" using assms(4) by simp
  from assms(3) have o: "\<forall>j < length es. ev_prevHash (es ! j) = expectedPrev ''GENESIS'' es j
                              \<and> ev_hash (es ! j) = expectedHash P (es ! j)"
    by (simp add: verifyHashChain_def verifyFrom_characterised)
  from v have t: "\<forall>j < length ?t. ev_prevHash (?t ! j) = expectedPrev ''GENESIS'' ?t j
                              \<and> ev_hash (?t ! j) = expectedHash P (?t ! j)"
    by (simp add: verifyHashChain_def verifyFrom_characterised)
  have p: "ev_prevHash e' = ev_prevHash (es ! i)"
    using o [rule_format, of i] t [rule_format, of i] i
    by (simp add: expectedPrev_def)
  have h: "ev_hash e' = ev_hash (es ! i)"
    using o [rule_format, of "Suc i"] t [rule_format, of "Suc i"] assms(4)
    by (simp add: expectedPrev_def)
  have "expectedHash P e' = expectedHash P (es ! i)"
    using o [rule_format, of i] t [rule_format, of i] i h by simp
  then have "sortObject (createEventHashPayload P (storedInput e') (ev_createdAt e'))
             = sortObject (createEventHashPayload P (storedInput (es ! i)) (ev_createdAt (es ! i)))"
    using assms(1,2) p
    by (simp add: expectedHash_def computeEventHash_def canonicalize_def inj_eq)
  with p h assms(5) show False by simp
qed

lemma payload_field_changes:
  assumes "inj (toISOString P)"
    and "sortObject (createEventHashPayload P (storedInput e') (ev_createdAt e'))
         = sortObject (createEventHashPayload P (storedInput e) (ev_createdAt e))"
  shows "ev_workspaceId e' = ev_workspaceId e \<and> ev_agentId e' = ev_agentId e
       \<and> ev_tool e' = ev_tool e \<and> ev_action e' = ev_action e
       \<and> ev_resource e' = ev_resource e \<and> ev_decision e' = ev_decision e
       \<and> ev_reason e' = ev_reason e \<and> ev_anomalyFlagged e' = ev_anomalyFlagged e
       \<and> ev_createdAt e' = ev_createdAt e
       \<and> sortObject (ev_metadata e') = sortObject (ev_metadata e)"
proof -
  have n: "(nullable a = nullable b) = (a = b)" for a b
    by (cases a; cases b) (simp_all add: nullable_def)
  have d: "(decisionString a = decisionString b) = (a = b)" for a b
    by (cases a; cases b) (simp_all add: decisionString_def)
  from assms(2) show ?thesis
    using assms(1)
    by (simp add: sortObject_payload storedInput_def n d inj_eq del: sortObject.simps)
qed

end
